theory Spec2Isabelle
  imports Complex_Main "HOL-Library.Log_Nat"
begin

section \<open>JavaScript numbers\<close>

text \<open>
  Every number of the program is an IEEE 754 binary64 value. A finite value is carried
  as the real number it denotes; the two infinities and NaN are constructors of their
  own. The sign of zero is not carried: the program never divides by a zero and
  never reads the sign of one (comparisons, \<open>Math.abs\<close> and \<open>||\<close> treat
  \<open>-0\<close> as \<open>0\<close>).
\<close>

datatype jsnum = Finite real | PosInf | NegInf | NaN

text \<open>
  \<open>expo x\<close> is the binary exponent of a nonzero \<open>x\<close>
  (\<open>2 ^ expo x \<le> |x| < 2 ^ (expo x + 1)\<close>), \<open>rne\<close> rounds to the nearest
  integer with ties to even, and \<open>fl x\<close> is the binary64 value nearest to \<open>x\<close>
  with an unbounded exponent above (53 significant bits, gradual underflow below
  \<open>2 ^ -1022\<close>). \<open>round_double\<close> adds the overflow to an infinity.
\<close>

definition expo :: "real \<Rightarrow> int" where
  "expo x = (if 1 \<le> \<bar>x\<bar> then bitlen \<lfloor>\<bar>x\<bar>\<rfloor> - 1 else - bitlen (\<lceil>1 / \<bar>x\<bar>\<rceil> - 1))"

definition rne :: "real \<Rightarrow> int" where
  "rne y = (let f = \<lfloor>y\<rfloor>; d = y - of_int f in
     if d < 1 / 2 then f else if 1 / 2 < d then f + 1 else if even f then f else f + 1)"

definition ulp_exp :: "real \<Rightarrow> int" where
  "ulp_exp x = max (expo x) (- 1022) - 52"

definition fl :: "real \<Rightarrow> real" where
  "fl x = of_int (rne (x / 2 powi ulp_exp x)) * 2 powi ulp_exp x"

definition MAX_VALUE :: real where
  "MAX_VALUE = (2 ^ 53 - 1) * 2 ^ 971"

definition round_double :: "real \<Rightarrow> jsnum" where
  "round_double x = (let y = fl x in
     if MAX_VALUE < y then PosInf else if y < - MAX_VALUE then NegInf else Finite y)"

text \<open>A decimal literal of the source denotes the double nearest to it.\<close>

definition lit :: "real \<Rightarrow> jsnum" where
  "lit x = Finite (fl x)"

definition Number_EPSILON :: jsnum where
  "Number_EPSILON = Finite (1 / 2 ^ 52)"

text \<open>\<open>Math.PI\<close> is the double nearest to \<open>\<pi>\<close>.\<close>

definition Math_PI :: jsnum where
  "Math_PI = Finite (884279719003555 / 2 ^ 48)"

subsection \<open>Arithmetic\<close>

fun jsneg :: "jsnum \<Rightarrow> jsnum" where
  "jsneg (Finite a) = Finite (- a)"
| "jsneg PosInf = NegInf"
| "jsneg NegInf = PosInf"
| "jsneg NaN = NaN"

fun jsadd :: "jsnum \<Rightarrow> jsnum \<Rightarrow> jsnum" where
  "jsadd (Finite a) (Finite b) = round_double (a + b)"
| "jsadd NaN _ = NaN"
| "jsadd _ NaN = NaN"
| "jsadd PosInf NegInf = NaN"
| "jsadd NegInf PosInf = NaN"
| "jsadd PosInf _ = PosInf"
| "jsadd _ PosInf = PosInf"
| "jsadd NegInf _ = NegInf"
| "jsadd _ NegInf = NegInf"

definition jssub :: "jsnum \<Rightarrow> jsnum \<Rightarrow> jsnum" where
  "jssub a b = jsadd a (jsneg b)"

text \<open>The sign of a product or quotient with an infinite operand.\<close>

definition signed_inf :: "bool \<Rightarrow> jsnum" where
  "signed_inf positive = (if positive then PosInf else NegInf)"

fun jsmul :: "jsnum \<Rightarrow> jsnum \<Rightarrow> jsnum" where
  "jsmul (Finite a) (Finite b) = round_double (a * b)"
| "jsmul NaN _ = NaN"
| "jsmul _ NaN = NaN"
| "jsmul PosInf (Finite b) = (if b = 0 then NaN else signed_inf (0 < b))"
| "jsmul NegInf (Finite b) = (if b = 0 then NaN else signed_inf (b < 0))"
| "jsmul (Finite a) PosInf = (if a = 0 then NaN else signed_inf (0 < a))"
| "jsmul (Finite a) NegInf = (if a = 0 then NaN else signed_inf (a < 0))"
| "jsmul PosInf PosInf = PosInf"
| "jsmul NegInf NegInf = PosInf"
| "jsmul PosInf NegInf = NegInf"
| "jsmul NegInf PosInf = NegInf"

fun jsdiv :: "jsnum \<Rightarrow> jsnum \<Rightarrow> jsnum" where
  "jsdiv (Finite a) (Finite b) =
     (if b = 0 then (if a = 0 then NaN else signed_inf (0 < a)) else round_double (a / b))"
| "jsdiv NaN _ = NaN"
| "jsdiv _ NaN = NaN"
| "jsdiv (Finite a) PosInf = Finite 0"
| "jsdiv (Finite a) NegInf = Finite 0"
| "jsdiv PosInf (Finite b) = signed_inf (0 \<le> b)"
| "jsdiv NegInf (Finite b) = signed_inf (b < 0)"
| "jsdiv _ _ = NaN"

text \<open>
  The remainder operator \<open>%\<close> truncates the quotient toward zero, so the result has
  the sign of the dividend; it is exact.
\<close>

definition trunc :: "real \<Rightarrow> int" where
  "trunc r = (if 0 \<le> r then \<lfloor>r\<rfloor> else - \<lfloor>- r\<rfloor>)"

fun jsmod :: "jsnum \<Rightarrow> jsnum \<Rightarrow> jsnum" where
  "jsmod (Finite a) (Finite b) = (if b = 0 then NaN else Finite (a - b * of_int (trunc (a / b))))"
| "jsmod (Finite a) PosInf = Finite a"
| "jsmod (Finite a) NegInf = Finite a"
| "jsmod _ _ = NaN"

subsection \<open>Comparisons\<close>

fun jslt :: "jsnum \<Rightarrow> jsnum \<Rightarrow> bool" where
  "jslt (Finite a) (Finite b) = (a < b)"
| "jslt NaN _ = False"
| "jslt _ NaN = False"
| "jslt _ NegInf = False"
| "jslt PosInf _ = False"
| "jslt _ PosInf = True"
| "jslt NegInf _ = True"

fun jsle :: "jsnum \<Rightarrow> jsnum \<Rightarrow> bool" where
  "jsle (Finite a) (Finite b) = (a \<le> b)"
| "jsle NaN _ = False"
| "jsle _ NaN = False"
| "jsle NegInf _ = True"
| "jsle _ PosInf = True"
| "jsle _ NegInf = False"
| "jsle PosInf _ = False"

definition jsgt :: "jsnum \<Rightarrow> jsnum \<Rightarrow> bool" where
  "jsgt a b = jslt b a"

definition jsge :: "jsnum \<Rightarrow> jsnum \<Rightarrow> bool" where
  "jsge a b = jsle b a"

subsection \<open>The Math and Number library\<close>

fun Number_isNaN :: "jsnum \<Rightarrow> bool" where
  "Number_isNaN NaN = True"
| "Number_isNaN _ = False"

fun Number_isFinite :: "jsnum \<Rightarrow> bool" where
  "Number_isFinite (Finite a) = True"
| "Number_isFinite _ = False"

fun Math_abs :: "jsnum \<Rightarrow> jsnum" where
  "Math_abs (Finite a) = Finite \<bar>a\<bar>"
| "Math_abs NaN = NaN"
| "Math_abs _ = PosInf"

fun Math_floor :: "jsnum \<Rightarrow> jsnum" where
  "Math_floor (Finite a) = Finite (of_int \<lfloor>a\<rfloor>)"
| "Math_floor x = x"

text \<open>
  \<open>Math.sqrt\<close> is correctly rounded. ECMAScript leaves the results of
  \<open>Math.sin\<close>, \<open>Math.cos\<close>, \<open>Math.tan\<close> and \<open>Math.atan\<close>
  implementation-approximated; they are taken here as correctly rounded too. The bound
  on the residual of the Kepler solver depends on \<open>Math.sin\<close> and \<open>Math.cos\<close>
  being within \<open>2 ^ -53\<close> of the sine and cosine; every other theorem below depends
  on no more than their value at \<open>0\<close> and their finiteness.
\<close>

fun Math_sqrt :: "jsnum \<Rightarrow> jsnum" where
  "Math_sqrt (Finite a) = (if a < 0 then NaN else round_double (sqrt a))"
| "Math_sqrt PosInf = PosInf"
| "Math_sqrt _ = NaN"

fun Math_sin :: "jsnum \<Rightarrow> jsnum" where
  "Math_sin (Finite a) = round_double (sin a)"
| "Math_sin _ = NaN"

fun Math_cos :: "jsnum \<Rightarrow> jsnum" where
  "Math_cos (Finite a) = round_double (cos a)"
| "Math_cos _ = NaN"

fun Math_tan :: "jsnum \<Rightarrow> jsnum" where
  "Math_tan (Finite a) = round_double (tan a)"
| "Math_tan _ = NaN"

fun Math_atan :: "jsnum \<Rightarrow> jsnum" where
  "Math_atan (Finite a) = round_double (arctan a)"
| "Math_atan PosInf = round_double (pi / 2)"
| "Math_atan NegInf = round_double (- pi / 2)"
| "Math_atan NaN = NaN"

section \<open>utils/invariant: assertions that throw\<close>

text \<open>
  \<open>invariant\<close> throws an \<open>InvariantError\<close> carrying its message when the
  condition is false. An assertion is modelled by the error it throws, if any;
  \<open>checks\<close> runs assertions in order and stops at the first that throws. The numbers
  a message prints are left out of it.
\<close>

datatype error = InvariantError string

definition invariant :: "bool \<Rightarrow> string \<Rightarrow> error option" where
  "invariant condition message = (if condition then None else Some (InvariantError message))"

fun checks :: "error option list \<Rightarrow> error option" where
  "checks [] = None"
| "checks (None # cs) = checks cs"
| "checks (Some e # cs) = Some e"

definition postcondition :: "bool \<Rightarrow> string \<Rightarrow> error option" where
  "postcondition condition message = invariant condition (''POSTCONDITION FAILED: '' @ message)"

definition assertFinite :: "jsnum \<Rightarrow> string \<Rightarrow> error option" where
  "assertFinite v name = checks
     [invariant (\<not> Number_isNaN v) (name @ '' must be a valid number, got NaN''),
      invariant (Number_isFinite v) (name @ '' must be finite'')]"

definition assertBounds :: "jsnum \<Rightarrow> jsnum \<Rightarrow> jsnum \<Rightarrow> string \<Rightarrow> error option" where
  "assertBounds v lo hi name = checks
     [invariant (\<not> Number_isNaN v) (name @ '' must be a valid number, got NaN''),
      invariant (Number_isFinite v) (name @ '' must be finite''),
      invariant (jsge v lo \<and> jsle v hi) (name @ '' must be between min and max'')]"

definition assertPositive :: "jsnum \<Rightarrow> string \<Rightarrow> error option" where
  "assertPositive v name = checks
     [invariant (\<not> Number_isNaN v) (name @ '' must be a valid number, got NaN''),
      invariant (Number_isFinite v) (name @ '' must be finite''),
      invariant (jsgt v (Finite 0)) (name @ '' must be positive (> 0)'')]"

definition assertNonNegative :: "jsnum \<Rightarrow> string \<Rightarrow> error option" where
  "assertNonNegative v name = checks
     [invariant (\<not> Number_isNaN v) (name @ '' must be a valid number, got NaN''),
      invariant (Number_isFinite v) (name @ '' must be finite''),
      invariant (jsge v (Finite 0)) (name @ '' must be non-negative (>= 0)'')]"

section \<open>systems/TimeController\<close>

text \<open>
  A \<open>Date\<close> is either the invalid date or a UTC calendar instant, read through the
  \<open>getUTC...\<close> accessors (the month counts from 0). \<open>Date_UTC\<close> builds a date
  from numeric components as \<open>new Date(Date.UTC(...))\<close> does: a non-finite
  component gives the invalid date, a year from 0 to 99 means 1900 + year. The
  components are kept as they are given; the carry JavaScript performs on a component
  outside its calendar range is not modelled.
\<close>

datatype Date = InvalidDate
  | UTC (getUTCFullYear: int) (getUTCMonth: int) (getUTCDate: int)
        (getUTCHours: int) (getUTCMinutes: int) (getUTCSeconds: int)

fun toInteger :: "jsnum \<Rightarrow> int option" where
  "toInteger (Finite a) = Some (trunc a)"
| "toInteger _ = None"

definition Date_UTC :: "jsnum \<Rightarrow> jsnum \<Rightarrow> jsnum \<Rightarrow> jsnum \<Rightarrow> jsnum \<Rightarrow> jsnum \<Rightarrow> Date" where
  "Date_UTC year month day hour minute second =
     (case (toInteger year, toInteger month, toInteger day,
            toInteger hour, toInteger minute, toInteger second) of
        (Some y, Some mo, Some d, Some h, Some mi, Some s) \<Rightarrow>
          UTC (if 0 \<le> y \<and> y \<le> 99 then 1900 + y else y) mo d h mi s
      | _ \<Rightarrow> InvalidDate)"

definition J2000_JD :: jsnum where
  "J2000_JD = Finite 2451545"

definition MAX_TIME_SCALE :: jsnum where
  "MAX_TIME_SCALE = Finite 10000000"

definition MIN_JULIAN_DATE :: jsnum where
  "MIN_JULIAN_DATE = Finite 0"

definition MAX_JULIAN_DATE :: jsnum where
  "MAX_JULIAN_DATE = Finite 20000000"

record TimeState =
  state_julianDate :: jsnum
  simulationTime :: jsnum
  calendarDate :: Date
  state_timeScale :: jsnum
  state_isPaused :: bool
  isReversed :: bool

text \<open>
  The controller's fields. \<open>notified\<close> is the sequence of states that
  \<open>notifyListeners\<close> has handed to the registered listeners.
\<close>

record TimeController =
  julianDate :: jsnum
  timeScale :: jsnum
  isPaused :: bool
  accumulatedTime :: jsnum
  notified :: "TimeState list"

text \<open>
  A method that mutates the controller returns the error it threw, if any, together
  with the fields as the method left them: an assignment made before a throw stays.
\<close>

type_synonym effect = "error option \<times> TimeController"

definition dateToJulian :: "Date \<Rightarrow> error + jsnum" where
  "dateToJulian date =
     (case invariant (date \<noteq> InvalidDate) ''date must be a valid Date object'' of
        Some e \<Rightarrow> Inl e
      | None \<Rightarrow>
         (let year = Finite (of_int (getUTCFullYear date));
              month = jsadd (Finite (of_int (getUTCMonth date))) (Finite 1);
              day = Finite (of_int (getUTCDate date));
              hour = Finite (of_int (getUTCHours date));
              minute = Finite (of_int (getUTCMinutes date));
              second = Finite (of_int (getUTCSeconds date));
              y = (if jsle month (Finite 2) then jssub year (Finite 1) else year);
              m = (if jsle month (Finite 2) then jsadd month (Finite 12) else month);
              A = Math_floor (jsdiv y (Finite 100));
              B = jsadd (jssub (Finite 2) A) (Math_floor (jsdiv A (Finite 4)));
              JD = jsadd
                     (jssub
                        (jsadd
                           (jsadd
                              (jsadd (Math_floor (jsmul (Finite 365.25) (jsadd y (Finite 4716))))
                                     (Math_floor (jsmul (lit 30.6001) (jsadd m (Finite 1)))))
                              day)
                           B)
                        (Finite 1524.5))
                     (jsdiv (jsadd (jsadd hour (jsdiv minute (Finite 60)))
                                   (jsdiv second (Finite 3600)))
                            (Finite 24))
          in case assertFinite JD ''Calculated Julian date'' of
               Some e \<Rightarrow> Inl e
             | None \<Rightarrow> Inr JD))"

definition julianToDate :: "jsnum \<Rightarrow> error + Date" where
  "julianToDate jd =
     (case checks
        [assertFinite jd ''Julian date for conversion'',
         invariant (jsgt jd MIN_JULIAN_DATE \<and> jslt jd MAX_JULIAN_DATE)
           ''Julian date must be in valid range for conversion''] of
        Some e \<Rightarrow> Inl e
      | None \<Rightarrow>
         (let Z = Math_floor (jsadd jd (Finite 0.5));
              F = jssub (jsadd jd (Finite 0.5)) Z;
              A = (if jslt Z (Finite 2299161) then Z
                   else (let alpha = Math_floor (jsdiv (jssub Z (Finite 1867216.25)) (Finite 36524.25))
                         in jssub (jsadd (jsadd Z (Finite 1)) alpha)
                                  (Math_floor (jsdiv alpha (Finite 4)))));
              B = jsadd A (Finite 1524);
              C = Math_floor (jsdiv (jssub B (lit 122.1)) (Finite 365.25));
              D = Math_floor (jsmul (Finite 365.25) C);
              E = Math_floor (jsdiv (jssub B D) (lit 30.6001));
              day = jssub (jssub B D) (Math_floor (jsmul (lit 30.6001) E));
              month = (if jslt E (Finite 14) then jssub E (Finite 1) else jssub E (Finite 13));
              year = (if jsgt month (Finite 2) then jssub C (Finite 4716) else jssub C (Finite 4715));
              fracDay = jsmul F (Finite 24);
              hour = Math_floor fracDay;
              fracHour = jsmul (jssub fracDay hour) (Finite 60);
              minute = Math_floor fracHour;
              second = Math_floor (jsmul (jssub fracHour minute) (Finite 60));
              result = Date_UTC year (jssub month (Finite 1)) day hour minute second
          in case postcondition (result \<noteq> InvalidDate) ''julianToDate must produce valid Date'' of
               Some e \<Rightarrow> Inl e
             | None \<Rightarrow> Inr result))"

definition getCalendarDate :: "TimeController \<Rightarrow> error + Date" where
  "getCalendarDate c = julianToDate (julianDate c)"

definition getState :: "TimeController \<Rightarrow> error + TimeState" where
  "getState c =
     (case getCalendarDate c of
        Inl e \<Rightarrow> Inl e
      | Inr d \<Rightarrow> Inr \<lparr> state_julianDate = julianDate c,
                       simulationTime = accumulatedTime c,
                       calendarDate = d,
                       state_timeScale = timeScale c,
                       state_isPaused = isPaused c,
                       isReversed = jslt (timeScale c) (Finite 0) \<rparr>)"

definition notifyListeners :: "TimeController \<Rightarrow> effect" where
  "notifyListeners c =
     (case getState c of
        Inl e \<Rightarrow> (Some e, c)
      | Inr st \<Rightarrow> (None, c\<lparr> notified := notified c @ [st] \<rparr>))"

definition TimeController_update :: "jsnum \<Rightarrow> TimeController \<Rightarrow> effect" where
  "TimeController_update deltaSeconds c =
     (if isPaused c then (None, c)
      else case checks [assertFinite deltaSeconds ''Delta seconds'',
                        assertNonNegative deltaSeconds ''Delta seconds''] of
        Some e \<Rightarrow> (Some e, c)
      | None \<Rightarrow>
         (let deltaDays = jsdiv (jsmul deltaSeconds (timeScale c)) (Finite 86400)
          in case assertFinite deltaDays ''Delta days'' of
               Some e \<Rightarrow> (Some e, c)
             | None \<Rightarrow>
                (let c1 = c\<lparr> julianDate := jsadd (julianDate c) deltaDays \<rparr>;
                     c2 = c1\<lparr> accumulatedTime :=
                                jsadd (accumulatedTime c1) (jsmul deltaSeconds (Finite 1000)) \<rparr>
                 in case checks
                      [assertFinite (julianDate c2) ''Julian date after update'',
                       invariant (jsgt (julianDate c2) MIN_JULIAN_DATE \<and>
                                  jslt (julianDate c2) MAX_JULIAN_DATE)
                         ''Julian date must remain in valid range after update'',
                       assertNonNegative (accumulatedTime c2) ''Accumulated time''] of
                      Some e \<Rightarrow> (Some e, c2)
                    | None \<Rightarrow> notifyListeners c2)))"

definition setTimeScale :: "jsnum \<Rightarrow> TimeController \<Rightarrow> effect" where
  "setTimeScale scale c =
     (case checks [assertFinite scale ''Time scale'',
                   assertBounds (Math_abs scale) (Finite 0) MAX_TIME_SCALE ''Absolute time scale''] of
        Some e \<Rightarrow> (Some e, c)
      | None \<Rightarrow> notifyListeners (c\<lparr> timeScale := scale \<rparr>))"

definition pause :: "TimeController \<Rightarrow> effect" where
  "pause c = notifyListeners (c\<lparr> isPaused := True \<rparr>)"

definition resume :: "TimeController \<Rightarrow> effect" where
  "resume c = notifyListeners (c\<lparr> isPaused := False \<rparr>)"

definition togglePause :: "TimeController \<Rightarrow> effect" where
  "togglePause c = notifyListeners (c\<lparr> isPaused := \<not> isPaused c \<rparr>)"

definition reverse :: "TimeController \<Rightarrow> effect" where
  "reverse c = notifyListeners (c\<lparr> timeScale := jsneg (Math_abs (timeScale c)) \<rparr>)"

definition forward :: "TimeController \<Rightarrow> effect" where
  "forward c = notifyListeners (c\<lparr> timeScale := Math_abs (timeScale c) \<rparr>)"

definition setDate :: "Date \<Rightarrow> TimeController \<Rightarrow> effect" where
  "setDate date c =
     (case invariant (date \<noteq> InvalidDate) ''setDate requires valid Date object'' of
        Some e \<Rightarrow> (Some e, c)
      | None \<Rightarrow>
         (case dateToJulian date of
            Inl e \<Rightarrow> (Some e, c)
          | Inr jd \<Rightarrow> notifyListeners (c\<lparr> julianDate := jd \<rparr>)))"

definition setJulianDate :: "jsnum \<Rightarrow> TimeController \<Rightarrow> effect" where
  "setJulianDate jd c =
     (case checks
        [assertFinite jd ''Julian date for setJulianDate'',
         invariant (jsgt jd MIN_JULIAN_DATE \<and> jslt jd MAX_JULIAN_DATE)
           ''Julian date must be in valid range''] of
        Some e \<Rightarrow> (Some e, c)
      | None \<Rightarrow> notifyListeners (c\<lparr> julianDate := jd \<rparr>))"

definition jumpToJ2000 :: "TimeController \<Rightarrow> effect" where
  "jumpToJ2000 c = notifyListeners (c\<lparr> julianDate := J2000_JD \<rparr>)"

definition addDays :: "jsnum \<Rightarrow> TimeController \<Rightarrow> effect" where
  "addDays days c =
     (case assertFinite days ''Days to add'' of
        Some e \<Rightarrow> (Some e, c)
      | None \<Rightarrow>
         (let newJd = jsadd (julianDate c) days
          in case invariant (jsgt newJd MIN_JULIAN_DATE \<and> jslt newJd MAX_JULIAN_DATE)
                   ''Julian date must remain in valid range after adding days'' of
               Some e \<Rightarrow> (Some e, c)
             | None \<Rightarrow> notifyListeners (c\<lparr> julianDate := newJd \<rparr>)))"

text \<open>
  The constructor starts the controller at the current date, which the model takes as
  a parameter (\<open>new Date()\<close>).
\<close>

definition TimeController_new :: "Date \<Rightarrow> error + TimeController" where
  "TimeController_new now =
     (case dateToJulian now of
        Inl e \<Rightarrow> Inl e
      | Inr jd \<Rightarrow>
         (case checks
            [assertFinite jd ''Initial Julian date'',
             invariant (jsgt jd MIN_JULIAN_DATE \<and> jslt jd MAX_JULIAN_DATE)
               ''Initial Julian date must be in valid range''] of
            Some e \<Rightarrow> Inl e
          | None \<Rightarrow> Inr \<lparr> julianDate = jd, timeScale = Finite 1, isPaused = False,
                            accumulatedTime = Finite 0, notified = [] \<rparr>))"

definition jumpToNow :: "Date \<Rightarrow> TimeController \<Rightarrow> effect" where
  "jumpToNow now c =
     (case dateToJulian now of
        Inl e \<Rightarrow> (Some e, c)
      | Inr jd \<Rightarrow> notifyListeners (c\<lparr> julianDate := jd \<rparr>))"

subsection \<open>Calls from outside\<close>

text \<open>
  The public operations that change the controller, as a caller issues them.
  \<open>run_ops\<close> issues a sequence of calls and stops at the first that throws.
  \<open>in_band\<close> is the range every check of the class tests the day count against.
\<close>

datatype tc_op =
    Update jsnum | SetTimeScale jsnum | Pause | Resume | TogglePause | Reverse | Forward
  | SetDate Date | SetJulianDate jsnum | AddDays jsnum | JumpToJ2000 | JumpToNow Date

fun run_op :: "tc_op \<Rightarrow> TimeController \<Rightarrow> effect" where
  "run_op (Update deltaSeconds) c = TimeController_update deltaSeconds c"
| "run_op (SetTimeScale scale) c = setTimeScale scale c"
| "run_op Pause c = pause c"
| "run_op Resume c = resume c"
| "run_op TogglePause c = togglePause c"
| "run_op Reverse c = reverse c"
| "run_op Forward c = forward c"
| "run_op (SetDate date) c = setDate date c"
| "run_op (SetJulianDate jd) c = setJulianDate jd c"
| "run_op (AddDays days) c = addDays days c"
| "run_op JumpToJ2000 c = jumpToJ2000 c"
| "run_op (JumpToNow now) c = jumpToNow now c"

fun run_ops :: "tc_op list \<Rightarrow> TimeController \<Rightarrow> effect" where
  "run_ops [] c = (None, c)"
| "run_ops (x # xs) c =
     (case run_op x c of
        (None, c') \<Rightarrow> run_ops xs c'
      | (Some e, c') \<Rightarrow> (Some e, c'))"

definition in_band :: "jsnum \<Rightarrow> bool" where
  "in_band jd = (jsgt jd MIN_JULIAN_DATE \<and> jslt jd MAX_JULIAN_DATE)"

subsection \<open>Sample controllers\<close>

definition controller_at_J2000 :: TimeController where
  "controller_at_J2000 =
     \<lparr> julianDate = J2000_JD, timeScale = Finite 1, isPaused = False,
       accumulatedTime = Finite 0, notified = [] \<rparr>"

definition controller_near_limit :: TimeController where
  "controller_near_limit =
     \<lparr> julianDate = Finite 19999999.5, timeScale = Finite 1, isPaused = False,
       accumulatedTime = Finite 0, notified = [] \<rparr>"

definition controller_past_limit :: TimeController where
  "controller_past_limit =
     \<lparr> julianDate = Finite 20000000.5, timeScale = Finite 1, isPaused = False,
       accumulatedTime = Finite 86400000, notified = [] \<rparr>"

section \<open>bodies/OrbitalMechanics\<close>

definition KEPLER_TOLERANCE :: jsnum where
  "KEPLER_TOLERANCE = lit (1 / 10 ^ 10)"

definition MAX_KEPLER_ITERATIONS :: jsnum where
  "MAX_KEPLER_ITERATIONS = Finite 100"

definition MAX_SEMI_MAJOR_AXIS :: jsnum where
  "MAX_SEMI_MAJOR_AXIS = Finite 100000"

definition MIN_SEMI_MAJOR_AXIS :: jsnum where
  "MIN_SEMI_MAJOR_AXIS = lit (1 / 100000)"

record OrbitalElements =
  semiMajorAxis :: jsnum
  eccentricity :: jsnum
  inclination :: jsnum
  longitudeOfAscendingNode :: jsnum
  argumentOfPerihelion :: jsnum
  meanAnomaly :: jsnum
  meanMotion :: "jsnum option"
  epoch :: "jsnum option"

record CartesianPosition =
  pos_x :: jsnum
  pos_y :: jsnum
  pos_z :: jsnum

text \<open>The factor \<open>Math.PI / 180\<close> that converts degrees to radians.\<close>

definition DEG_TO_RAD :: jsnum where
  "DEG_TO_RAD = jsdiv Math_PI (Finite 180)"

subsection \<open>solveKeplerEquation\<close>

text \<open>
  One pass of the Newton-Raphson loop computes \<open>denominator\<close> and \<open>dE\<close> from
  the current \<open>E\<close>. The \<open>for\<close> loop runs its body for \<open>i = 0, 1, ...\<close> while
  \<open>i < maxIterations\<close>, that is \<open>iterations maxIterations\<close> times unless it breaks
  or throws; \<open>kepler_loop\<close> takes the number of passes left and returns \<open>E\<close>
  with the \<open>converged\<close> flag.
\<close>

definition newton_denominator :: "jsnum \<Rightarrow> jsnum \<Rightarrow> jsnum" where
  "newton_denominator e E = jssub (Finite 1) (jsmul e (Math_cos E))"

definition newton_dE :: "jsnum \<Rightarrow> jsnum \<Rightarrow> jsnum \<Rightarrow> jsnum" where
  "newton_dE M e E =
     jsdiv (jssub (jssub E (jsmul e (Math_sin E))) M) (newton_denominator e E)"

text \<open>\<open>newton_iterate M e E k\<close> is the value of \<open>E\<close> after \<open>k\<close> further passes.\<close>

fun newton_iterate :: "jsnum \<Rightarrow> jsnum \<Rightarrow> jsnum \<Rightarrow> nat \<Rightarrow> jsnum" where
  "newton_iterate M e E 0 = E"
| "newton_iterate M e E (Suc k) = newton_iterate M e (jssub E (newton_dE M e E)) k"

fun iterations :: "jsnum \<Rightarrow> nat" where
  "iterations (Finite m) = nat \<lceil>m\<rceil>"
| "iterations PosInf = 0"
| "iterations NegInf = 0"
| "iterations NaN = 0"

fun kepler_loop :: "nat \<Rightarrow> jsnum \<Rightarrow> jsnum \<Rightarrow> jsnum \<Rightarrow> jsnum \<Rightarrow> error + (jsnum \<times> bool)" where
  "kepler_loop 0 M e tolerance E = Inr (E, False)"
| "kepler_loop (Suc k) M e tolerance E =
     (case invariant (jsgt (Math_abs (newton_denominator e E)) Number_EPSILON)
             ''Kepler equation denominator must not be zero'' of
        Some err \<Rightarrow> Inl err
      | None \<Rightarrow>
         (case checks [assertFinite (newton_dE M e E) ''Kepler iteration step'',
                       assertFinite (jssub E (newton_dE M e E))
                         ''Eccentric anomaly after iteration''] of
            Some err \<Rightarrow> Inl err
          | None \<Rightarrow>
             (if jslt (Math_abs (newton_dE M e E)) tolerance
              then Inr (jssub E (newton_dE M e E), True)
              else kepler_loop k M e tolerance (jssub E (newton_dE M e E)))))"

definition solveKeplerEquation :: "jsnum \<Rightarrow> jsnum \<Rightarrow> jsnum \<Rightarrow> jsnum \<Rightarrow> error + jsnum" where
  "solveKeplerEquation meanAnomaly_deg ecc tolerance maxIterations =
     (case checks
        [assertFinite meanAnomaly_deg ''Mean anomaly for Kepler equation'',
         assertFinite ecc ''Eccentricity for Kepler equation'',
         assertBounds ecc (Finite 0) (jssub (Finite 1) Number_EPSILON) ''Eccentricity'',
         assertPositive tolerance ''Kepler tolerance'',
         assertPositive maxIterations ''Max Kepler iterations''] of
        Some err \<Rightarrow> Inl err
      | None \<Rightarrow>
         (let M = jsmul meanAnomaly_deg DEG_TO_RAD;
              e = ecc
          in case assertFinite M ''Mean anomaly in radians'' of
               Some err \<Rightarrow> Inl err
             | None \<Rightarrow>
                (let E0 = (if jsgt e (lit 0.8) then Math_PI else M)
                 in case kepler_loop (iterations maxIterations) M e tolerance E0 of
                      Inl err \<Rightarrow> Inl err
                    | Inr (E, converged) \<Rightarrow>
                       (case checks [invariant converged ''Kepler equation must converge'',
                                     assertFinite E ''Final eccentric anomaly''] of
                          Some err \<Rightarrow> Inl err
                        | None \<Rightarrow> Inr E))))"

subsection \<open>trueAnomalyFromEccentric and calculateHeliocentricDistance\<close>

definition trueAnomalyFromEccentric :: "jsnum \<Rightarrow> jsnum \<Rightarrow> error + jsnum" where
  "trueAnomalyFromEccentric eccentricAnomaly ecc =
     (case checks
        [assertFinite eccentricAnomaly ''Eccentric anomaly'',
         assertFinite ecc ''Eccentricity'',
         assertBounds ecc (Finite 0) (jssub (Finite 1) Number_EPSILON)
           ''Eccentricity for true anomaly''] of
        Some err \<Rightarrow> Inl err
      | None \<Rightarrow>
         (let e = ecc;
              E = eccentricAnomaly;
              denominator = jssub (Finite 1) e
          in case invariant (jsgt denominator (Finite 0)) ''Denominator (1-e) must be positive'' of
               Some err \<Rightarrow> Inl err
             | None \<Rightarrow>
                (let sqrtTerm = Math_sqrt (jsdiv (jsadd (Finite 1) e) denominator)
                 in case assertFinite sqrtTerm ''Sqrt term in true anomaly calculation'' of
                      Some err \<Rightarrow> Inl err
                    | None \<Rightarrow>
                       (let tanHalfNu = jsmul sqrtTerm (Math_tan (jsdiv E (Finite 2)))
                        in case assertFinite tanHalfNu ''Tan half nu'' of
                             Some err \<Rightarrow> Inl err
                           | None \<Rightarrow>
                              (let nu = jsmul (Finite 2) (Math_atan tanHalfNu)
                               in case assertFinite nu ''True anomaly'' of
                                    Some err \<Rightarrow> Inl err
                                  | None \<Rightarrow> Inr nu)))))"

definition calculateHeliocentricDistance :: "jsnum \<Rightarrow> jsnum \<Rightarrow> jsnum \<Rightarrow> error + jsnum" where
  "calculateHeliocentricDistance a e nu =
     (case checks
        [assertPositive a ''Semi-major axis for distance'',
         assertFinite e ''Eccentricity for distance'',
         assertBounds e (Finite 0) (jssub (Finite 1) Number_EPSILON) ''Eccentricity for distance'',
         assertFinite nu ''True anomaly for distance''] of
        Some err \<Rightarrow> Inl err
      | None \<Rightarrow>
         (let denominator = jsadd (Finite 1) (jsmul e (Math_cos nu))
          in case invariant (jsgt denominator (Finite 0))
                    ''Heliocentric distance denominator must be positive'' of
               Some err \<Rightarrow> Inl err
             | None \<Rightarrow>
                (let numerator = jsmul a (jssub (Finite 1) (jsmul e e))
                 in case assertFinite numerator ''Heliocentric distance numerator'' of
                      Some err \<Rightarrow> Inl err
                    | None \<Rightarrow>
                       (let r = jsdiv numerator denominator
                        in case checks [assertFinite r ''Heliocentric distance'',
                                        assertPositive r ''Heliocentric distance''] of
                             Some err \<Rightarrow> Inl err
                           | None \<Rightarrow> Inr r))))"

subsection \<open>calculatePosition\<close>

text \<open>
  \<open>a || b\<close> yields \<open>b\<close> when \<open>a\<close> is falsy; for an optional number that is
  \<open>undefined\<close>, \<open>0\<close> and \<open>NaN\<close>.
\<close>

fun or_else :: "jsnum option \<Rightarrow> jsnum \<Rightarrow> jsnum" where
  "or_else None d = d"
| "or_else (Some v) d = (if v = Finite 0 \<or> v = NaN then d else v)"

text \<open>
  The mean motion \<open>n\<close> (degrees per day) and the current mean anomaly \<open>M\<close>
  (degrees) as \<open>calculatePosition\<close> computes them, and the rotation of the orbital
  plane into ecliptic coordinates that ends it.
\<close>

definition mean_motion :: "OrbitalElements \<Rightarrow> jsnum" where
  "mean_motion elements =
     (let a = semiMajorAxis elements
      in or_else (meanMotion elements)
           (jsdiv (Finite 360) (jsmul (Math_sqrt (jsmul (jsmul a a) a)) (Finite 365.25))))"

definition current_mean_anomaly :: "jsnum \<Rightarrow> jsnum \<Rightarrow> jsnum \<Rightarrow> jsnum" where
  "current_mean_anomaly M0 n daysSinceEpoch =
     (let M = jsmod (jsadd M0 (jsmul n daysSinceEpoch)) (Finite 360)
      in if jslt M (Finite 0) then jsadd M (Finite 360) else M)"

definition to_ecliptic :: "jsnum \<Rightarrow> jsnum \<Rightarrow> jsnum \<Rightarrow> jsnum \<Rightarrow> jsnum \<Rightarrow> CartesianPosition" where
  "to_ecliptic iRad omegaRad wRad x_orbital y_orbital =
     (let cosW = Math_cos wRad;
          sinW = Math_sin wRad;
          cosOmega = Math_cos omegaRad;
          sinOmega = Math_sin omegaRad;
          cosI = Math_cos iRad;
          sinI = Math_sin iRad;
          x = jsadd (jsmul (jssub (jsmul cosW cosOmega) (jsmul (jsmul sinW sinOmega) cosI)) x_orbital)
                    (jsmul (jssub (jsmul (jsneg sinW) cosOmega) (jsmul (jsmul cosW sinOmega) cosI))
                           y_orbital);
          y = jsadd (jsmul (jsadd (jsmul cosW sinOmega) (jsmul (jsmul sinW cosOmega) cosI)) x_orbital)
                    (jsmul (jsadd (jsmul (jsneg sinW) sinOmega) (jsmul (jsmul cosW cosOmega) cosI))
                           y_orbital);
          z = jsadd (jsmul (jsmul sinW sinI) x_orbital) (jsmul (jsmul cosW sinI) y_orbital)
      in \<lparr> pos_x = x, pos_y = y, pos_z = z \<rparr>)"

definition calculatePosition :: "OrbitalElements \<Rightarrow> jsnum \<Rightarrow> error + CartesianPosition" where
  "calculatePosition elements jd =
     (let a = semiMajorAxis elements;
          e = eccentricity elements;
          i = inclination elements;
          omega = longitudeOfAscendingNode elements;
          w = argumentOfPerihelion elements;
          M0 = meanAnomaly elements;
          epoch = (case epoch elements of None \<Rightarrow> J2000_JD | Some t \<Rightarrow> t)
      in case checks
           [assertFinite jd ''Julian date for position'',
            assertPositive a ''Semi-major axis'',
            assertBounds a MIN_SEMI_MAJOR_AXIS MAX_SEMI_MAJOR_AXIS ''Semi-major axis'',
            assertFinite e ''Eccentricity'',
            assertBounds e (Finite 0) (jssub (Finite 1) Number_EPSILON) ''Eccentricity'',
            assertFinite i ''Inclination'',
            assertFinite omega ''Longitude of ascending node'',
            assertFinite w ''Argument of perihelion'',
            assertFinite M0 ''Mean anomaly at epoch'',
            assertFinite epoch ''Epoch''] of
           Some err \<Rightarrow> Inl err
         | None \<Rightarrow>
      (let n = mean_motion elements
       in case checks [assertFinite n ''Mean motion'', assertPositive n ''Mean motion''] of
            Some err \<Rightarrow> Inl err
          | None \<Rightarrow>
      (let daysSinceEpoch = jssub jd epoch
       in case assertFinite daysSinceEpoch ''Days since epoch'' of
            Some err \<Rightarrow> Inl err
          | None \<Rightarrow>
      (let M = current_mean_anomaly M0 n daysSinceEpoch
       in case assertFinite M ''Current mean anomaly'' of
            Some err \<Rightarrow> Inl err
          | None \<Rightarrow>
      (case solveKeplerEquation M e KEPLER_TOLERANCE MAX_KEPLER_ITERATIONS of
         Inl err \<Rightarrow> Inl err
       | Inr E \<Rightarrow>
      (case assertFinite E ''Eccentric anomaly from Kepler'' of
         Some err \<Rightarrow> Inl err
       | None \<Rightarrow>
      (case trueAnomalyFromEccentric E e of
         Inl err \<Rightarrow> Inl err
       | Inr nu \<Rightarrow>
      (case assertFinite nu ''True anomaly'' of
         Some err \<Rightarrow> Inl err
       | None \<Rightarrow>
      (case calculateHeliocentricDistance a e nu of
         Inl err \<Rightarrow> Inl err
       | Inr r \<Rightarrow>
      (let iRad = jsmul i DEG_TO_RAD;
           omegaRad = jsmul omega DEG_TO_RAD;
           wRad = jsmul w DEG_TO_RAD;
           x_orbital = jsmul r (Math_cos nu);
           y_orbital = jsmul r (Math_sin nu)
       in case checks
            [assertFinite r ''Heliocentric distance'',
             assertPositive r ''Heliocentric distance'',
             assertFinite iRad ''Inclination in radians'',
             assertFinite omegaRad ''Longitude of ascending node in radians'',
             assertFinite wRad ''Argument of perihelion in radians'',
             assertFinite x_orbital ''Orbital plane x'',
             assertFinite y_orbital ''Orbital plane y''] of
            Some err \<Rightarrow> Inl err
          | None \<Rightarrow>
      (let p = to_ecliptic iRad omegaRad wRad x_orbital y_orbital
       in case checks
            [assertFinite (pos_x p) ''Final position x'',
             assertFinite (pos_y p) ''Final position y'',
             assertFinite (pos_z p) ''Final position z''] of
            Some err \<Rightarrow> Inl err
          | None \<Rightarrow> Inr p)))))))))))"

subsection \<open>Sample orbits\<close>

text \<open>A circular orbit of one astronomical unit in the ecliptic, at periapsis at J2000.\<close>

definition circular_orbit :: OrbitalElements where
  "circular_orbit =
     \<lparr> semiMajorAxis = Finite 1, eccentricity = Finite 0, inclination = Finite 0,
       longitudeOfAscendingNode = Finite 0, argumentOfPerihelion = Finite 0,
       meanAnomaly = Finite 0, meanMotion = None, epoch = None \<rparr>"

section \<open>bodies/CelestialBody and bodies/SolarSystemBuilder\<close>

text \<open>
  A \<open>THREE.Vector3\<close>, and the fields of a \<open>CelestialBody\<close> that \<open>update\<close>
  reads or writes: the orbit, the parent, the rotation period, whether a mesh exists,
  the position of the body's group and the spin angle of its mesh. Bodies are objects
  that refer to each other, so they live in a store indexed by object identity, and
  \<open>parentBody\<close> holds the identity of the parent.
\<close>

record Vector3 =
  vec_x :: jsnum
  vec_y :: jsnum
  vec_z :: jsnum

record CelestialBody =
  body_name :: string
  orbitalElements :: "OrbitalElements option"
  parentBody :: "nat option"
  rotationPeriod :: jsnum
  has_mesh :: bool
  group_position :: Vector3
  mesh_rotation_y :: jsnum

type_synonym bodies = "nat \<Rightarrow> CelestialBody"











text \<open>
  The order in which \<open>update\<close> meets the bodies resolves every parent before its
  children when no body occurs twice and no body's parent occurs at or after the body
  itself. \<open>SolarSystemBuilder.build\<close> creates, in this order, the Sun, the eight
  planets, the moons of Earth, Mars, Jupiter, Saturn, Uranus and Neptune, Pluto, Charon
  and Ceres, each moon with its planet as parent; \<open>assembled_parents\<close> lists the
  parent of each, bodies numbered in creation order.
\<close>

definition parents_first :: "bodies \<Rightarrow> nat list \<Rightarrow> bool" where
  "parents_first h allBodies =
     (distinct allBodies \<and>
      (\<forall>k < length allBodies. \<forall>p. parentBody (h (allBodies ! k)) = Some p
          \<longrightarrow> p \<notin> set (drop k allBodies)))"

definition assembled_parents :: "nat option list" where
  "assembled_parents =
     [None, None, None, None, None, None, None, None, None,
      Some 3, Some 4, Some 4, Some 5, Some 5, Some 5, Some 5,
      Some 6, Some 6, Some 6, Some 7, Some 7, Some 7, Some 8,
      None, Some 23, None]"

text \<open>
  \<open>parents_before k ps\<close> checks a list of parents, the first entry belonging to body
  \<open>k\<close>: every parent has a smaller number than its child.
\<close>

fun parents_before :: "nat \<Rightarrow> nat option list \<Rightarrow> bool" where
  "parents_before k [] = True"
| "parents_before k (None # ps) = parents_before (Suc k) ps"
| "parents_before k (Some p # ps) = (p < k \<and> parents_before (Suc k) ps)"


subsection \<open>A two-level sample system\<close>


text \<open>The day count of 1 January 2000, 01:00:00 UTC, as \<open>dateToJulian\<close> computes it.\<close>

definition jd_2000_01_01_0100 :: jsnum where
  "jd_2000_01_01_0100 = Finite (5264651815572821 / 2147483648)"

definition controller_after_one_day :: TimeController where
  "controller_after_one_day =
     \<lparr> julianDate = Finite 2451546, timeScale = Finite 1, isPaused = False,
       accumulatedTime = Finite 0,
       notified = [\<lparr> state_julianDate = Finite 2451546, simulationTime = Finite 0,
                     calendarDate = UTC 2000 0 2 12 0 0, state_timeScale = Finite 1,
                     state_isPaused = False, isReversed = False \<rparr>] \<rparr>"


section \<open>Properties of the rounding\<close>

lemma expo_bounds:
  assumes "x \<noteq> 0"
  shows "2 powi expo x \<le> \<bar>x\<bar>" and "\<bar>x\<bar> < 2 powi (expo x + 1)"
proof -
  have "2 powi expo x \<le> \<bar>x\<bar> \<and> \<bar>x\<bar> < 2 powi (expo x + 1)"
  proof (cases "1 \<le> \<bar>x\<bar>")
    case True
    define n where "n = \<lfloor>\<bar>x\<bar>\<rfloor>"
    have n1: "1 \<le> n" using True by (simp add: n_def)
    then have npos: "0 < n" by simp
    have b1: "1 \<le> bitlen n" using npos by (auto simp: bitlen_alt_def)
    have e: "expo x = bitlen n - 1" using True by (simp add: expo_def n_def)
    from bitlen_bounds[OF npos]
    have lo: "2 ^ nat (bitlen n - 1) \<le> n" and hi: "n < 2 ^ nat (bitlen n)" by auto
    have "2 powi (bitlen n - 1) = (2::real) ^ nat (bitlen n - 1)"
      using b1 by (simp add: power_int_nonneg_exp)
    also have "\<dots> \<le> real_of_int n" using lo
      by (metis of_int_le_iff of_int_numeral of_int_power)
    also have "\<dots> \<le> \<bar>x\<bar>" by (simp add: n_def)
    finally have A: "2 powi expo x \<le> \<bar>x\<bar>" by (simp add: e)
    have "n + 1 \<le> 2 ^ nat (bitlen n)" using hi by simp
    then have "real_of_int (n + 1) \<le> 2 ^ nat (bitlen n)"
      by (metis of_int_le_iff of_int_numeral of_int_power)
    moreover have "\<bar>x\<bar> < real_of_int (n + 1)" by (simp add: n_def)
    moreover have "2 powi (expo x + 1) = (2::real) ^ nat (bitlen n)"
      using b1 by (simp add: e power_int_nonneg_exp)
    ultimately have B: "\<bar>x\<bar> < 2 powi (expo x + 1)" by linarith
    from A B show ?thesis ..
  next
    case False
    then have x1: "\<bar>x\<bar> < 1" and xpos: "0 < \<bar>x\<bar>" using assms by auto
    define y where "y = 1 / \<bar>x\<bar>"
    define c where "c = \<lceil>y\<rceil>"
    have y1: "1 < y" using x1 xpos by (simp add: y_def)
    then have c2: "2 \<le> c" unfolding c_def by linarith
    then have cpos: "0 < c - 1" by simp
    define b where "b = bitlen (c - 1)"
    have b1: "1 \<le> b" using cpos by (auto simp: b_def bitlen_alt_def)
    have e: "expo x = - b" using False by (simp add: expo_def b_def c_def y_def)
    from bitlen_bounds[OF cpos]
    have lo: "2 ^ nat (b - 1) \<le> c - 1" and hi: "c - 1 < 2 ^ nat b" by (auto simp: b_def)
    have "c \<le> 2 ^ nat b" using hi by simp
    then have "real_of_int c \<le> 2 ^ nat b"
      by (metis of_int_le_iff of_int_numeral of_int_power)
    moreover have "y \<le> real_of_int c" by (simp add: c_def)
    ultimately have yhi: "y \<le> 2 ^ nat b" by linarith
    have "real_of_int (c - 1) < y" unfolding c_def by linarith
    moreover have "(2::real) ^ nat (b - 1) \<le> real_of_int (c - 1)" using lo
      by (metis of_int_le_iff of_int_numeral of_int_power)
    ultimately have ylo: "2 ^ nat (b - 1) < y" by linarith
    have p1: "2 powi (- b) = 1 / (2::real) ^ nat b"
      using b1 by (simp add: power_int_minus_divide power_int_nonneg_exp)
    have p2: "2 powi (- b + 1) = 1 / (2::real) ^ nat (b - 1)"
    proof -
      have "- b + 1 = - (b - 1)" by simp
      then show ?thesis using b1 by (simp only: power_int_minus_divide) (simp add: power_int_nonneg_exp)
    qed
    have A: "2 powi expo x \<le> \<bar>x\<bar>"
      using yhi xpos unfolding e p1 y_def by (simp add: field_simps)
    have B: "\<bar>x\<bar> < 2 powi (expo x + 1)"
      using ylo xpos unfolding e p2 y_def by (simp add: field_simps)
    from A B show ?thesis ..
  qed
  then show "2 powi expo x \<le> \<bar>x\<bar>" and "\<bar>x\<bar> < 2 powi (expo x + 1)" by auto
qed

lemma pow2_less_iff [simp]: "(2::real) powi a < 2 powi b \<longleftrightarrow> a < b"
proof
  assume h: "(2::real) powi a < 2 powi b"
  show "a < b"
  proof (rule ccontr)
    assume "\<not> a < b"
    then have "b \<le> a" by simp
    then have "(2::real) powi b \<le> 2 powi a" by (rule power_int_increasing) simp
    with h show False by simp
  qed
next
  assume "a < b"
  then show "(2::real) powi a < 2 powi b" by (rule power_int_strict_increasing) simp
qed

lemma pow2_le_iff [simp]: "(2::real) powi a \<le> 2 powi b \<longleftrightarrow> a \<le> b"
  using pow2_less_iff[of b a] by (simp only: not_less[symmetric])

lemma expo_unique:
  assumes "2 powi e \<le> \<bar>x\<bar>" and "\<bar>x\<bar> < 2 powi (e + 1)"
  shows "expo x = e"
proof -
  have "(0::real) < 2 powi e" by (rule zero_less_power_int) simp
  with assms(1) have "0 < \<bar>x\<bar>" by linarith
  then have x0: "x \<noteq> 0" by auto
  note b = expo_bounds[OF x0]
  have "(2::real) powi e < 2 powi (expo x + 1)" using assms(1) b(2) by linarith
  then have 1: "e < expo x + 1" by simp
  have "(2::real) powi expo x < 2 powi (e + 1)" using assms(2) b(1) by linarith
  then have 2: "expo x < e + 1" by simp
  from 1 2 show ?thesis by simp
qed


lemma rne_of_int [simp]: "rne (of_int n) = n"
  by (simp add: rne_def)

lemma rne_floor_ceiling: "\<lfloor>y\<rfloor> \<le> rne y \<and> rne y \<le> \<lfloor>y\<rfloor> + 1"
  by (simp add: rne_def Let_def)

lemma rne_mono: "a \<le> b \<Longrightarrow> rne a \<le> rne b"
proof -
  assume ab: "a \<le> b"
  have fl: "\<lfloor>a\<rfloor> \<le> \<lfloor>b\<rfloor>" using ab by (rule floor_mono)
  show ?thesis
  proof (cases "\<lfloor>a\<rfloor> = \<lfloor>b\<rfloor>")
    case True
    then have "a - of_int \<lfloor>a\<rfloor> \<le> b - of_int \<lfloor>b\<rfloor>" using ab by simp
    then show ?thesis using True by (auto simp: rne_def Let_def)
  next
    case False
    then have "\<lfloor>a\<rfloor> + 1 \<le> \<lfloor>b\<rfloor>" using fl by simp
    then show ?thesis using rne_floor_ceiling[of a] rne_floor_ceiling[of b] by linarith
  qed
qed

lemma rne_minus: "rne (- y) = - rne y"
proof (cases "y \<in> \<int>")
  case True
  then obtain n where "y = of_int n" by (auto elim: Ints_cases)
  then show ?thesis by (metis of_int_minus rne_of_int)
next
  case False
  then have ne: "y \<noteq> of_int \<lfloor>y\<rfloor>" by (metis Ints_of_int)
  then have "\<lceil>y\<rceil> = \<lfloor>y\<rfloor> + 1" by (simp add: ceiling_altdef)
  then have f: "\<lfloor>- y\<rfloor> = - \<lfloor>y\<rfloor> - 1" by (simp add: ceiling_def)
  have d: "y - of_int \<lfloor>y\<rfloor> \<noteq> 0" using ne by simp
  show ?thesis using f d by (auto simp: rne_def Let_def)
qed


lemma rne_0 [simp]: "rne 0 = 0"
  using rne_of_int[of 0] by simp

lemma pow2_pos [simp]: "(0::real) < 2 powi k"
  by (rule zero_less_power_int) simp

lemma expo_minus [simp]: "expo (- x) = expo x"
  by (simp add: expo_def)

lemma ulp_exp_minus [simp]: "ulp_exp (- x) = ulp_exp x"
  by (simp add: ulp_exp_def)

lemma fl_0 [simp]: "fl 0 = 0"
  by (simp add: fl_def)

lemma fl_minus: "fl (- x) = - fl x"
  by (simp add: fl_def rne_minus)

lemma ulp_exp_ge: "- 1074 \<le> ulp_exp x"
  by (simp add: ulp_exp_def)

text \<open>A value with at most 53 significant bits and exponent at least -1074 is a double.\<close>

lemma fl_exact:
  assumes m: "\<bar>m\<bar> < 2 ^ 53" and k: "- 1074 \<le> k"
  shows "fl (of_int m * 2 powi k) = of_int m * 2 powi k"
proof (cases "m = 0")
  case True
  then show ?thesis by simp
next
  case False
  define x where "x = real_of_int m * 2 powi k"
  have x0: "x \<noteq> 0" using False by (simp add: x_def)
  have absx: "\<bar>x\<bar> = real_of_int \<bar>m\<bar> * 2 powi k"
    by (simp add: x_def abs_mult)
  have "real_of_int \<bar>m\<bar> < 2 ^ 53" using m by simp
  then have "\<bar>x\<bar> < 2 ^ 53 * 2 powi k"
    unfolding absx by (simp add: mult_strict_right_mono)
  also have "\<dots> = 2 powi (53 + k)" by (simp add: power_int_add)
  finally have "2 powi expo x < (2::real) powi (53 + k)"
    using expo_bounds(1)[OF x0] by linarith
  then have e: "expo x < 53 + k" by simp
  define u where "u = ulp_exp x"
  have uk: "u \<le> k" using e k by (simp add: ulp_exp_def u_def)
  define j where "j = nat (k - u)"
  have kj: "k = u + int j" using uk by (simp add: j_def)
  have xu: "x = real_of_int m * (2 powi u * 2 ^ j)"
    unfolding x_def kj by (simp add: power_int_add)
  have "x / 2 powi u = real_of_int (m * 2 ^ j)"
    unfolding xu by simp
  then have "rne (x / 2 powi u) = m * 2 ^ j" by (simp only: rne_of_int)
  then have "fl x = real_of_int (m * 2 ^ j) * 2 powi u" by (simp add: fl_def u_def)
  also have "\<dots> = x" unfolding xu by simp
  finally show ?thesis by (simp add: x_def)
qed

lemma fl_of_int: "\<bar>n\<bar> < 2 ^ 53 \<Longrightarrow> fl (of_int n) = of_int n"
  using fl_exact[of n 0] by simp


lemma fl_nonneg: "0 \<le> x \<Longrightarrow> 0 \<le> fl x"
proof -
  assume "0 \<le> x"
  then have "0 \<le> x / 2 powi ulp_exp x" by simp
  then have "rne 0 \<le> rne (x / 2 powi ulp_exp x)" by (rule rne_mono)
  then show ?thesis by (simp add: fl_def)
qed

lemma ulp_exp_expo: "expo x - 52 \<le> ulp_exp x"
  by (simp add: ulp_exp_def)

lemma scaled_less:
  assumes "x \<noteq> 0"
  shows "\<bar>x\<bar> / 2 powi ulp_exp x < 2 ^ 53"
proof -
  have "\<bar>x\<bar> < 2 powi (expo x + 1)" using expo_bounds(2)[OF assms] .
  also have "(2::real) powi (expo x + 1) \<le> 2 powi (ulp_exp x + 53)"
    using ulp_exp_expo[of x] by simp
  also have "\<dots> = 2 powi ulp_exp x * 2 ^ 53" by (simp add: power_int_add)
  finally show ?thesis by (simp add: field_simps)
qed

lemma rne_scaled_bounds:
  "- (2 ^ 53) \<le> rne (x / 2 powi ulp_exp x) \<and> rne (x / 2 powi ulp_exp x) \<le> 2 ^ 53"
proof (cases "x = 0")
  case True
  then show ?thesis by simp
next
  case False
  define q where "q = x / 2 powi ulp_exp x"
  have "\<bar>q\<bar> = \<bar>x\<bar> / 2 powi ulp_exp x" by (simp add: q_def abs_divide)
  then have "\<bar>q\<bar> < 2 ^ 53" using scaled_less[OF False] by simp
  then have "- (2 ^ 53) \<le> q" and "q \<le> 2 ^ 53" by linarith+
  then have lo: "real_of_int (- (2 ^ 53)) \<le> q" and hi: "q \<le> real_of_int (2 ^ 53)"
    by simp_all
  from rne_mono[OF lo] rne_mono[OF hi] show ?thesis
    unfolding q_def by (simp only: rne_of_int)
qed

lemma fl_representable:
  "\<exists>m k. \<bar>m\<bar> < 2 ^ 53 \<and> - 1074 \<le> k \<and> fl x = of_int m * 2 powi k"
proof -
  define u where "u = ulp_exp x"
  define n where "n = rne (x / 2 powi u)"
  have eq: "fl x = of_int n * 2 powi u" by (simp add: fl_def n_def u_def)
  have b: "- (2 ^ 53) \<le> n" "n \<le> 2 ^ 53" using rne_scaled_bounds[of x] by (simp_all add: n_def u_def)
  have u: "- 1074 \<le> u" by (simp add: u_def ulp_exp_ge)
  consider "\<bar>n\<bar> < 2 ^ 53" | "n = 2 ^ 53" | "n = - (2 ^ 53)" using b by linarith
  then show ?thesis
  proof cases
    case 1
    then show ?thesis using eq u by blast
  next
    case 2
    have "fl x = of_int (2 ^ 52) * 2 powi (u + 1)"
      unfolding eq 2 by (simp add: power_int_add)
    moreover have "\<bar>2 ^ 52 :: int\<bar> < 2 ^ 53" by simp
    moreover have "- 1074 \<le> u + 1" using u by simp
    ultimately show ?thesis by blast
  next
    case 3
    have "fl x = of_int (- (2 ^ 52)) * 2 powi (u + 1)"
      unfolding eq 3 by (simp add: power_int_add)
    moreover have "\<bar>- (2 ^ 52) :: int\<bar> < 2 ^ 53" by simp
    moreover have "- 1074 \<le> u + 1" using u by simp
    ultimately show ?thesis by blast
  qed
qed

lemma fl_idem [simp]: "fl (fl x) = fl x"
proof -
  obtain m k where "\<bar>m\<bar> < 2 ^ 53" "- 1074 \<le> k" "fl x = of_int m * 2 powi k"
    using fl_representable by blast
  then show ?thesis using fl_exact[of m k] by simp
qed

lemma fl_mono_pos:
  assumes "0 < x" and "x \<le> y"
  shows "fl x \<le> fl y"
proof -
  have x0: "x \<noteq> 0" and y0: "y \<noteq> 0" using assms by auto
  have absx: "\<bar>x\<bar> = x" and absy: "\<bar>y\<bar> = y" using assms by auto
  note bx = expo_bounds[OF x0, unfolded absx] and bye = expo_bounds[OF y0, unfolded absy]
  have "(2::real) powi expo x < 2 powi (expo y + 1)" using bx(1) bye(2) assms(2) by linarith
  then have exy: "expo x \<le> expo y" by simp
  then have uxy: "ulp_exp x \<le> ulp_exp y" by (simp add: ulp_exp_def)
  show ?thesis
  proof (cases "ulp_exp x = ulp_exp y")
    case True
    have "x / 2 powi ulp_exp y \<le> y / 2 powi ulp_exp y"
      using assms(2) by (simp add: divide_right_mono)
    then have "rne (x / 2 powi ulp_exp y) \<le> rne (y / 2 powi ulp_exp y)" by (rule rne_mono)
    then show ?thesis by (simp add: fl_def True)
  next
    case False
    then have lt: "ulp_exp x < ulp_exp y" using uxy by simp
    then have ey: "ulp_exp y = expo y - 52" and ux1: "ulp_exp x + 53 \<le> expo y"
      by (auto simp: ulp_exp_def max_def split: if_splits)
    text \<open>the larger argument rounds to at least \<open>2 powi expo y\<close>\<close>
    have "2 powi expo y / 2 powi ulp_exp y \<le> y / 2 powi ulp_exp y"
      using bye(1) by (simp add: divide_right_mono)
    moreover have "2 powi expo y / 2 powi ulp_exp y = real_of_int (2 ^ 52)"
      unfolding ey by (simp add: power_int_diff)
    ultimately have "real_of_int (2 ^ 52) \<le> y / 2 powi ulp_exp y" by simp
    from rne_mono[OF this] have "2 ^ 52 \<le> rne (y / 2 powi ulp_exp y)" by (simp only: rne_of_int)
    then have "(2::real) ^ 52 \<le> real_of_int (rne (y / 2 powi ulp_exp y))" by simp
    then have "2 ^ 52 * 2 powi ulp_exp y \<le> fl y"
      unfolding fl_def by (simp add: mult_right_mono)
    moreover have "(2::real) ^ 52 * 2 powi ulp_exp y = 2 powi expo y"
      unfolding ey by (simp add: power_int_diff)
    ultimately have hi: "2 powi expo y \<le> fl y" by simp
    text \<open>the smaller argument rounds to at most that\<close>
    have "rne (x / 2 powi ulp_exp x) \<le> 2 ^ 53" using rne_scaled_bounds[of x] by simp
    then have "real_of_int (rne (x / 2 powi ulp_exp x)) \<le> 2 ^ 53" by simp
    then have "fl x \<le> 2 ^ 53 * 2 powi ulp_exp x"
      unfolding fl_def by (simp add: mult_right_mono)
    also have "\<dots> = 2 powi (ulp_exp x + 53)" by (simp add: power_int_add)
    also have "\<dots> \<le> 2 powi expo y" using ux1 by simp
    finally show ?thesis using hi by linarith
  qed
qed

lemma fl_mono: "x \<le> y \<Longrightarrow> fl x \<le> fl y"
proof -
  assume xy: "x \<le> y"
  consider "0 < x" | "x \<le> 0" "0 \<le> y" | "y < 0" using xy by linarith
  then show ?thesis
  proof cases
    case 1
    then show ?thesis using xy by (rule fl_mono_pos)
  next
    case 2
    have "0 \<le> fl y" using 2(2) by (rule fl_nonneg)
    moreover have "0 \<le> fl (- x)" using 2(1) by (intro fl_nonneg) simp
    ultimately show ?thesis by (simp add: fl_minus)
  next
    case 3
    then have "0 < - y" "- y \<le> - x" using xy by auto
    then have "fl (- y) \<le> fl (- x)" by (rule fl_mono_pos)
    then show ?thesis by (simp add: fl_minus)
  qed
qed

lemma fl_MAX_VALUE: "fl MAX_VALUE = MAX_VALUE"
  using fl_exact[of "2 ^ 53 - 1" 971] by (simp add: MAX_VALUE_def)

lemma round_double_Finite:
  assumes "\<bar>x\<bar> \<le> MAX_VALUE"
  shows "round_double x = Finite (fl x)"
proof -
  have "fl x \<le> fl MAX_VALUE" using assms by (intro fl_mono) simp
  moreover have "fl (- MAX_VALUE) \<le> fl x" using assms by (intro fl_mono) simp
  ultimately show ?thesis by (simp add: round_double_def fl_MAX_VALUE fl_minus)
qed


lemma round_double_small: "\<bar>x\<bar> \<le> 2 ^ 64 \<Longrightarrow> round_double x = Finite (fl x)"
  by (rule round_double_Finite) (simp add: MAX_VALUE_def)

lemma fl_numeral: "numeral n < (2::int) ^ 53 \<Longrightarrow> fl (numeral n) = numeral n"
  using fl_of_int[of "numeral n"] by simp

lemma fl_1 [simp]: "fl 1 = 1"
  using fl_of_int[of 1] by simp

lemma bitlen_numeral: "bitlen (numeral n) = bitlen (numeral n div 2) + 1"
  by (subst compute_bitlen) simp

lemma bitlen_small: "bitlen 0 = 0" "bitlen 1 = 1" "bitlen (- numeral n) = 0" "bitlen (- 1) = 0"
  by (simp_all add: bitlen_def floorlog_def)

lemmas fl_eval = fl_def ulp_exp_def expo_def rne_def Let_def bitlen_numeral bitlen_small

lemmas js_eval = round_double_small fl_numeral lit_def jssub_def jsgt_def jsge_def trunc_def

subsection \<open>Finite results of the arithmetic\<close>

lemma round_double_eq_Finite: "round_double z = Finite y \<Longrightarrow> y = fl z"
  by (auto simp: round_double_def Let_def split: if_splits)

lemma jsadd_Finite_cases:
  "jsadd a b = Finite r \<Longrightarrow> \<exists>u v. a = Finite u \<and> b = Finite v \<and> r = fl (u + v)"
  by (cases a; cases b) (auto dest: round_double_eq_Finite)

lemma jssub_Finite_cases:
  assumes "jssub a b = Finite r"
  shows "\<exists>u v. a = Finite u \<and> b = Finite v \<and> r = fl (u - v)"
proof -
  from assms obtain u v' where a: "a = Finite u" and b: "jsneg b = Finite v'" and r: "r = fl (u + v')"
    unfolding jssub_def by (blast dest: jsadd_Finite_cases)
  from b have "b = Finite (- v')" by (cases b) auto
  with a r show ?thesis by simp
qed

lemma jsmul_representable: "jsmul a b = Finite r \<Longrightarrow> fl r = r"
  by (cases a; cases b) (auto simp: signed_inf_def dest: round_double_eq_Finite split: if_splits)

lemma jsdiv_Finite_cases:
  assumes "jsdiv a (Finite d) = Finite r" and "d \<noteq> 0"
  shows "\<exists>n. a = Finite n \<and> r = fl (n / d)"
  using assms by (cases a) (auto simp: signed_inf_def dest: round_double_eq_Finite split: if_splits)

lemma jsmul_Finite_cases:
  "jsmul a b = Finite r \<Longrightarrow> \<exists>u v. a = Finite u \<and> b = Finite v \<and> r = fl (u * v)"
  by (cases a; cases b) (auto simp: signed_inf_def dest: round_double_eq_Finite split: if_splits)

section \<open>Properties of the assertions\<close>

lemma checks_eq_None_iff: "checks cs = None \<longleftrightarrow> (\<forall>c \<in> set cs. c = None)"
  by (induction cs rule: checks.induct) auto

lemma assertFinite_None_iff: "assertFinite v name = None \<longleftrightarrow> Number_isFinite v"
  by (cases v) (simp_all add: assertFinite_def invariant_def)

lemma assertNonNegative_None_iff:
  "assertNonNegative v name = None \<longleftrightarrow> Number_isFinite v \<and> jsle (Finite 0) v"
  by (cases v) (simp_all add: assertNonNegative_def invariant_def jsge_def)

section \<open>Properties of the TimeController\<close>

lemmas tc_eval = dateToJulian_def julianToDate_def invariant_def assertFinite_def postcondition_def
  Date_UTC_def MIN_JULIAN_DATE_def MAX_JULIAN_DATE_def assertNonNegative_def assertBounds_def
  getState_def getCalendarDate_def notifyListeners_def J2000_JD_def MAX_TIME_SCALE_def

lemma julianToDate_Inr_in_band:
  assumes "julianToDate jd = Inr d"
  shows "in_band jd"
proof (rule ccontr)
  assume "\<not> in_band jd"
  then have "checks
        [assertFinite jd ''Julian date for conversion'',
         invariant (jsgt jd MIN_JULIAN_DATE \<and> jslt jd MAX_JULIAN_DATE)
           ''Julian date must be in valid range for conversion''] \<noteq> None"
    by (auto simp: checks_eq_None_iff in_band_def invariant_def)
  then obtain e where "checks
        [assertFinite jd ''Julian date for conversion'',
         invariant (jsgt jd MIN_JULIAN_DATE \<and> jslt jd MAX_JULIAN_DATE)
           ''Julian date must be in valid range for conversion''] = Some e"
    by blast
  then have "julianToDate jd = Inl e" by (simp add: julianToDate_def)
  with assms show False by simp
qed

lemma notifyListeners_None:
  "notifyListeners c = (None, c') \<Longrightarrow> in_band (julianDate c) \<and> julianDate c' = julianDate c"
  by (auto simp: notifyListeners_def getState_def getCalendarDate_def
           dest: julianToDate_Inr_in_band split: sum.splits)

lemma run_op_in_band:
  assumes "in_band (julianDate c)" and "run_op x c = (None, c')"
  shows "in_band (julianDate c')"
proof (cases x)
  case (Update d)
  show ?thesis
  proof (cases "isPaused c")
    case True
    then show ?thesis using assms Update by (simp add: TimeController_update_def)
  next
    case False
    then show ?thesis using assms(2) Update
      by (auto simp: TimeController_update_def Let_def dest!: notifyListeners_None
               split: option.splits)
  qed
qed (use assms in \<open>auto simp: setTimeScale_def pause_def resume_def togglePause_def reverse_def
      forward_def setDate_def setJulianDate_def jumpToJ2000_def addDays_def jumpToNow_def Let_def
      dest!: notifyListeners_None split: option.splits sum.splits\<close>)

lemma run_ops_in_band:
  "in_band (julianDate c) \<Longrightarrow> run_ops xs c = (None, c') \<Longrightarrow> in_band (julianDate c')"
proof (induction xs arbitrary: c)
  case Nil
  then show ?case by simp
next
  case (Cons x xs)
  then show ?case
    by (auto split: prod.splits option.splits dest: run_op_in_band)
qed

lemma TimeController_new_in_band: "TimeController_new now = Inr c \<Longrightarrow> in_band (julianDate c)"
  by (auto simp: TimeController_new_def in_band_def checks_eq_None_iff invariant_def
           split: sum.splits option.splits if_splits)

lemma invariant_Some: "\<not> b \<Longrightarrow> invariant b msg = Some (InvariantError msg)"
  by (simp add: invariant_def)

lemma notifyListeners_fields:
  "notifyListeners c = (r, c') \<Longrightarrow>
     julianDate c' = julianDate c \<and> accumulatedTime c' = accumulatedTime c
     \<and> timeScale c' = timeScale c \<and> isPaused c' = isPaused c"
  by (auto simp: notifyListeners_def split: sum.splits)

lemma notifyListeners_out_of_band:
  "\<not> in_band (julianDate c) \<Longrightarrow> \<exists>e. notifyListeners c = (Some e, c)"
proof -
  assume a: "\<not> in_band (julianDate c)"
  have "\<exists>e. julianToDate (julianDate c) = Inl e"
    using julianToDate_Inr_in_band[of "julianDate c"] a by (cases "julianToDate (julianDate c)") auto
  then show ?thesis by (auto simp: notifyListeners_def getState_def getCalendarDate_def)
qed

lemma update_normal_return:
  assumes "\<not> isPaused c" and "TimeController_update deltaSeconds c = (None, c')"
  shows "Number_isFinite deltaSeconds \<and> jsle (Finite 0) deltaSeconds
     \<and> julianDate c' = jsadd (julianDate c)
                          (jsdiv (jsmul deltaSeconds (timeScale c)) (Finite 86400))
     \<and> accumulatedTime c' = jsadd (accumulatedTime c) (jsmul deltaSeconds (Finite 1000))
     \<and> in_band (julianDate c')"
proof -
  from assms have pre: "checks [assertFinite deltaSeconds ''Delta seconds'',
                        assertNonNegative deltaSeconds ''Delta seconds''] = None"
    by (auto simp: TimeController_update_def split: option.splits)
  then have d: "Number_isFinite deltaSeconds \<and> jsle (Finite 0) deltaSeconds"
    by (simp add: checks_eq_None_iff assertFinite_None_iff assertNonNegative_None_iff)
  let ?c2 = "c\<lparr> julianDate := jsadd (julianDate c)
                  (jsdiv (jsmul deltaSeconds (timeScale c)) (Finite 86400)),
               accumulatedTime := jsadd (accumulatedTime c) (jsmul deltaSeconds (Finite 1000)) \<rparr>"
  from assms pre have "notifyListeners ?c2 = (None, c')"
    by (auto simp: TimeController_update_def Let_def split: option.splits)
  from notifyListeners_fields[OF this] notifyListeners_None[OF this] d show ?thesis by simp
qed

lemma update_leaving_band_throws:
  assumes "\<not> isPaused c" and "Number_isFinite deltaSeconds" and "jsle (Finite 0) deltaSeconds"
    and "Number_isFinite (jsdiv (jsmul deltaSeconds (timeScale c)) (Finite 86400))"
    and "\<not> in_band (jsadd (julianDate c) (jsdiv (jsmul deltaSeconds (timeScale c)) (Finite 86400)))"
  shows "\<exists>e. TimeController_update deltaSeconds c =
           (Some e, c\<lparr> julianDate := jsadd (julianDate c)
                           (jsdiv (jsmul deltaSeconds (timeScale c)) (Finite 86400)),
                        accumulatedTime := jsadd (accumulatedTime c)
                           (jsmul deltaSeconds (Finite 1000)) \<rparr>)"
proof -
  let ?dd = "jsdiv (jsmul deltaSeconds (timeScale c)) (Finite 86400)"
  let ?c2 = "c\<lparr> julianDate := jsadd (julianDate c) ?dd,
               accumulatedTime := jsadd (accumulatedTime c) (jsmul deltaSeconds (Finite 1000)) \<rparr>"
  have pre: "checks [assertFinite deltaSeconds ''Delta seconds'',
                        assertNonNegative deltaSeconds ''Delta seconds''] = None"
    using assms(2,3) by (simp add: checks_eq_None_iff assertFinite_None_iff assertNonNegative_None_iff)
  have dd: "assertFinite ?dd ''Delta days'' = None"
    using assms(4) by (simp add: assertFinite_None_iff)
  have "checks
          [assertFinite (julianDate ?c2) ''Julian date after update'',
           invariant (jsgt (julianDate ?c2) MIN_JULIAN_DATE \<and> jslt (julianDate ?c2) MAX_JULIAN_DATE)
             ''Julian date must remain in valid range after update'',
           assertNonNegative (accumulatedTime ?c2) ''Accumulated time''] \<noteq> None"
    using assms(5) by (auto simp: checks_eq_None_iff in_band_def invariant_def)
  then obtain e where "checks
          [assertFinite (julianDate ?c2) ''Julian date after update'',
           invariant (jsgt (julianDate ?c2) MIN_JULIAN_DATE \<and> jslt (julianDate ?c2) MAX_JULIAN_DATE)
             ''Julian date must remain in valid range after update'',
           assertNonNegative (accumulatedTime ?c2) ''Accumulated time''] = Some e"
    by blast
  then have "TimeController_update deltaSeconds c = (Some e, ?c2)"
    using assms(1) pre dd by (simp add: TimeController_update_def Let_def)
  then show ?thesis by blast
qed

lemma update_nonfinite_step_throws:
  assumes "\<not> isPaused c" and "Number_isFinite deltaSeconds" and "jsle (Finite 0) deltaSeconds"
    and "\<not> Number_isFinite (jsdiv (jsmul deltaSeconds (timeScale c)) (Finite 86400))"
  shows "\<exists>e. TimeController_update deltaSeconds c = (Some e, c)"
proof -
  have pre: "checks [assertFinite deltaSeconds ''Delta seconds'',
                        assertNonNegative deltaSeconds ''Delta seconds''] = None"
    using assms(2,3) by (simp add: checks_eq_None_iff assertFinite_None_iff assertNonNegative_None_iff)
  have "assertFinite (jsdiv (jsmul deltaSeconds (timeScale c)) (Finite 86400)) ''Delta days'' \<noteq> None"
    using assms(4) by (simp add: assertFinite_None_iff)
  then obtain e where
    "assertFinite (jsdiv (jsmul deltaSeconds (timeScale c)) (Finite 86400)) ''Delta days'' = Some e"
    by blast
  then have "TimeController_update deltaSeconds c = (Some e, c)"
    using assms(1) pre by (simp add: TimeController_update_def Let_def)
  then show ?thesis by blast
qed

lemma dateToJulian_Inr_valid: "dateToJulian date = Inr jd \<Longrightarrow> date \<noteq> InvalidDate"
  by (auto simp: dateToJulian_def invariant_def split: if_splits)

lemma setDate_leaving_band_throws:
  assumes "dateToJulian date = Inr jd" and "\<not> in_band jd"
  shows "\<exists>e. setDate date c = (Some e, c\<lparr> julianDate := jd \<rparr>)"
    and "\<exists>e. jumpToNow date c = (Some e, c\<lparr> julianDate := jd \<rparr>)"
proof -
  have v: "date \<noteq> InvalidDate" using assms(1) by (rule dateToJulian_Inr_valid)
  have "\<not> in_band (julianDate (c\<lparr> julianDate := jd \<rparr>))" using assms(2) by simp
  from notifyListeners_out_of_band[OF this]
  obtain e where n: "notifyListeners (c\<lparr> julianDate := jd \<rparr>) = (Some e, c\<lparr> julianDate := jd \<rparr>)"
    by blast
  show "\<exists>e. setDate date c = (Some e, c\<lparr> julianDate := jd \<rparr>)"
    using v assms(1) n by (simp add: setDate_def invariant_def)
  show "\<exists>e. jumpToNow date c = (Some e, c\<lparr> julianDate := jd \<rparr>)"
    using assms(1) n by (simp add: jumpToNow_def)
qed

lemma run_op_stores_requested:
  assumes "run_op x c = (None, c')"
  shows "julianDate c' =
     (case x of
        Update deltaSeconds \<Rightarrow>
          if isPaused c then julianDate c
          else jsadd (julianDate c) (jsdiv (jsmul deltaSeconds (timeScale c)) (Finite 86400))
      | SetDate date \<Rightarrow> (case dateToJulian date of Inr jd \<Rightarrow> jd | Inl e \<Rightarrow> julianDate c)
      | SetJulianDate jd \<Rightarrow> jd
      | AddDays days \<Rightarrow> jsadd (julianDate c) days
      | JumpToJ2000 \<Rightarrow> J2000_JD
      | JumpToNow now \<Rightarrow> (case dateToJulian now of Inr jd \<Rightarrow> jd | Inl e \<Rightarrow> julianDate c)
      | _ \<Rightarrow> julianDate c)"
proof (cases x)
  case (Update d)
  show ?thesis
  proof (cases "isPaused c")
    case True
    then show ?thesis using assms Update by (simp add: TimeController_update_def)
  next
    case False
    then show ?thesis using update_normal_return[OF False, of d c'] assms Update by simp
  qed
qed (use assms in \<open>auto simp: setTimeScale_def pause_def resume_def togglePause_def reverse_def
      forward_def setDate_def setJulianDate_def jumpToJ2000_def addDays_def jumpToNow_def Let_def
      dest!: notifyListeners_fields split: option.splits sum.splits\<close>)

lemma update_moves_with_time_scale:
  assumes np: "\<not> isPaused c" and ret: "TimeController_update deltaSeconds c = (None, c')"
    and j: "julianDate c = Finite j" and rep: "fl j = j"
    and bwd: "jslt (julianDate c') (julianDate c)"
  shows "jslt (timeScale c) (Finite 0)"
proof (rule ccontr)
  assume nneg: "\<not> jslt (timeScale c) (Finite 0)"
  note r = update_normal_return[OF np ret]
  from r obtain d where d: "deltaSeconds = Finite d" and d0: "0 \<le> d"
    by (cases deltaSeconds) auto
  from r have "in_band (julianDate c')" by blast
  with bwd j obtain j' where j': "julianDate c' = Finite j'" and lt: "j' < j"
    by (cases "julianDate c'") (auto simp: in_band_def jsgt_def MIN_JULIAN_DATE_def)
  from r j j' have "jsadd (Finite j) (jsdiv (jsmul (Finite d) (timeScale c)) (Finite 86400)) = Finite j'"
    by (simp add: d)
  from jsadd_Finite_cases[OF this] obtain e'
    where dd: "jsdiv (jsmul (Finite d) (timeScale c)) (Finite 86400) = Finite e'"
      and s: "j' = fl (j + e')" by auto
  from jsdiv_Finite_cases[OF dd] obtain n
    where m: "jsmul (Finite d) (timeScale c) = Finite n" and e': "e' = fl (n / 86400)" by auto
  from jsmul_Finite_cases[OF m] obtain t where t: "timeScale c = Finite t" and n: "n = fl (d * t)"
    by auto
  have "0 \<le> t" using nneg t by simp
  then have "0 \<le> d * t" using d0 by simp
  then have "0 \<le> n" unfolding n by (rule fl_nonneg)
  then have "0 \<le> n / 86400" by simp
  then have "0 \<le> e'" unfolding e' by (rule fl_nonneg)
  then have "fl j \<le> fl (j + e')" by (intro fl_mono) simp
  with rep s lt show False by simp
qed

text \<open>
  Claim C10. While the controller is not paused, \<open>update\<close> throws for every
  negative and for every non-finite \<open>deltaSeconds\<close> (NaN, either infinity), and
  the controller is left exactly as it was: neither \<open>julianDate\<close> nor
  \<open>accumulatedTime\<close> changes and no listener is notified. While it is paused,
  \<open>update\<close> returns normally and changes nothing, whatever the argument. An
  \<open>update\<close> that returns normally while not paused had a finite, non-negative
  argument and moved the day count by \<open>deltaSeconds * timeScale / 86400\<close> and the
  accumulated time by \<open>deltaSeconds * 1000\<close>, as the doubles compute them; from a day
  count that is a double, it moved the day count backward only if the time scale is
  negative.
\<close>

theorem update_rejects_negative_or_nonfinite:
  "(\<not> isPaused c \<and> (jslt deltaSeconds (Finite 0) \<or> \<not> Number_isFinite deltaSeconds)
      \<longrightarrow> (\<exists>e. TimeController_update deltaSeconds c = (Some e, c)))
   \<and> (isPaused c \<longrightarrow> TimeController_update deltaSeconds c = (None, c))
   \<and> (\<not> isPaused c \<and> TimeController_update deltaSeconds c = (None, c') \<longrightarrow>
        Number_isFinite deltaSeconds \<and> jsle (Finite 0) deltaSeconds
        \<and> julianDate c' = jsadd (julianDate c)
                             (jsdiv (jsmul deltaSeconds (timeScale c)) (Finite 86400))
        \<and> accumulatedTime c' = jsadd (accumulatedTime c) (jsmul deltaSeconds (Finite 1000)))
   \<and> (\<not> isPaused c \<and> TimeController_update deltaSeconds c = (None, c')
        \<and> julianDate c = Finite j \<and> fl j = j \<and> jslt (julianDate c') (julianDate c)
        \<longrightarrow> jslt (timeScale c) (Finite 0))"
proof (intro conjI impI)
  assume h: "\<not> isPaused c \<and> (jslt deltaSeconds (Finite 0) \<or> \<not> Number_isFinite deltaSeconds)"
  then have "\<not> (Number_isFinite deltaSeconds \<and> jsle (Finite 0) deltaSeconds)"
    by (cases deltaSeconds) auto
  then have "checks [assertFinite deltaSeconds ''Delta seconds'',
                     assertNonNegative deltaSeconds ''Delta seconds''] \<noteq> None"
    by (auto simp: checks_eq_None_iff assertFinite_None_iff assertNonNegative_None_iff)
  then obtain e where "checks [assertFinite deltaSeconds ''Delta seconds'',
                     assertNonNegative deltaSeconds ''Delta seconds''] = Some e"
    by blast
  with h show "\<exists>e. TimeController_update deltaSeconds c = (Some e, c)"
    by (simp add: TimeController_update_def)
next
  assume "isPaused c"
  then show "TimeController_update deltaSeconds c = (None, c)"
    by (simp add: TimeController_update_def)
next
  assume h: "\<not> isPaused c \<and> TimeController_update deltaSeconds c = (None, c')"
  then have r: "Number_isFinite deltaSeconds \<and> jsle (Finite 0) deltaSeconds
     \<and> julianDate c' = jsadd (julianDate c)
                          (jsdiv (jsmul deltaSeconds (timeScale c)) (Finite 86400))
     \<and> accumulatedTime c' = jsadd (accumulatedTime c) (jsmul deltaSeconds (Finite 1000))
     \<and> in_band (julianDate c')"
    using update_normal_return by blast
  from r show "Number_isFinite deltaSeconds" by blast
  from r show "jsle (Finite 0) deltaSeconds" by blast
  from r show "julianDate c' = jsadd (julianDate c)
                          (jsdiv (jsmul deltaSeconds (timeScale c)) (Finite 86400))" by blast
  from r show "accumulatedTime c' = jsadd (accumulatedTime c) (jsmul deltaSeconds (Finite 1000))"
    by blast
next
  assume "\<not> isPaused c \<and> TimeController_update deltaSeconds c = (None, c')
        \<and> julianDate c = Finite j \<and> fl j = j \<and> jslt (julianDate c') (julianDate c)"
  then show "jslt (timeScale c) (Finite 0)"
    using update_moves_with_time_scale by blast
qed

theorem update_rejects_negative_or_nonfinite_witness:
  "(\<exists>e. TimeController_update (Finite (- 1)) controller_at_J2000 = (Some e, controller_at_J2000))
   \<and> (\<exists>e. TimeController_update NaN controller_at_J2000 = (Some e, controller_at_J2000))
   \<and> TimeController_update NegInf (controller_at_J2000\<lparr> isPaused := True \<rparr>)
       = (None, controller_at_J2000\<lparr> isPaused := True \<rparr>)
   \<and> TimeController_update (Finite 86400) (controller_at_J2000\<lparr> timeScale := Finite (- 1) \<rparr>)
       = (None, \<lparr> julianDate = Finite 2451544, timeScale = Finite (- 1), isPaused = False,
                  accumulatedTime = Finite 86400000,
                  notified = [\<lparr> state_julianDate = Finite 2451544,
                                simulationTime = Finite 86400000,
                                calendarDate = UTC 1999 11 31 12 0 0,
                                state_timeScale = Finite (- 1),
                                state_isPaused = False, isReversed = True \<rparr>] \<rparr>)
   \<and> Finite 2451544 = jsadd (Finite 2451545) (jsdiv (jsmul (Finite 86400) (Finite (- 1))) (Finite 86400))
   \<and> fl 2451545 = 2451545 \<and> jslt (Finite 2451544) (Finite 2451545) \<and> jslt (Finite (- 1)) (Finite 0)"
proof -
  let ?c = "controller_at_J2000\<lparr> timeScale := Finite (- 1) \<rparr>"
  let ?c' = "\<lparr> julianDate = Finite 2451544, timeScale = Finite (- 1), isPaused = False,
                  accumulatedTime = Finite 86400000,
                  notified = [\<lparr> state_julianDate = Finite 2451544,
                                simulationTime = Finite 86400000,
                                calendarDate = UTC 1999 11 31 12 0 0,
                                state_timeScale = Finite (- 1),
                                state_isPaused = False, isReversed = True \<rparr>] \<rparr>"
  have run: "TimeController_update (Finite 86400) ?c = (None, ?c')"
    by (simp add: TimeController_update_def controller_at_J2000_def tc_eval fl_eval js_eval
          fl_minus checks_eq_None_iff cong: let_weak_cong)
  have rep: "fl 2451545 = 2451545" by (simp add: fl_numeral)
  have neg: "jslt (Finite (- 1)) (Finite 0)" and nan: "\<not> Number_isFinite NaN" by simp_all
  have np: "\<not> isPaused controller_at_J2000" "\<not> isPaused ?c"
    by (simp_all add: controller_at_J2000_def)
  from update_rejects_negative_or_nonfinite [of controller_at_J2000 "Finite (- 1)" ?c' 0] np neg
  have a: "\<exists>e. TimeController_update (Finite (- 1)) controller_at_J2000 = (Some e, controller_at_J2000)"
    by blast
  from update_rejects_negative_or_nonfinite [of controller_at_J2000 NaN ?c' 0] np nan
  have b: "\<exists>e. TimeController_update NaN controller_at_J2000 = (Some e, controller_at_J2000)"
    by blast
  from update_rejects_negative_or_nonfinite
         [of "controller_at_J2000\<lparr> isPaused := True \<rparr>" NegInf ?c' 0]
  have c: "TimeController_update NegInf (controller_at_J2000\<lparr> isPaused := True \<rparr>)
       = (None, controller_at_J2000\<lparr> isPaused := True \<rparr>)"
    by simp
  from update_rejects_negative_or_nonfinite [of ?c "Finite 86400" ?c' 2451545] np run
  have d: "julianDate ?c' = jsadd (julianDate ?c)
                             (jsdiv (jsmul (Finite 86400) (timeScale ?c)) (Finite 86400))"
    by blast
  then have d': "Finite 2451544
       = jsadd (Finite 2451545) (jsdiv (jsmul (Finite 86400) (Finite (- 1))) (Finite 86400))"
    by (simp add: controller_at_J2000_def J2000_JD_def)
  have lt: "jslt (Finite 2451544) (Finite 2451545)" by simp
  from a b c run d' rep lt neg show ?thesis by (simp only: simp_thms)
qed

text \<open>
  Claim C2, as amended. From a controller that the constructor returned, the Julian day
  count is strictly between 0 and 20000000 after every sequence of public operations
  that all return normally (\<open>update\<close>, \<open>setTimeScale\<close>, \<open>pause\<close>,
  \<open>resume\<close>, \<open>togglePause\<close>, \<open>reverse\<close>, \<open>forward\<close>,
  \<open>setDate\<close>, \<open>setJulianDate\<close>, \<open>addDays\<close>, \<open>jumpToJ2000\<close>,
  \<open>jumpToNow\<close>): an operation never returns normally with a day count outside
  the band. Nothing is clamped: an operation that returns normally leaves exactly the
  day count it computes (the old one plus \<open>deltaSeconds * timeScale / 86400\<close> for
  an \<open>update\<close> that is not paused, the converted date for \<open>setDate\<close> and
  \<open>jumpToNow\<close>, the argument for \<open>setJulianDate\<close>, the sum for
  \<open>addDays\<close>, J2000 for \<open>jumpToJ2000\<close>, the old one otherwise). Every
  operation whose new day count is outside the band throws. \<open>setJulianDate\<close> and
  \<open>addDays\<close> test the new value before they assign it and leave the controller as
  it was, and so does \<open>update\<close> when its step is not finite; \<open>update\<close>,
  \<open>setDate\<close> and \<open>jumpToNow\<close> assign first, and the controller they
  leave when they throw holds the new day count.
\<close>

theorem julian_date_stays_in_band:
  "(TimeController_new now = Inr c0 \<and> run_ops xs c0 = (None, c') \<longrightarrow> in_band (julianDate c'))
   \<and> (run_op x c = (None, c1) \<longrightarrow>
        julianDate c1 =
          (case x of
             Update deltaSeconds \<Rightarrow>
               if isPaused c then julianDate c
               else jsadd (julianDate c) (jsdiv (jsmul deltaSeconds (timeScale c)) (Finite 86400))
           | SetDate date \<Rightarrow> (case dateToJulian date of Inr jd \<Rightarrow> jd | Inl e \<Rightarrow> julianDate c)
           | SetJulianDate jd \<Rightarrow> jd
           | AddDays days \<Rightarrow> jsadd (julianDate c) days
           | JumpToJ2000 \<Rightarrow> J2000_JD
           | JumpToNow now \<Rightarrow> (case dateToJulian now of Inr jd \<Rightarrow> jd | Inl e \<Rightarrow> julianDate c)
           | _ \<Rightarrow> julianDate c))
   \<and> (\<not> isPaused c \<and> Number_isFinite deltaSeconds \<and> jsle (Finite 0) deltaSeconds
        \<and> Number_isFinite (jsdiv (jsmul deltaSeconds (timeScale c)) (Finite 86400))
        \<and> \<not> in_band (jsadd (julianDate c)
                         (jsdiv (jsmul deltaSeconds (timeScale c)) (Finite 86400)))
        \<longrightarrow> (\<exists>e. TimeController_update deltaSeconds c =
                  (Some e, c\<lparr> julianDate := jsadd (julianDate c)
                                  (jsdiv (jsmul deltaSeconds (timeScale c)) (Finite 86400)),
                               accumulatedTime := jsadd (accumulatedTime c)
                                  (jsmul deltaSeconds (Finite 1000)) \<rparr>)))
   \<and> (\<not> isPaused c \<and> Number_isFinite deltaSeconds \<and> jsle (Finite 0) deltaSeconds
        \<and> \<not> Number_isFinite (jsdiv (jsmul deltaSeconds (timeScale c)) (Finite 86400))
        \<longrightarrow> (\<exists>e. TimeController_update deltaSeconds c = (Some e, c)))
   \<and> (dateToJulian date = Inr jd0 \<and> \<not> in_band jd0
        \<longrightarrow> (\<exists>e. setDate date c = (Some e, c\<lparr> julianDate := jd0 \<rparr>))
          \<and> (\<exists>e. jumpToNow date c = (Some e, c\<lparr> julianDate := jd0 \<rparr>)))
   \<and> (\<not> in_band jd \<longrightarrow> (\<exists>e. setJulianDate jd c = (Some e, c)))
   \<and> (\<not> in_band (jsadd (julianDate c) days) \<longrightarrow> (\<exists>e. addDays days c = (Some e, c)))"
proof (intro conjI impI)
  assume "TimeController_new now = Inr c0 \<and> run_ops xs c0 = (None, c')"
  then show "in_band (julianDate c')"
    using TimeController_new_in_band run_ops_in_band by blast
next
  assume "run_op x c = (None, c1)"
  then show "julianDate c1 =
          (case x of
             Update deltaSeconds \<Rightarrow>
               if isPaused c then julianDate c
               else jsadd (julianDate c) (jsdiv (jsmul deltaSeconds (timeScale c)) (Finite 86400))
           | SetDate date \<Rightarrow> (case dateToJulian date of Inr jd \<Rightarrow> jd | Inl e \<Rightarrow> julianDate c)
           | SetJulianDate jd \<Rightarrow> jd
           | AddDays days \<Rightarrow> jsadd (julianDate c) days
           | JumpToJ2000 \<Rightarrow> J2000_JD
           | JumpToNow now \<Rightarrow> (case dateToJulian now of Inr jd \<Rightarrow> jd | Inl e \<Rightarrow> julianDate c)
           | _ \<Rightarrow> julianDate c)"
    by (rule run_op_stores_requested)
next
  assume "\<not> isPaused c \<and> Number_isFinite deltaSeconds \<and> jsle (Finite 0) deltaSeconds
        \<and> Number_isFinite (jsdiv (jsmul deltaSeconds (timeScale c)) (Finite 86400))
        \<and> \<not> in_band (jsadd (julianDate c)
                         (jsdiv (jsmul deltaSeconds (timeScale c)) (Finite 86400)))"
  then show "\<exists>e. TimeController_update deltaSeconds c =
                  (Some e, c\<lparr> julianDate := jsadd (julianDate c)
                                  (jsdiv (jsmul deltaSeconds (timeScale c)) (Finite 86400)),
                               accumulatedTime := jsadd (accumulatedTime c)
                                  (jsmul deltaSeconds (Finite 1000)) \<rparr>)"
    using update_leaving_band_throws by blast
next
  assume "\<not> isPaused c \<and> Number_isFinite deltaSeconds \<and> jsle (Finite 0) deltaSeconds
        \<and> \<not> Number_isFinite (jsdiv (jsmul deltaSeconds (timeScale c)) (Finite 86400))"
  then show "\<exists>e. TimeController_update deltaSeconds c = (Some e, c)"
    using update_nonfinite_step_throws by blast
next
  assume "dateToJulian date = Inr jd0 \<and> \<not> in_band jd0"
  then show "\<exists>e. setDate date c = (Some e, c\<lparr> julianDate := jd0 \<rparr>)"
    using setDate_leaving_band_throws(1) by blast
next
  assume "dateToJulian date = Inr jd0 \<and> \<not> in_band jd0"
  then show "\<exists>e. jumpToNow date c = (Some e, c\<lparr> julianDate := jd0 \<rparr>)"
    using setDate_leaving_band_throws(2) by blast
next
  assume "\<not> in_band jd"
  then have "checks [assertFinite jd ''Julian date for setJulianDate'',
         invariant (jsgt jd MIN_JULIAN_DATE \<and> jslt jd MAX_JULIAN_DATE)
           ''Julian date must be in valid range''] \<noteq> None"
    by (auto simp: checks_eq_None_iff in_band_def invariant_def)
  then show "\<exists>e. setJulianDate jd c = (Some e, c)"
    by (auto simp: setJulianDate_def)
next
  assume "\<not> in_band (jsadd (julianDate c) days)"
  then show "\<exists>e. addDays days c = (Some e, c)"
    by (auto simp: addDays_def Let_def in_band_def invariant_def split: option.splits)
qed

theorem julian_date_stays_in_band_witness:
  "TimeController_new (UTC 2000 0 1 12 0 0) = Inr controller_at_J2000
   \<and> run_ops [AddDays (Finite 1)] controller_at_J2000 = (None, controller_after_one_day)
   \<and> in_band (julianDate controller_after_one_day)
   \<and> run_op (AddDays (Finite 1)) controller_at_J2000 = (None, controller_after_one_day)
   \<and> julianDate controller_after_one_day = jsadd (julianDate controller_at_J2000) (Finite 1)
   \<and> \<not> in_band (jsadd (julianDate controller_near_limit)
                    (jsdiv (jsmul (Finite 86400) (timeScale controller_near_limit)) (Finite 86400)))
   \<and> (\<exists>e. TimeController_update (Finite 86400) controller_near_limit
             = (Some e, controller_past_limit))
   \<and> \<not> Number_isFinite (jsdiv (jsmul (Finite 86400)
                            (timeScale (controller_at_J2000\<lparr> timeScale := PosInf \<rparr>))) (Finite 86400))
   \<and> (\<exists>e. TimeController_update (Finite 86400) (controller_at_J2000\<lparr> timeScale := PosInf \<rparr>)
             = (Some e, controller_at_J2000\<lparr> timeScale := PosInf \<rparr>))
   \<and> dateToJulian (UTC (- 5000) 0 1 0 0 0) = Inr (Finite (- 105152.5))
   \<and> \<not> in_band (Finite (- 105152.5))
   \<and> (\<exists>e. setDate (UTC (- 5000) 0 1 0 0 0) controller_at_J2000
             = (Some e, controller_at_J2000\<lparr> julianDate := Finite (- 105152.5) \<rparr>))
   \<and> (\<exists>e. jumpToNow (UTC (- 5000) 0 1 0 0 0) controller_at_J2000
             = (Some e, controller_at_J2000\<lparr> julianDate := Finite (- 105152.5) \<rparr>))
   \<and> \<not> in_band (Finite 0)
   \<and> (\<exists>e. setJulianDate (Finite 0) controller_at_J2000 = (Some e, controller_at_J2000))
   \<and> \<not> in_band (jsadd (julianDate controller_at_J2000) (Finite 20000000))
   \<and> (\<exists>e. addDays (Finite 20000000) controller_at_J2000 = (Some e, controller_at_J2000))"
proof -
  note inst = julian_date_stays_in_band
         [of "UTC 2000 0 1 12 0 0" controller_at_J2000 "[AddDays (Finite 1)]"
             controller_after_one_day "AddDays (Finite 1)" controller_at_J2000
             controller_after_one_day "Finite 86400" "UTC (- 5000) 0 1 0 0 0"
             "Finite (- 105152.5)" "Finite 0" "Finite 20000000"]
  have new: "TimeController_new (UTC 2000 0 1 12 0 0) = Inr controller_at_J2000"
    by (simp add: TimeController_new_def controller_at_J2000_def tc_eval fl_eval js_eval
          cong: let_weak_cong)
  have run1: "run_op (AddDays (Finite 1)) controller_at_J2000 = (None, controller_after_one_day)"
    by (simp add: addDays_def controller_at_J2000_def controller_after_one_day_def
          tc_eval fl_eval js_eval cong: let_weak_cong)
  then have run: "run_ops [AddDays (Finite 1)] controller_at_J2000 = (None, controller_after_one_day)"
    by simp
  from inst new run have a: "in_band (julianDate controller_after_one_day)" by blast
  from inst run1 have b: "julianDate controller_after_one_day
                           = jsadd (julianDate controller_at_J2000) (Finite 1)" by simp
  have out1: "\<not> in_band (Finite 0)"
    by (simp add: in_band_def tc_eval js_eval)
  have out2: "\<not> in_band (jsadd (julianDate controller_at_J2000) (Finite 20000000))"
    by (simp add: in_band_def controller_at_J2000_def tc_eval fl_eval js_eval)
  from inst out1 have c: "\<exists>e. setJulianDate (Finite 0) controller_at_J2000 = (Some e, controller_at_J2000)"
    by blast
  from inst out2 have d: "\<exists>e. addDays (Finite 20000000) controller_at_J2000 = (Some e, controller_at_J2000)"
    by blast
  have dj: "dateToJulian (UTC (- 5000) 0 1 0 0 0) = Inr (Finite (- 105152.5))"
    by (simp add: tc_eval fl_eval js_eval fl_minus cong: let_weak_cong)
  have out3: "\<not> in_band (Finite (- 105152.5))"
    by (simp add: in_band_def tc_eval js_eval)
  from inst dj out3 have e: "(\<exists>e. setDate (UTC (- 5000) 0 1 0 0 0) controller_at_J2000
             = (Some e, controller_at_J2000\<lparr> julianDate := Finite (- 105152.5) \<rparr>))
   \<and> (\<exists>e. jumpToNow (UTC (- 5000) 0 1 0 0 0) controller_at_J2000
             = (Some e, controller_at_J2000\<lparr> julianDate := Finite (- 105152.5) \<rparr>))"
    by blast
  note inst2 = julian_date_stays_in_band
         [of "UTC 2000 0 1 12 0 0" controller_at_J2000 "[AddDays (Finite 1)]"
             controller_after_one_day "AddDays (Finite 1)" controller_near_limit
             controller_after_one_day "Finite 86400" "UTC (- 5000) 0 1 0 0 0"
             "Finite (- 105152.5)" "Finite 0" "Finite 20000000"]
  have h1: "\<not> isPaused controller_near_limit \<and> Number_isFinite (Finite 86400)
        \<and> jsle (Finite 0) (Finite 86400)
        \<and> Number_isFinite (jsdiv (jsmul (Finite 86400) (timeScale controller_near_limit)) (Finite 86400))
        \<and> \<not> in_band (jsadd (julianDate controller_near_limit)
                         (jsdiv (jsmul (Finite 86400) (timeScale controller_near_limit)) (Finite 86400)))"
    by (simp add: controller_near_limit_def in_band_def tc_eval fl_eval js_eval)
  have past: "controller_near_limit\<lparr> julianDate := jsadd (julianDate controller_near_limit)
                  (jsdiv (jsmul (Finite 86400) (timeScale controller_near_limit)) (Finite 86400)),
                accumulatedTime := jsadd (accumulatedTime controller_near_limit)
                  (jsmul (Finite 86400) (Finite 1000)) \<rparr> = controller_past_limit"
    by (simp add: controller_near_limit_def controller_past_limit_def fl_eval js_eval)
  from inst2 h1 have f: "\<exists>e. TimeController_update (Finite 86400) controller_near_limit
             = (Some e, controller_past_limit)"
    unfolding past by blast
  note inst3 = julian_date_stays_in_band
         [of "UTC 2000 0 1 12 0 0" controller_at_J2000 "[AddDays (Finite 1)]"
             controller_after_one_day "AddDays (Finite 1)"
             "controller_at_J2000\<lparr> timeScale := PosInf \<rparr>"
             controller_after_one_day "Finite 86400" "UTC (- 5000) 0 1 0 0 0"
             "Finite (- 105152.5)" "Finite 0" "Finite 20000000"]
  have h2: "\<not> isPaused (controller_at_J2000\<lparr> timeScale := PosInf \<rparr>)
        \<and> Number_isFinite (Finite 86400) \<and> jsle (Finite 0) (Finite 86400)
        \<and> \<not> Number_isFinite (jsdiv (jsmul (Finite 86400)
                            (timeScale (controller_at_J2000\<lparr> timeScale := PosInf \<rparr>))) (Finite 86400))"
    by (simp add: controller_at_J2000_def signed_inf_def)
  from inst3 h2 have g: "\<exists>e. TimeController_update (Finite 86400) (controller_at_J2000\<lparr> timeScale := PosInf \<rparr>)
             = (Some e, controller_at_J2000\<lparr> timeScale := PosInf \<rparr>)"
    by blast
  from new run a run1 b h1 f h2 g dj out3 e out1 c out2 d show ?thesis by (simp only: simp_thms)
qed

text \<open>
  Claim C2 as stated fails where it says that an operation leaving the band throws
  rather than storing the value. With the day count at 19999999.5 and a time scale of
  1, \<open>update(86400)\<close> adds one day, assigns 20000000.5 and only then fails its
  range check: it throws, and the controller keeps the day count 20000000.5. A
  following \<open>pause()\<close> sets the paused flag and throws from its notification, after
  which \<open>update(1)\<close> returns normally, the day count still outside the band.
\<close>

theorem update_stores_out_of_band_counterexample:
  "in_band (julianDate controller_near_limit)
   \<and> TimeController_update (Finite 86400) controller_near_limit
       = (Some (InvariantError ''Julian date must remain in valid range after update''),
          controller_past_limit)
   \<and> \<not> in_band (julianDate controller_past_limit)
   \<and> pause controller_past_limit
       = (Some (InvariantError ''Julian date must be in valid range for conversion''),
          controller_past_limit\<lparr> isPaused := True \<rparr>)
   \<and> TimeController_update (Finite 1) (controller_past_limit\<lparr> isPaused := True \<rparr>)
       = (None, controller_past_limit\<lparr> isPaused := True \<rparr>)"
  by (simp add: controller_near_limit_def controller_past_limit_def in_band_def
        TimeController_update_def pause_def tc_eval fl_eval js_eval cong: let_weak_cong)

text \<open>
  Claim C5 fails on the code at 1 January 2000, 01:00:00 UTC. \<open>dateToJulian\<close>
  gives the double nearest to 2451544.5 + 1/24, which lies below it; \<open>julianToDate\<close>
  multiplies the fraction of the day back and takes floors, and returns 00:59:59 of
  the same day.
\<close>

theorem roundtrip_loses_a_second:
  "dateToJulian (UTC 2000 0 1 1 0 0) = Inr jd_2000_01_01_0100
   \<and> julianToDate jd_2000_01_01_0100 = Inr (UTC 2000 0 1 0 59 59)"
  by (simp add: jd_2000_01_01_0100_def tc_eval fl_eval js_eval cong: let_weak_cong)

section \<open>Properties of the Kepler solver\<close>

lemmas om_eval = KEPLER_TOLERANCE_def MAX_KEPLER_ITERATIONS_def MAX_SEMI_MAJOR_AXIS_def
  MIN_SEMI_MAJOR_AXIS_def DEG_TO_RAD_def Math_PI_def Number_EPSILON_def newton_denominator_def
  newton_dE_def solveKeplerEquation_def trueAnomalyFromEccentric_def
  calculateHeliocentricDistance_def mean_motion_def current_mean_anomaly_def to_ecliptic_def
  calculatePosition_def assertPositive_def

lemma kepler_loop_numeral:
  "kepler_loop (numeral n) M e tolerance E =
     (case invariant (jsgt (Math_abs (newton_denominator e E)) Number_EPSILON)
             ''Kepler equation denominator must not be zero'' of
        Some err \<Rightarrow> Inl err
      | None \<Rightarrow>
         (case checks [assertFinite (newton_dE M e E) ''Kepler iteration step'',
                       assertFinite (jssub E (newton_dE M e E))
                         ''Eccentric anomaly after iteration''] of
            Some err \<Rightarrow> Inl err
          | None \<Rightarrow>
             (if jslt (Math_abs (newton_dE M e E)) tolerance
              then Inr (jssub E (newton_dE M e E), True)
              else kepler_loop (pred_numeral n) M e tolerance (jssub E (newton_dE M e E)))))"
  by (simp only: numeral_eq_Suc kepler_loop.simps)

lemma fl_abs_le_MAX: "\<bar>x\<bar> \<le> MAX_VALUE \<Longrightarrow> \<bar>fl x\<bar> \<le> MAX_VALUE"
proof -
  assume a: "\<bar>x\<bar> \<le> MAX_VALUE"
  have "fl x \<le> fl MAX_VALUE" using a by (intro fl_mono) simp
  moreover have "fl (- MAX_VALUE) \<le> fl x" using a by (intro fl_mono) simp
  ultimately show ?thesis by (simp add: fl_MAX_VALUE fl_minus abs_le_iff)
qed

lemma MAX_VALUE_ge_1: "1 \<le> MAX_VALUE"
  by (simp add: MAX_VALUE_def)

lemma round_double_0 [simp]: "round_double 0 = Finite 0"
  by (simp add: round_double_small)

lemma round_double_1 [simp]: "round_double 1 = Finite 1"
  by (simp add: round_double_small)

lemma round_double_fl: "\<bar>x\<bar> \<le> MAX_VALUE \<Longrightarrow> round_double (fl x) = Finite (fl x)"
  using round_double_Finite[of "fl x"] fl_abs_le_MAX[of x] by simp

lemma round_double_cos [simp]: "round_double (cos x) = Finite (fl (cos x))"
proof -
  have "\<bar>cos x\<bar> \<le> MAX_VALUE" using abs_cos_le_one[of x] MAX_VALUE_ge_1 by linarith
  then show ?thesis by (simp add: round_double_Finite)
qed

lemma round_double_sin [simp]: "round_double (sin x) = Finite (fl (sin x))"
proof -
  have "\<bar>sin x\<bar> \<le> MAX_VALUE" using abs_sin_le_one[of x] MAX_VALUE_ge_1 by linarith
  then show ?thesis by (simp add: round_double_Finite)
qed

lemma DEG_TO_RAD_value: "DEG_TO_RAD = Finite (5030569068109113 / 2 ^ 58)"
  by (simp add: DEG_TO_RAD_def Math_PI_def fl_eval js_eval)

lemma KEPLER_TOLERANCE_value: "KEPLER_TOLERANCE = Finite (7737125245533627 / 2 ^ 86)"
  by (simp add: KEPLER_TOLERANCE_def fl_eval js_eval)

lemma to_radians_Finite:
  assumes "\<bar>m\<bar> \<le> MAX_VALUE"
  shows "jsmul (Finite m) DEG_TO_RAD = Finite (fl (m * (5030569068109113 / 2 ^ 58)))"
    and "\<bar>fl (m * (5030569068109113 / 2 ^ 58))\<bar> \<le> MAX_VALUE"
proof -
  have "\<bar>m * (5030569068109113 / 2 ^ 58)\<bar> \<le> \<bar>m\<bar> * 1"
    unfolding abs_mult by (intro mult_left_mono) simp_all
  then have b: "\<bar>m * (5030569068109113 / 2 ^ 58)\<bar> \<le> MAX_VALUE" using assms by simp
  then show "jsmul (Finite m) DEG_TO_RAD = Finite (fl (m * (5030569068109113 / 2 ^ 58)))"
    by (simp add: DEG_TO_RAD_value round_double_Finite)
  from b show "\<bar>fl (m * (5030569068109113 / 2 ^ 58))\<bar> \<le> MAX_VALUE" by (rule fl_abs_le_MAX)
qed

text \<open>With eccentricity zero the first pass leaves \<open>E\<close> as it is and converges.\<close>

lemma solve_circular:
  assumes "\<bar>m\<bar> \<le> MAX_VALUE"
  shows "solveKeplerEquation (Finite m) (Finite 0) KEPLER_TOLERANCE MAX_KEPLER_ITERATIONS
           = Inr (jsmul (Finite m) DEG_TO_RAD)"
proof -
  define r where "r = fl (m * (5030569068109113 / 2 ^ 58))"
  have M: "jsmul (Finite m) DEG_TO_RAD = Finite r" and rb: "\<bar>r\<bar> \<le> MAX_VALUE"
    using to_radians_Finite[OF assms] by (simp_all add: r_def)
  have rr: "round_double r = Finite r"
    unfolding r_def using assms to_radians_Finite(2)[OF assms] round_double_Finite fl_idem by metis
  have den: "newton_denominator (Finite 0) (Finite r) = Finite 1"
    by (simp add: newton_denominator_def jssub_def)
  have dE: "newton_dE (Finite r) (Finite 0) (Finite r) = Finite 0"
    by (simp add: newton_dE_def den jssub_def rr)
  have loop: "kepler_loop (iterations MAX_KEPLER_ITERATIONS) (Finite r) (Finite 0)
                KEPLER_TOLERANCE (Finite r) = Inr (Finite r, True)"
    by (simp add: MAX_KEPLER_ITERATIONS_def kepler_loop_numeral den dE jssub_def rr
          KEPLER_TOLERANCE_value Number_EPSILON_def invariant_def assertFinite_def jsgt_def)
  have start: "\<not> jsgt (Finite 0) (lit (4 / 5))"
    by (simp add: fl_eval js_eval)
  have pre: "checks
        [assertFinite (Finite m) ''Mean anomaly for Kepler equation'',
         assertFinite (Finite 0) ''Eccentricity for Kepler equation'',
         assertBounds (Finite 0) (Finite 0) (jssub (Finite 1) Number_EPSILON) ''Eccentricity'',
         assertPositive KEPLER_TOLERANCE ''Kepler tolerance'',
         assertPositive MAX_KEPLER_ITERATIONS ''Max Kepler iterations''] = None"
    by (simp add: assertFinite_def assertBounds_def assertPositive_def invariant_def
          KEPLER_TOLERANCE_value MAX_KEPLER_ITERATIONS_def Number_EPSILON_def fl_eval js_eval)
  show ?thesis
    unfolding solveKeplerEquation_def pre
    by (simp add: M start loop assertFinite_def invariant_def Let_def)
qed


lemma kepler_loop_converged:
  "kepler_loop n M e tol E = Inr (E', True) \<Longrightarrow>
     \<exists>k<n. E' = newton_iterate M e E (Suc k)
        \<and> jslt (Math_abs (newton_dE M e (newton_iterate M e E k))) tol
        \<and> (\<forall>j\<le>k. jsgt (Math_abs (newton_denominator e (newton_iterate M e E j))) Number_EPSILON)
        \<and> (\<forall>j<k. \<not> jslt (Math_abs (newton_dE M e (newton_iterate M e E j))) tol)"
proof (induction n arbitrary: E)
  case 0
  then show ?case by simp
next
  case (Suc n)
  let ?E1 = "jssub E (newton_dE M e E)"
  from Suc.prems have den: "jsgt (Math_abs (newton_denominator e E)) Number_EPSILON"
    by (auto simp: invariant_def split: option.splits if_splits)
  show ?case
  proof (cases "jslt (Math_abs (newton_dE M e E)) tol")
    case True
    with Suc.prems have "E' = ?E1"
      by (auto simp: invariant_def split: option.splits if_splits)
    with True den have
      "E' = newton_iterate M e E (Suc 0)
        \<and> jslt (Math_abs (newton_dE M e (newton_iterate M e E 0))) tol
        \<and> (\<forall>j\<le>0. jsgt (Math_abs (newton_denominator e (newton_iterate M e E j))) Number_EPSILON)
        \<and> (\<forall>j<0. \<not> jslt (Math_abs (newton_dE M e (newton_iterate M e E j))) tol)"
      by simp
    then show ?thesis by blast
  next
    case False
    with Suc.prems have "kepler_loop n M e tol ?E1 = Inr (E', True)"
      by (auto simp: invariant_def split: option.splits if_splits)
    from Suc.IH[OF this] obtain k where k: "k < n"
      "E' = newton_iterate M e ?E1 (Suc k)"
      "jslt (Math_abs (newton_dE M e (newton_iterate M e ?E1 k))) tol"
      "\<forall>j\<le>k. jsgt (Math_abs (newton_denominator e (newton_iterate M e ?E1 j))) Number_EPSILON"
      "\<forall>j<k. \<not> jslt (Math_abs (newton_dE M e (newton_iterate M e ?E1 j))) tol"
      by blast
    have a: "\<forall>j\<le>Suc k. jsgt (Math_abs (newton_denominator e (newton_iterate M e E j))) Number_EPSILON"
    proof (intro allI impI)
      fix j assume "j \<le> Suc k"
      then show "jsgt (Math_abs (newton_denominator e (newton_iterate M e E j))) Number_EPSILON"
        using den k(4) by (cases j) auto
    qed
    have b: "\<forall>j<Suc k. \<not> jslt (Math_abs (newton_dE M e (newton_iterate M e E j))) tol"
    proof (intro allI impI)
      fix j assume "j < Suc k"
      then show "\<not> jslt (Math_abs (newton_dE M e (newton_iterate M e E j))) tol"
        using False k(5) by (cases j) auto
    qed
    have "Suc k < Suc n" using k(1) by simp
    moreover have "E' = newton_iterate M e E (Suc (Suc k))" using k(2) by simp
    moreover have "jslt (Math_abs (newton_dE M e (newton_iterate M e E (Suc k)))) tol"
      using k(3) by simp
    ultimately show ?thesis using a b by blast
  qed
qed

lemma zero_to_radians: "jsmul (Finite 0) DEG_TO_RAD = Finite 0"
  by (simp add: DEG_TO_RAD_value)

lemma MAX_VALUE_ge_720: "\<bar>720\<bar> \<le> MAX_VALUE"
  by (simp add: MAX_VALUE_def)

text \<open>
  Claim C4. \<open>solveKeplerEquation\<close> never returns an unconverged result. Whenever
  it returns a value \<open>E\<close>, there is a pass \<open>k\<close> below the iteration cap such that
  \<open>E\<close> is the value after pass \<open>k\<close>, the step \<open>dE\<close> of pass \<open>k\<close> is smaller
  in magnitude than the tolerance, no earlier pass had such a step, and in every pass
  up to \<open>k\<close> the magnitude of the denominator \<open>1 - e cos E\<close> exceeded
  \<open>Number.EPSILON\<close> before the division. Every other run ends in a throw: the
  result type has no third outcome, so a cap exhausted without convergence and a
  denominator that fails its guard both throw.
\<close>

theorem solver_returns_only_converged:
  "solveKeplerEquation meanAnomaly_deg e tol maxIterations = Inr E \<longrightarrow>
     (\<exists>k < iterations maxIterations.
        E = newton_iterate (jsmul meanAnomaly_deg DEG_TO_RAD) e
              (if jsgt e (lit 0.8) then Math_PI else jsmul meanAnomaly_deg DEG_TO_RAD) (Suc k)
      \<and> jslt (Math_abs (newton_dE (jsmul meanAnomaly_deg DEG_TO_RAD) e
                (newton_iterate (jsmul meanAnomaly_deg DEG_TO_RAD) e
                   (if jsgt e (lit 0.8) then Math_PI else jsmul meanAnomaly_deg DEG_TO_RAD) k))) tol
      \<and> (\<forall>j\<le>k. jsgt (Math_abs (newton_denominator e
                (newton_iterate (jsmul meanAnomaly_deg DEG_TO_RAD) e
                   (if jsgt e (lit 0.8) then Math_PI else jsmul meanAnomaly_deg DEG_TO_RAD) j)))
              Number_EPSILON)
      \<and> (\<forall>j<k. \<not> jslt (Math_abs (newton_dE (jsmul meanAnomaly_deg DEG_TO_RAD) e
                (newton_iterate (jsmul meanAnomaly_deg DEG_TO_RAD) e
                   (if jsgt e (lit 0.8) then Math_PI else jsmul meanAnomaly_deg DEG_TO_RAD) j))) tol))"
proof
  assume r: "solveKeplerEquation meanAnomaly_deg e tol maxIterations = Inr E"
  let ?M = "jsmul meanAnomaly_deg DEG_TO_RAD"
  let ?E0 = "if jsgt e (lit 0.8) then Math_PI else ?M"
  from r obtain c where loop: "kepler_loop (iterations maxIterations) ?M e tol ?E0 = Inr (E, c)"
    and chk: "checks [invariant c ''Kepler equation must converge'',
                      assertFinite E ''Final eccentric anomaly''] = None"
    by (auto simp: solveKeplerEquation_def Let_def split: option.splits sum.splits prod.splits)
  from chk have "c" by (auto simp: checks_eq_None_iff invariant_def split: if_splits)
  with loop have "kepler_loop (iterations maxIterations) ?M e tol ?E0 = Inr (E, True)" by simp
  from kepler_loop_converged[OF this] show "\<exists>k < iterations maxIterations.
        E = newton_iterate ?M e ?E0 (Suc k)
      \<and> jslt (Math_abs (newton_dE ?M e (newton_iterate ?M e ?E0 k))) tol
      \<and> (\<forall>j\<le>k. jsgt (Math_abs (newton_denominator e (newton_iterate ?M e ?E0 j))) Number_EPSILON)
      \<and> (\<forall>j<k. \<not> jslt (Math_abs (newton_dE ?M e (newton_iterate ?M e ?E0 j))) tol)" .
qed

theorem solver_returns_only_converged_witness:
  "solveKeplerEquation (Finite 0) (Finite 0) KEPLER_TOLERANCE MAX_KEPLER_ITERATIONS = Inr (Finite 0)
   \<and> (\<exists>k < iterations MAX_KEPLER_ITERATIONS.
        Finite 0 = newton_iterate (Finite 0) (Finite 0) (Finite 0) (Suc k)
      \<and> jslt (Math_abs (newton_dE (Finite 0) (Finite 0)
                (newton_iterate (Finite 0) (Finite 0) (Finite 0) k))) KEPLER_TOLERANCE)"
proof -
  have s: "solveKeplerEquation (Finite 0) (Finite 0) KEPLER_TOLERANCE MAX_KEPLER_ITERATIONS
             = Inr (Finite 0)"
    using solve_circular[of 0] by (simp add: zero_to_radians MAX_VALUE_def)
  have start: "\<not> jsgt (Finite 0) (lit (4 / 5))"
    by (simp add: fl_eval js_eval)
  from solver_returns_only_converged
         [of "Finite 0" "Finite 0" KEPLER_TOLERANCE MAX_KEPLER_ITERATIONS "Finite 0"] s start
  show ?thesis by (auto simp: zero_to_radians)
qed

text \<open>
  Claim C9. For every finite mean anomaly \<open>M\<close> in degrees,
  \<open>solveKeplerEquation(M, 0)\<close> returns exactly the double that the source's
  expression \<open>M * (Math.PI / 180)\<close> evaluates to: with eccentricity zero the first
  pass computes the step \<open>dE = 0\<close> and the solver returns the mean anomaly in
  radians unchanged.
\<close>

theorem circular_orbit_anomaly_exact:
  "\<bar>m\<bar> \<le> MAX_VALUE \<Longrightarrow>
     solveKeplerEquation (Finite m) (Finite 0) KEPLER_TOLERANCE MAX_KEPLER_ITERATIONS
       = Inr (jsmul (Finite m) DEG_TO_RAD)"
  by (rule solve_circular)

theorem circular_orbit_anomaly_exact_witness:
  "\<bar>45\<bar> \<le> MAX_VALUE
   \<and> jsmul (Finite 45) DEG_TO_RAD = Finite (884279719003555 / 2 ^ 50)
   \<and> solveKeplerEquation (Finite 45) (Finite 0) KEPLER_TOLERANCE MAX_KEPLER_ITERATIONS
       = Inr (Finite (884279719003555 / 2 ^ 50))"
proof -
  have b: "\<bar>45\<bar> \<le> MAX_VALUE" by (simp add: MAX_VALUE_def)
  have v: "jsmul (Finite 45) DEG_TO_RAD = Finite (884279719003555 / 2 ^ 50)"
    by (simp add: DEG_TO_RAD_value fl_eval js_eval)
  from circular_orbit_anomaly_exact[OF b] b v show ?thesis by simp
qed

lemma remainder_360_bounds:
  "- 360 < a - 360 * real_of_int (trunc (a / 360)) \<and> a - 360 * real_of_int (trunc (a / 360)) < 360"
proof (cases "0 \<le> a")
  case True
  define q where "q = a / 360"
  have a: "a = 360 * q" by (simp add: q_def)
  have "real_of_int \<lfloor>q\<rfloor> \<le> q" "q < real_of_int \<lfloor>q\<rfloor> + 1" by linarith+
  then show ?thesis using True unfolding trunc_def a by (simp add: q_def[symmetric]) linarith
next
  case False
  define q where "q = - a / 360"
  have a: "a = - 360 * q" by (simp add: q_def)
  have q0: "\<not> 0 \<le> - q" using False by (simp add: q_def)
  have "real_of_int \<lfloor>q\<rfloor> \<le> q" "q < real_of_int \<lfloor>q\<rfloor> + 1" by linarith+
  then show ?thesis using q0 unfolding trunc_def a by simp linarith
qed

lemma fl_360: "fl 360 = 360"
  by (simp add: fl_numeral)

lemma current_mean_anomaly_range:
  assumes "Number_isFinite (current_mean_anomaly M0 n d)"
  shows "jsle (Finite 0) (current_mean_anomaly M0 n d)
         \<and> jsle (current_mean_anomaly M0 n d) (Finite 360)"
proof (cases "jsadd M0 (jsmul n d)")
  case (Finite a)
  define r where "r = a - 360 * real_of_int (trunc (a / 360))"
  have rb: "- 360 < r" "r < 360" using remainder_360_bounds[of a] by (simp_all add: r_def)
  have m: "jsmod (jsadd M0 (jsmul n d)) (Finite 360) = Finite r" by (simp add: Finite r_def)
  show ?thesis
  proof (cases "r < 0")
    case True
    have "\<bar>r + 360\<bar> \<le> 2 ^ 64" using rb True by simp
    then have rd: "round_double (r + 360) = Finite (fl (r + 360))" by (rule round_double_small)
    have "0 \<le> fl (r + 360)" using rb by (intro fl_nonneg) simp
    moreover have "fl (r + 360) \<le> fl 360" using True by (intro fl_mono) simp
    ultimately show ?thesis using True by (simp add: current_mean_anomaly_def m rd fl_360)
  next
    case False
    then show ?thesis using rb by (simp add: current_mean_anomaly_def m)
  qed
next
  case PosInf
  then show ?thesis using assms by (simp add: current_mean_anomaly_def)
next
  case NegInf
  then show ?thesis using assms by (simp add: current_mean_anomaly_def)
next
  case NaN
  then show ?thesis using assms by (simp add: current_mean_anomaly_def)
qed

lemma calculatePosition_solves:
  assumes "calculatePosition elements jd = Inr p"
  shows "\<exists>E. solveKeplerEquation
              (current_mean_anomaly (meanAnomaly elements) (mean_motion elements)
                 (jssub jd (case epoch elements of None \<Rightarrow> J2000_JD | Some t \<Rightarrow> t)))
              (eccentricity elements) KEPLER_TOLERANCE MAX_KEPLER_ITERATIONS = Inr E"
proof (rule ccontr)
  assume "\<not> ?thesis"
  then obtain err where "solveKeplerEquation
              (current_mean_anomaly (meanAnomaly elements) (mean_motion elements)
                 (jssub jd (case epoch elements of None \<Rightarrow> J2000_JD | Some t \<Rightarrow> t)))
              (eccentricity elements) KEPLER_TOLERANCE MAX_KEPLER_ITERATIONS = Inl err"
    by (metis sum.exhaust)
  then have "\<exists>e. calculatePosition elements jd = Inl e"
    by (simp add: calculatePosition_def Let_def split: option.splits)
  with assms show False by auto
qed

lemma calculatePosition_circular:
  "calculatePosition circular_orbit J2000_JD
     = Inr \<lparr> pos_x = Finite 1, pos_y = Finite 0, pos_z = Finite 0 \<rparr>"
  by (simp add: circular_orbit_def om_eval tc_eval fl_eval js_eval kepler_loop_numeral
        cong: let_weak_cong)

lemma current_mean_anomaly_reduces:
  assumes "jsadd M0 (jsmul n d) = Finite a"
  shows "(0 \<le> a \<longrightarrow> current_mean_anomaly M0 n d = Finite (a - 360 * of_int \<lfloor>a / 360\<rfloor>))
       \<and> (a < 0 \<longrightarrow> current_mean_anomaly M0 n d = Finite (fl (a - 360 * of_int \<lfloor>a / 360\<rfloor>)))"
proof (intro conjI impI)
  assume a0: "0 \<le> a"
  define q where "q = \<lfloor>a / 360\<rfloor>"
  have "of_int q \<le> a / 360" unfolding q_def by linarith
  then have "0 \<le> a - 360 * of_int q" by (simp add: field_simps)
  then show "current_mean_anomaly M0 n d = Finite (a - 360 * of_int \<lfloor>a / 360\<rfloor>)"
    using a0 by (simp add: current_mean_anomaly_def assms trunc_def q_def)
next
  assume a0: "a < 0"
  define x where "x = a / 360"
  define r where "r = a - 360 * real_of_int (trunc (a / 360))"
  have t0: "trunc (a / 360) = \<lceil>a / 360\<rceil>" using a0 by (simp add: trunc_def ceiling_def)
  have tx: "trunc x = \<lceil>x\<rceil>" unfolding x_def by (rule t0)
  have "r = 360 * x - 360 * real_of_int (trunc x)" by (simp add: r_def x_def)
  then have r: "r = 360 * (x - of_int \<lceil>x\<rceil>)" unfolding tx by (simp add: algebra_simps)
  have m: "jsmod (jsadd M0 (jsmul n d)) (Finite 360) = Finite r" by (simp add: assms r_def)
  have "a - 360 * of_int \<lfloor>a / 360\<rfloor> = 360 * x - 360 * of_int \<lfloor>x\<rfloor>"
    by (simp add: x_def)
  then have goal: "a - 360 * of_int \<lfloor>a / 360\<rfloor> = 360 * (x - of_int \<lfloor>x\<rfloor>)"
    by (simp add: algebra_simps)
  show "current_mean_anomaly M0 n d = Finite (fl (a - 360 * of_int \<lfloor>a / 360\<rfloor>))"
  proof (cases "x = of_int \<lfloor>x\<rfloor>")
    case True
    then have "\<lceil>x\<rceil> = \<lfloor>x\<rfloor>" by (simp add: ceiling_altdef)
    then have r0: "r = 0" and g0: "360 * (x - of_int \<lfloor>x\<rfloor>) = 0" using True unfolding r by simp_all
    show ?thesis unfolding goal g0 by (simp add: current_mean_anomaly_def m r0)
  next
    case False
    then have c: "\<lceil>x\<rceil> = \<lfloor>x\<rfloor> + 1" by (simp add: ceiling_altdef)
    define f where "f = real_of_int \<lfloor>x\<rfloor>"
    have fb: "f \<le> x" "x < f + 1" unfolding f_def by linarith+
    have ne: "x \<noteq> f" using False by (simp add: f_def)
    have rv: "r = 360 * (x - (f + 1))" unfolding r c f_def by simp
    have flt: "f < x" using fb(1) ne by (simp add: less_le)
    have rneg: "r < 0" unfolding rv using fb(2) by simp
    have rlo: "- 360 < r" unfolding rv using flt by simp
    have e: "r + 360 = 360 * (x - of_int \<lfloor>x\<rfloor>)" unfolding r c by simp
    have "\<bar>r + 360\<bar> \<le> 2 ^ 64" using rneg rlo by simp
    then have rd: "round_double (r + 360) = Finite (fl (r + 360))" by (rule round_double_small)
    show ?thesis unfolding goal e[symmetric] using rneg by (simp add: current_mean_anomaly_def m rd)
  qed
qed

lemma calculatePosition_pipeline:
  assumes "calculatePosition elements jd = Inr p"
  shows "\<exists>E nu r.
      solveKeplerEquation
        (current_mean_anomaly (meanAnomaly elements) (mean_motion elements)
           (jssub jd (case epoch elements of None \<Rightarrow> J2000_JD | Some t \<Rightarrow> t)))
        (eccentricity elements) KEPLER_TOLERANCE MAX_KEPLER_ITERATIONS = Inr E
    \<and> trueAnomalyFromEccentric E (eccentricity elements) = Inr nu
    \<and> calculateHeliocentricDistance (semiMajorAxis elements) (eccentricity elements) nu = Inr r
    \<and> p = to_ecliptic (jsmul (inclination elements) DEG_TO_RAD)
                       (jsmul (longitudeOfAscendingNode elements) DEG_TO_RAD)
                       (jsmul (argumentOfPerihelion elements) DEG_TO_RAD)
                       (jsmul r (Math_cos nu)) (jsmul r (Math_sin nu))"
  using assms unfolding calculatePosition_def Let_def
  by (auto split: option.splits sum.splits)

text \<open>
  Claim C6, as amended. \<open>calculatePosition\<close> reduces \<open>M = M0 + n * deltaDays\<close>
  modulo 360 into the closed range from 0 to 360 degrees before it invokes the solver:
  for a non-negative \<open>M\<close> the value is \<open>M - 360 * floor(M / 360)\<close> exactly, for a
  negative \<open>M\<close> it is that number rounded to a double (which is 360 itself when
  \<open>M\<close> is a tiny negative number). The solver is invoked on exactly that value, and
  the position returned is computed from the eccentric anomaly it returns.
  \<open>solveKeplerEquation\<close> itself does not normalise: the value it returns is an
  iterate of the Newton step started from the mean anomaly it is given, converted to
  radians as it is, and for eccentricity 0 it returns that mean anomaly in radians
  unreduced, whatever its size.
\<close>

theorem mean_anomaly_normalized_before_solving:
  "(Number_isFinite (current_mean_anomaly M0 n d) \<longrightarrow>
      jsle (Finite 0) (current_mean_anomaly M0 n d)
      \<and> jsle (current_mean_anomaly M0 n d) (Finite 360))
   \<and> (jsadd M0 (jsmul n d) = Finite a \<longrightarrow>
        (0 \<le> a \<longrightarrow> current_mean_anomaly M0 n d = Finite (a - 360 * of_int \<lfloor>a / 360\<rfloor>))
      \<and> (a < 0 \<longrightarrow> current_mean_anomaly M0 n d = Finite (fl (a - 360 * of_int \<lfloor>a / 360\<rfloor>))))
   \<and> (calculatePosition elements jd = Inr p \<longrightarrow>
        (\<exists>E nu r.
            solveKeplerEquation
              (current_mean_anomaly (meanAnomaly elements) (mean_motion elements)
                 (jssub jd (case epoch elements of None \<Rightarrow> J2000_JD | Some t \<Rightarrow> t)))
              (eccentricity elements) KEPLER_TOLERANCE MAX_KEPLER_ITERATIONS = Inr E
          \<and> trueAnomalyFromEccentric E (eccentricity elements) = Inr nu
          \<and> calculateHeliocentricDistance (semiMajorAxis elements) (eccentricity elements) nu
               = Inr r
          \<and> p = to_ecliptic (jsmul (inclination elements) DEG_TO_RAD)
                             (jsmul (longitudeOfAscendingNode elements) DEG_TO_RAD)
                             (jsmul (argumentOfPerihelion elements) DEG_TO_RAD)
                             (jsmul r (Math_cos nu)) (jsmul r (Math_sin nu))))
   \<and> (\<bar>m\<bar> \<le> MAX_VALUE \<longrightarrow>
        solveKeplerEquation (Finite m) (Finite 0) KEPLER_TOLERANCE MAX_KEPLER_ITERATIONS
          = Inr (jsmul (Finite m) DEG_TO_RAD))
   \<and> (solveKeplerEquation meanAnomaly_deg ecc tol maxIterations = Inr E' \<longrightarrow>
        (\<exists>k. E' = newton_iterate (jsmul meanAnomaly_deg DEG_TO_RAD) ecc
                     (if jsgt ecc (lit 0.8) then Math_PI else jsmul meanAnomaly_deg DEG_TO_RAD)
                     (Suc k)))"
proof (intro conjI impI)
  assume "Number_isFinite (current_mean_anomaly M0 n d)"
  then show "jsle (Finite 0) (current_mean_anomaly M0 n d)"
    and "jsle (current_mean_anomaly M0 n d) (Finite 360)"
    using current_mean_anomaly_range by blast+
next
  assume "jsadd M0 (jsmul n d) = Finite a" and "0 \<le> a"
  then show "current_mean_anomaly M0 n d = Finite (a - 360 * of_int \<lfloor>a / 360\<rfloor>)"
    using current_mean_anomaly_reduces by blast
next
  assume "jsadd M0 (jsmul n d) = Finite a" and "a < 0"
  then show "current_mean_anomaly M0 n d = Finite (fl (a - 360 * of_int \<lfloor>a / 360\<rfloor>))"
    using current_mean_anomaly_reduces by blast
next
  assume "calculatePosition elements jd = Inr p"
  then show "\<exists>E nu r.
            solveKeplerEquation
              (current_mean_anomaly (meanAnomaly elements) (mean_motion elements)
                 (jssub jd (case epoch elements of None \<Rightarrow> J2000_JD | Some t \<Rightarrow> t)))
              (eccentricity elements) KEPLER_TOLERANCE MAX_KEPLER_ITERATIONS = Inr E
          \<and> trueAnomalyFromEccentric E (eccentricity elements) = Inr nu
          \<and> calculateHeliocentricDistance (semiMajorAxis elements) (eccentricity elements) nu
               = Inr r
          \<and> p = to_ecliptic (jsmul (inclination elements) DEG_TO_RAD)
                             (jsmul (longitudeOfAscendingNode elements) DEG_TO_RAD)
                             (jsmul (argumentOfPerihelion elements) DEG_TO_RAD)
                             (jsmul r (Math_cos nu)) (jsmul r (Math_sin nu))"
    by (rule calculatePosition_pipeline)
next
  assume "\<bar>m\<bar> \<le> MAX_VALUE"
  then show "solveKeplerEquation (Finite m) (Finite 0) KEPLER_TOLERANCE MAX_KEPLER_ITERATIONS
          = Inr (jsmul (Finite m) DEG_TO_RAD)"
    by (rule solve_circular)
next
  assume r: "solveKeplerEquation meanAnomaly_deg ecc tol maxIterations = Inr E'"
  let ?M = "jsmul meanAnomaly_deg DEG_TO_RAD"
  let ?E0 = "if jsgt ecc (lit 0.8) then Math_PI else ?M"
  from r obtain c where loop: "kepler_loop (iterations maxIterations) ?M ecc tol ?E0 = Inr (E', c)"
    and chk: "checks [invariant c ''Kepler equation must converge'',
                      assertFinite E' ''Final eccentric anomaly''] = None"
    by (auto simp: solveKeplerEquation_def Let_def split: option.splits sum.splits prod.splits)
  from chk have "c" by (auto simp: checks_eq_None_iff invariant_def split: if_splits)
  with loop have "kepler_loop (iterations maxIterations) ?M ecc tol ?E0 = Inr (E', True)" by simp
  from kepler_loop_converged[OF this]
  show "\<exists>k. E' = newton_iterate ?M ecc ?E0 (Suc k)" by blast
qed

theorem mean_anomaly_normalized_before_solving_witness:
  "current_mean_anomaly (Finite (- 10)) (Finite 1) (Finite 0) = Finite 350
   \<and> jsle (Finite 0) (Finite 350) \<and> jsle (Finite 350) (Finite 360)
   \<and> jsadd (Finite (- 10)) (jsmul (Finite 1) (Finite 0)) = Finite (- 10)
   \<and> current_mean_anomaly (Finite (- 10)) (Finite 1) (Finite 0)
        = Finite (fl (- 10 - 360 * of_int \<lfloor>- 10 / 360 :: real\<rfloor>))
   \<and> jsadd (Finite 800) (jsmul (Finite 1) (Finite 0)) = Finite 800
   \<and> current_mean_anomaly (Finite 800) (Finite 1) (Finite 0) = Finite 80
   \<and> calculatePosition circular_orbit J2000_JD
        = Inr \<lparr> pos_x = Finite 1, pos_y = Finite 0, pos_z = Finite 0 \<rparr>
   \<and> (\<exists>E nu r.
          solveKeplerEquation
            (current_mean_anomaly (meanAnomaly circular_orbit) (mean_motion circular_orbit)
               (jssub J2000_JD (case epoch circular_orbit of None \<Rightarrow> J2000_JD | Some t \<Rightarrow> t)))
            (eccentricity circular_orbit) KEPLER_TOLERANCE MAX_KEPLER_ITERATIONS = Inr E
        \<and> trueAnomalyFromEccentric E (eccentricity circular_orbit) = Inr nu
        \<and> calculateHeliocentricDistance (semiMajorAxis circular_orbit)
             (eccentricity circular_orbit) nu = Inr r
        \<and> \<lparr> pos_x = Finite 1, pos_y = Finite 0, pos_z = Finite 0 \<rparr>
            = to_ecliptic (jsmul (inclination circular_orbit) DEG_TO_RAD)
                          (jsmul (longitudeOfAscendingNode circular_orbit) DEG_TO_RAD)
                          (jsmul (argumentOfPerihelion circular_orbit) DEG_TO_RAD)
                          (jsmul r (Math_cos nu)) (jsmul r (Math_sin nu)))
   \<and> \<bar>720\<bar> \<le> MAX_VALUE
   \<and> solveKeplerEquation (Finite 720) (Finite 0) KEPLER_TOLERANCE MAX_KEPLER_ITERATIONS
        = Inr (jsmul (Finite 720) DEG_TO_RAD)
   \<and> solveKeplerEquation (Finite 0) (Finite 0) KEPLER_TOLERANCE MAX_KEPLER_ITERATIONS
        = Inr (Finite 0)
   \<and> (\<exists>k. Finite 0 = newton_iterate (jsmul (Finite 0) DEG_TO_RAD) (Finite 0)
                (if jsgt (Finite 0) (lit 0.8) then Math_PI else jsmul (Finite 0) DEG_TO_RAD)
                (Suc k))"
proof -
  note inst1 = mean_anomaly_normalized_before_solving
     [where ?M0.0 = "Finite (- 10)" and n = "Finite 1" and d = "Finite 0" and a = "- 10"
        and elements = circular_orbit and jd = J2000_JD
        and p = "\<lparr> pos_x = Finite 1, pos_y = Finite 0, pos_z = Finite 0 \<rparr>"
        and m = 720 and meanAnomaly_deg = "Finite 0" and ecc = "Finite 0"
        and tol = KEPLER_TOLERANCE and maxIterations = MAX_KEPLER_ITERATIONS
        and E' = "Finite 0"]
  note inst2 = mean_anomaly_normalized_before_solving
     [where ?M0.0 = "Finite 800" and n = "Finite 1" and d = "Finite 0" and a = 800
        and elements = circular_orbit and jd = J2000_JD
        and p = "\<lparr> pos_x = Finite 1, pos_y = Finite 0, pos_z = Finite 0 \<rparr>"
        and m = 720 and meanAnomaly_deg = "Finite 0" and ecc = "Finite 0"
        and tol = KEPLER_TOLERANCE and maxIterations = MAX_KEPLER_ITERATIONS
        and E' = "Finite 0"]
  have v: "current_mean_anomaly (Finite (- 10)) (Finite 1) (Finite 0) = Finite 350"
    by (simp add: current_mean_anomaly_def fl_eval js_eval cong: let_weak_cong)
  have rng: "jsle (Finite 0) (Finite 350) \<and> jsle (Finite 350) (Finite 360)" by simp
  have raw1: "jsadd (Finite (- 10)) (jsmul (Finite 1) (Finite 0)) = Finite (- 10)"
    by (simp add: fl_eval js_eval fl_minus)
  from inst1 raw1 have red1: "current_mean_anomaly (Finite (- 10)) (Finite 1) (Finite 0)
        = Finite (fl (- 10 - 360 * of_int \<lfloor>- 10 / 360 :: real\<rfloor>))"
    by simp
  have raw2: "jsadd (Finite 800) (jsmul (Finite 1) (Finite 0)) = Finite 800"
    by (simp add: fl_eval js_eval)
  have fl800: "\<lfloor>800 / 360 :: real\<rfloor> = 2" by simp
  from inst2 raw2 have "current_mean_anomaly (Finite 800) (Finite 1) (Finite 0)
        = Finite (800 - 360 * of_int \<lfloor>800 / 360 :: real\<rfloor>)"
    by simp
  then have red2: "current_mean_anomaly (Finite 800) (Finite 1) (Finite 0) = Finite 80"
    unfolding fl800 by simp
  from inst1 calculatePosition_circular
  have pipe: "\<exists>E nu r.
          solveKeplerEquation
            (current_mean_anomaly (meanAnomaly circular_orbit) (mean_motion circular_orbit)
               (jssub J2000_JD (case epoch circular_orbit of None \<Rightarrow> J2000_JD | Some t \<Rightarrow> t)))
            (eccentricity circular_orbit) KEPLER_TOLERANCE MAX_KEPLER_ITERATIONS = Inr E
        \<and> trueAnomalyFromEccentric E (eccentricity circular_orbit) = Inr nu
        \<and> calculateHeliocentricDistance (semiMajorAxis circular_orbit)
             (eccentricity circular_orbit) nu = Inr r
        \<and> \<lparr> pos_x = Finite 1, pos_y = Finite 0, pos_z = Finite 0 \<rparr>
            = to_ecliptic (jsmul (inclination circular_orbit) DEG_TO_RAD)
                          (jsmul (longitudeOfAscendingNode circular_orbit) DEG_TO_RAD)
                          (jsmul (argumentOfPerihelion circular_orbit) DEG_TO_RAD)
                          (jsmul r (Math_cos nu)) (jsmul r (Math_sin nu))"
    by blast
  from inst1 MAX_VALUE_ge_720
  have s720: "solveKeplerEquation (Finite 720) (Finite 0) KEPLER_TOLERANCE MAX_KEPLER_ITERATIONS
        = Inr (jsmul (Finite 720) DEG_TO_RAD)"
    by blast
  have s0: "solveKeplerEquation (Finite 0) (Finite 0) KEPLER_TOLERANCE MAX_KEPLER_ITERATIONS
             = Inr (Finite 0)"
    using solve_circular[of 0] by (simp add: zero_to_radians MAX_VALUE_def)
  from inst1 s0
  have it: "\<exists>k. Finite 0 = newton_iterate (jsmul (Finite 0) DEG_TO_RAD) (Finite 0)
                (if jsgt (Finite 0) (lit 0.8) then Math_PI else jsmul (Finite 0) DEG_TO_RAD)
                (Suc k)"
    by blast
  from v rng raw1 red1 raw2 red2 calculatePosition_circular pipe MAX_VALUE_ge_720 s720 s0 it
  show ?thesis by (simp only: simp_thms)
qed

text \<open>
  Claim C6 as stated fails on the code. \<open>solveKeplerEquation(720, 0)\<close> returns
  \<open>4\<pi>\<close> (as a double), where a solver that normalised 720 degrees to 0 would
  return what \<open>solveKeplerEquation(0, 0)\<close> returns, namely 0. And in
  \<open>calculatePosition\<close>, a mean anomaly at epoch of \<open>-2^-60\<close> degrees evaluated
  at the epoch gives \<open>M = 360\<close>, which is outside \<open>[0, 360)\<close>.
\<close>

theorem solver_does_not_normalize_counterexample:
  "solveKeplerEquation (Finite 720) (Finite 0) KEPLER_TOLERANCE MAX_KEPLER_ITERATIONS
     = Inr (Finite (884279719003555 / 2 ^ 46))
   \<and> solveKeplerEquation (Finite 0) (Finite 0) KEPLER_TOLERANCE MAX_KEPLER_ITERATIONS
     = Inr (Finite 0)
   \<and> current_mean_anomaly (Finite (- (1 / 2 ^ 60))) (Finite 1) (Finite 0) = Finite 360"
proof -
  have v: "jsmul (Finite 720) DEG_TO_RAD = Finite (884279719003555 / 2 ^ 46)"
    by (simp add: DEG_TO_RAD_value fl_eval js_eval)
  have a: "solveKeplerEquation (Finite 720) (Finite 0) KEPLER_TOLERANCE MAX_KEPLER_ITERATIONS
     = Inr (Finite (884279719003555 / 2 ^ 46))"
    using solve_circular[OF MAX_VALUE_ge_720] v by simp
  have b: "solveKeplerEquation (Finite 0) (Finite 0) KEPLER_TOLERANCE MAX_KEPLER_ITERATIONS
     = Inr (Finite 0)"
    using solve_circular[of 0] by (simp add: zero_to_radians MAX_VALUE_def)
  have c: "current_mean_anomaly (Finite (- (1 / 2 ^ 60))) (Finite 1) (Finite 0) = Finite 360"
    by (simp add: current_mean_anomaly_def fl_eval js_eval cong: let_weak_cong)
  from a b c show ?thesis by simp
qed


text \<open>
  Claim C7 fails on the code for elements that supply \<open>meanMotion: 0\<close>. The source
  reads the mean motion with \<open>elements.meanMotion || (...)\<close>, and \<open>0\<close> is falsy:
  the supplied value is dropped and the mean motion derived from the semi-major axis is
  used, the same as for elements without \<open>meanMotion\<close>. \<open>calculatePosition\<close>
  then returns a position, where a mean motion of 0 would have failed
  \<open>assertPositive(n)\<close>.
\<close>

theorem supplied_zero_mean_motion_is_replaced:
  "mean_motion (circular_orbit\<lparr> meanMotion := Some (Finite 0) \<rparr>)
     = Finite (2219433081250347 / 2 ^ 51)
   \<and> mean_motion circular_orbit = Finite (2219433081250347 / 2 ^ 51)
   \<and> calculatePosition (circular_orbit\<lparr> meanMotion := Some (Finite 0) \<rparr>) J2000_JD
        = Inr \<lparr> pos_x = Finite 1, pos_y = Finite 0, pos_z = Finite 0 \<rparr>"
  by (simp add: circular_orbit_def om_eval tc_eval fl_eval js_eval kepler_loop_numeral
        cong: let_weak_cong)

section \<open>The residual of the returned eccentric anomaly\<close>

text \<open>
  The last pass of the Newton-Raphson loop computed a step \<open>dE\<close> smaller than the
  tolerance from the previous value \<open>E'\<close> and returned \<open>E = E' - dE\<close>. The
  residual \<open>E - e sin E - M\<close> of the returned value is bounded from the rounding error
  of each operation of that pass. \<open>Math.sin\<close> and \<open>Math.cos\<close> enter through the
  bound \<open>2 ^ -53\<close> on their error on \<open>[-1, 1]\<close>.
\<close>

subsection \<open>Rounding errors\<close>

lemma rne_error: "\<bar>of_int (rne y) - y\<bar> \<le> 1 / 2"
proof -
  define f where "f = \<lfloor>y\<rfloor>"
  have a: "of_int f \<le> y" "y < of_int f + 1" unfolding f_def by linarith+
  show ?thesis
    unfolding rne_def Let_def f_def[symmetric] using a by (auto simp: abs_le_iff)
qed

lemma rne_near:
  assumes "\<bar>y - of_int n\<bar> < 1 / 2"
  shows "rne y = n"
proof -
  have "\<bar>real_of_int (rne y) - of_int n\<bar> < 1" using rne_error[of y] assms by linarith
  then have "\<bar>real_of_int (rne y - n)\<bar> < 1" by simp
  then have "\<bar>rne y - n\<bar> < 1" by linarith
  then show ?thesis by simp
qed

lemma ulp_exp_le:
  assumes "z \<noteq> 0" and "\<bar>z\<bar> < 2 powi (k + 1)" and "- 1022 \<le> k"
  shows "ulp_exp z \<le> k - 52"
proof -
  have "(2::real) powi expo z < 2 powi (k + 1)"
    using expo_bounds(1)[OF assms(1)] assms(2) by linarith
  then have "expo z \<le> k" by simp
  then show ?thesis using assms(3) by (simp add: ulp_exp_def)
qed

lemma fl_error:
  "\<bar>fl z - z\<bar> \<le> 2 powi (ulp_exp z) / 2"
proof -
  define u where "u = ulp_exp z"
  have p: "(0::real) < 2 powi u" by simp
  have "fl z - z = (of_int (rne (z / 2 powi u)) - z / 2 powi u) * 2 powi u"
    using p by (simp add: fl_def u_def field_simps)
  then have "\<bar>fl z - z\<bar> = \<bar>of_int (rne (z / 2 powi u)) - z / 2 powi u\<bar> * 2 powi u"
    by (simp add: abs_mult)
  also have "\<dots> \<le> 1 / 2 * 2 powi u"
    by (intro mult_right_mono rne_error) simp
  finally show ?thesis by (simp add: u_def)
qed

lemma fl_error_bound:
  assumes "\<bar>z\<bar> < 2 powi (k + 1)" and "- 1022 \<le> k"
  shows "\<bar>fl z - z\<bar> \<le> 2 powi (k - 53)"
proof (cases "z = 0")
  case True
  then show ?thesis by simp
next
  case False
  have "ulp_exp z \<le> k - 52" using ulp_exp_le[OF False assms] .
  then have "(2::real) powi ulp_exp z \<le> 2 powi (k - 52)" by simp
  also have "\<dots> = 2 * 2 powi (k - 53)"
    using power_int_add[of "2::real" 1 "k - 53"] by simp
  finally show ?thesis using fl_error[of z] by linarith
qed

lemma fl_error_up:
  assumes "\<bar>z\<bar> < 2 ^ n"
  shows "\<bar>fl z - z\<bar> \<le> 2 ^ n / 2 ^ 54"
proof -
  have a: "\<bar>z\<bar> < 2 powi (int n - 1 + 1)" using assms by simp
  have "(2::real) powi (int n - 1 - 53) = 2 powi (int n) / 2 powi 54"
    using power_int_diff[of "2::real" "int n" 54] by simp
  then have b: "(2::real) powi (int n - 1 - 53) = 2 ^ n / 2 ^ 54" by simp
  show ?thesis using fl_error_bound[OF a] b by simp
qed

lemma fl_error_down:
  assumes "\<bar>z\<bar> < 1 / 2 ^ n" and "n \<le> 1021"
  shows "\<bar>fl z - z\<bar> \<le> 1 / 2 ^ (n + 54)"
proof -
  have "(2::real) powi (- int n) = 1 / 2 ^ n"
    by (simp add: power_int_minus field_simps)
  then have a: "\<bar>z\<bar> < 2 powi (- int n - 1 + 1)" using assms(1) by simp
  have "- int n - 1 - 53 = - int (n + 54)" by simp
  then have "(2::real) powi (- int n - 1 - 53) = 2 powi (- int (n + 54))" by (rule arg_cong)
  also have "\<dots> = 1 / 2 ^ (n + 54)"
    by (simp only: power_int_minus power_int_of_nat) (simp add: field_simps)
  finally have b: "(2::real) powi (- int n - 1 - 53) = 1 / 2 ^ (n + 54)" .
  have c: "- 1022 \<le> - int n - 1" using assms(2) by simp
  show ?thesis using fl_error_bound[OF a c] b by simp
qed

lemma fl_bounded_arg:
  assumes "fl b = b" and "\<bar>fl q\<bar> < b"
  shows "\<bar>q\<bar> \<le> b"
proof (rule ccontr)
  assume "\<not> \<bar>q\<bar> \<le> b"
  then consider "b < q" | "q < - b" by linarith
  then show False
  proof cases
    case 1
    then have "fl b \<le> fl q" by (intro fl_mono) simp
    with assms show False by linarith
  next
    case 2
    then have "fl q \<le> fl (- b)" by (intro fl_mono) simp
    with assms show False by (simp add: fl_minus)
  qed
qed

lemma fl_abs_le_1: "\<bar>z\<bar> \<le> 1 \<Longrightarrow> \<bar>fl z\<bar> \<le> 1"
proof -
  assume a: "\<bar>z\<bar> \<le> 1"
  have "fl z \<le> fl 1" using a by (intro fl_mono) simp
  moreover have "fl (- 1) \<le> fl z" using a by (intro fl_mono) simp
  ultimately show ?thesis by (simp add: fl_minus abs_le_iff)
qed

lemma fl_2 [simp]: "fl 2 = 2"
  by (simp add: fl_numeral)

lemma fl_small_result:
  assumes "\<bar>fl z\<bar> < 1 / 2 ^ 31"
  shows "\<bar>fl z - z\<bar> \<le> 1 / 2 ^ 84"
proof -
  have "(2::real) powi (- 31) = 1 / 2 ^ 31" by (simp add: power_int_minus field_simps)
  then have b: "fl (1 / 2 ^ 31) = 1 / 2 ^ 31" using fl_exact[of 1 "- 31"] by simp
  have "\<bar>z\<bar> \<le> 1 / 2 ^ 31" using fl_bounded_arg[OF b assms] .
  then have "\<bar>z\<bar> < 1 / 2 ^ 30" by simp
  from fl_error_down[OF this] show ?thesis by simp
qed

lemma tolerance_representable: "fl (7737125245533627 / 2 ^ 86) = 7737125245533627 / 2 ^ 86"
proof -
  have "(2::real) powi (- 86) = 1 / 2 ^ 86" by (simp add: power_int_minus field_simps)
  then show ?thesis using fl_exact[of 7737125245533627 "- 86"] by simp
qed

lemma round_double_bounded: "\<bar>fl z\<bar> \<le> MAX_VALUE \<Longrightarrow> round_double z = Finite (fl z)"
  by (auto simp: round_double_def Let_def)

text \<open>
  A double of magnitude at least \<open>2 ^ j\<close> absorbs a term below a quarter of the
  spacing of the doubles at \<open>2 ^ j\<close>.
\<close>

lemma fl_absorb_pos:
  assumes rep: "fl y = y" and big: "2 powi j \<le> y" and j: "- 1021 \<le> j"
    and d: "\<bar>d\<bar> < 2 powi (j - 54)"
  shows "fl (y - d) = y"
proof -
  define e where "e = expo y"
  define u where "u = e - 52"
  define P :: real where "P = 2 powi u"
  define N where "N = rne (y / P)"
  have pos: "0 < y" using big pow2_pos[of j] by linarith
  then have y0: "y \<noteq> 0" by simp
  have eb: "2 powi e \<le> y" "y < 2 powi (e + 1)"
    using expo_bounds[OF y0] pos by (simp_all add: e_def)
  have "(2::real) powi j < 2 powi (e + 1)" using big eb(2) by linarith
  then have je: "j \<le> e" by simp
  have uy: "ulp_exp y = u" using je j by (simp add: ulp_exp_def u_def e_def)
  have P0: "0 < P" by (simp add: P_def)
  have yN: "y = of_int N * P"
    using rep by (simp add: fl_def uy N_def P_def)
  have pe: "2 powi e = 2 ^ 52 * P"
    using power_int_add[of "2::real" u 52] by (simp add: P_def u_def)
  have pe1: "2 powi (e + 1) = 2 ^ 53 * P"
    using power_int_add[of "2::real" u 53] by (simp add: P_def u_def add.commute)
  have pem: "2 powi (e - 1) = 2 ^ 51 * P"
    using power_int_add[of "2::real" u 51] by (simp add: P_def u_def)
  have pu: "2 powi (u - 1) = P / 2"
    using power_int_add[of "2::real" "u - 1" 1] by (simp add: P_def)
  have pd: "2 powi (e - 54) = P / 4"
    using power_int_add[of "2::real" "e - 54" 2] by (simp add: P_def u_def)
  have "(2::real) powi (j - 54) \<le> 2 powi (e - 54)" using je by simp
  then have dP: "\<bar>d\<bar> < P / 4" using d pd by linarith
  have "2 ^ 52 * P \<le> of_int N * P" using eb(1) pe yN by simp
  then have "(2::real) ^ 52 \<le> of_int N" using P0 by simp
  then have "real_of_int (2 ^ 52) \<le> of_int N" by simp
  then have Nlo: "2 ^ 52 \<le> N" by (simp only: of_int_le_iff)
  have "of_int N * P < 2 ^ 53 * P" using eb(2) pe1 yN by simp
  then have "of_int N < (2::real) ^ 53" using P0 by simp
  then have "real_of_int N < of_int (2 ^ 53)" by simp
  then have "N < 2 ^ 53" by (simp only: of_int_less_iff)
  then have "N \<le> 2 ^ 53 - 1" by simp
  then have "real_of_int N \<le> of_int (2 ^ 53 - 1)" by (simp only: of_int_le_iff)
  then have "real_of_int N \<le> 2 ^ 53 - 1" by simp
  then have "of_int N * P \<le> (2 ^ 53 - 1) * P" using P0 by (intro mult_right_mono) simp_all
  then have yhi: "y \<le> 2 ^ 53 * P - P" using yN by (simp add: algebra_simps)
  have dP': "\<bar>d / P\<bar> < 1 / 4" using dP P0 by (simp add: abs_divide field_simps)
  show ?thesis
  proof (cases "2 powi e \<le> y - d")
    case True
    have a: "2 powi e \<le> \<bar>y - d\<bar>" using True by linarith
    have "0 < y - d" using True pow2_pos[of e] by linarith
    then have b: "\<bar>y - d\<bar> < 2 powi (e + 1)" using yhi dP pe1 P0 by linarith
    have ex: "expo (y - d) = e" using expo_unique[OF a b] .
    have ux: "ulp_exp (y - d) = u" using ex je j by (simp add: ulp_exp_def u_def)
    have "(y - d) / P - of_int N = - (d / P)" using P0 yN by (simp add: field_simps)
    then have "\<bar>(y - d) / P - of_int N\<bar> < 1 / 2" using dP' by linarith
    then have r: "rne ((y - d) / P) = N" by (rule rne_near)
    have "fl (y - d) = of_int (rne ((y - d) / P)) * P" by (simp add: fl_def ux P_def)
    then show ?thesis unfolding r using yN by simp
  next
    case False
    then have lt: "y - d < 2 ^ 52 * P" using pe by linarith
    have "(of_int N - 2 ^ 52) * P < P / 4 * 1"
      using lt yN dP by (simp add: algebra_simps abs_less_iff)
    then have "(of_int N - 2 ^ 52) * P < (1 / 4) * P" by simp
    then have "real_of_int N - 2 ^ 52 < 1 / 4" using P0 by (simp only: mult_less_cancel_right_pos)
    then have "real_of_int N < of_int (2 ^ 52 + 1)" by simp
    then have "N < 2 ^ 52 + 1" by (simp only: of_int_less_iff)
    with Nlo have N: "N = 2 ^ 52" by simp
    then have y: "y = 2 ^ 52 * P" using yN by simp
    have "2 ^ 51 * P \<le> y - d" using y dP P0 by (simp add: abs_less_iff) 
    then have a: "2 powi (e - 1) \<le> \<bar>y - d\<bar>" using pem by linarith
    have "0 < y - d" using a pow2_pos[of "e - 1"] \<open>2 ^ 51 * P \<le> y - d\<close> P0 by simp
    then have b: "\<bar>y - d\<bar> < 2 powi (e - 1 + 1)" using lt pe by simp
    have ex: "expo (y - d) = e - 1" using expo_unique[OF a b] .
    have ux: "ulp_exp (y - d) = u - 1" using ex je j by (simp add: ulp_exp_def u_def)
    have "(y - d) / (P / 2) - of_int (2 * N) = - 2 * (d / P)"
      using P0 yN by (simp add: field_simps)
    then have "\<bar>(y - d) / (P / 2) - of_int (2 * N)\<bar> < 1 / 2" using dP' by linarith
    then have r: "rne ((y - d) / (P / 2)) = 2 * N" by (rule rne_near)
    have "fl (y - d) = of_int (rne ((y - d) / (P / 2))) * (P / 2)"
      by (simp add: fl_def ux pu)
    then show ?thesis unfolding r using yN by simp
  qed
qed

lemma fl_absorb:
  assumes rep: "fl y = y" and big: "2 powi j \<le> \<bar>y\<bar>" and j: "- 1021 \<le> j"
    and d: "\<bar>d\<bar> < 2 powi (j - 54)"
  shows "fl (y - d) = y"
proof (cases "0 \<le> y")
  case True
  then show ?thesis using fl_absorb_pos[OF rep _ j d] big by simp
next
  case False
  have r: "fl (- y) = - y" using rep by (simp add: fl_minus)
  have b: "2 powi j \<le> - y" using big False by simp
  have d': "\<bar>- d\<bar> < 2 powi (j - 54)" using d by simp
  have "fl (- y - (- d)) = - y" using fl_absorb_pos[OF r b j d'] .
  then have "fl (- (y - d)) = - y" by simp
  then show ?thesis by (simp only: fl_minus neg_equal_iff_equal)
qed

subsection \<open>Sine and cosine\<close>

lemma abs_scale_le:
  fixes z :: real
  assumes "0 \<le> c" and "c \<le> 1"
  shows "\<bar>c * z\<bar> \<le> \<bar>z\<bar>"
proof -
  have "\<bar>c * z\<bar> = c * \<bar>z\<bar>" using assms(1) by (simp add: abs_mult)
  also have "\<dots> \<le> 1 * \<bar>z\<bar>" using assms(2) by (intro mult_right_mono) simp_all
  finally show ?thesis by simp
qed

lemma abs_add_le:
  fixes a b :: real
  shows "\<bar>a\<bar> \<le> A \<Longrightarrow> \<bar>b\<bar> \<le> B \<Longrightarrow> \<bar>a + b\<bar> \<le> A + B"
  by linarith

lemma abs_diff_le:
  fixes a b :: real
  shows "\<bar>a\<bar> \<le> A \<Longrightarrow> \<bar>b\<bar> \<le> B \<Longrightarrow> \<bar>a - b\<bar> \<le> A + B"
  by linarith

lemma sin_lipschitz: "\<bar>sin a - sin b\<bar> \<le> \<bar>a - b\<bar>" for a b :: real
proof -
  have "\<bar>sin a - sin b\<bar> = 2 * \<bar>sin ((a - b) / 2)\<bar> * \<bar>cos ((a + b) / 2)\<bar>"
    by (simp add: sin_diff_sin abs_mult)
  also have "\<dots> \<le> 2 * \<bar>(a - b) / 2\<bar> * 1"
    by (intro mult_mono mult_left_mono abs_sin_x_le_abs_x abs_cos_le_one) simp_all
  finally show ?thesis by simp
qed

lemma sin_minus_arg: "\<bar>sin h - h\<bar> \<le> h\<^sup>2 / 2" for h :: real
proof -
  have "\<bar>sin h - (\<Sum>m<2. sin_coeff m * h ^ m)\<bar> \<le> inverse (fact 2) * \<bar>h\<bar> ^ 2"
    by (rule Maclaurin_sin_bound)
  moreover have "(\<Sum>m<2. sin_coeff m * h ^ m) = h"
    by (simp add: sin_coeff_def lessThan_nat_numeral)
  ultimately show ?thesis by (simp add: field_simps)
qed

lemma one_minus_cos: "\<bar>cos h - 1\<bar> \<le> h\<^sup>2 / 2" for h :: real
proof -
  have "cos h = cos (2 * (h / 2))" by simp
  also have "\<dots> = 1 - 2 * (sin (h / 2))\<^sup>2" by (rule cos_double_sin)
  finally have a: "cos h - 1 = - 2 * (sin (h / 2))\<^sup>2" by simp
  have "\<bar>sin (h / 2)\<bar> \<le> \<bar>h / 2\<bar>" by (rule abs_sin_x_le_abs_x)
  then have "\<bar>sin (h / 2)\<bar>\<^sup>2 \<le> \<bar>h / 2\<bar>\<^sup>2" by (intro power_mono) simp_all
  then have "(sin (h / 2))\<^sup>2 \<le> h\<^sup>2 / 4" by (simp add: power_divide)
  then show ?thesis unfolding a by (simp add: abs_mult)
qed

lemma sin_step:
  fixes a h :: real
  shows "\<bar>sin (a - h) - sin a + h * cos a\<bar> \<le> h\<^sup>2"
proof -
  have e: "sin (a - h) - sin a + h * cos a = sin a * (cos h - 1) - cos a * (sin h - h)"
    by (simp add: sin_diff algebra_simps)
  have "\<bar>sin a * (cos h - 1)\<bar> \<le> 1 * (h\<^sup>2 / 2)"
    unfolding abs_mult by (intro mult_mono one_minus_cos abs_sin_le_one) simp_all
  moreover have "\<bar>cos a * (sin h - h)\<bar> \<le> 1 * (h\<^sup>2 / 2)"
    unfolding abs_mult by (intro mult_mono sin_minus_arg abs_cos_le_one) simp_all
  ultimately show ?thesis unfolding e by linarith
qed

lemma sin_2_ge_half: "1 / 2 \<le> sin (2::real)"
proof -
  have "\<bar>sin (1::real) - 1\<bar> \<le> 1\<^sup>2 / 2" by (rule sin_minus_arg)
  then have s: "1 / 2 \<le> sin (1::real)" by simp
  have "\<bar>cos (1::real) - 1\<bar> \<le> 1\<^sup>2 / 2" by (rule one_minus_cos)
  then have c: "1 / 2 \<le> cos (1::real)" by simp
  have "1 / 2 * (1 / 2) \<le> sin (1::real) * cos 1" using s c by (intro mult_mono) simp_all
  moreover have "sin (2::real) = 2 * sin 1 * cos 1" using sin_double[of "1::real"] by simp
  ultimately show ?thesis by simp
qed

lemma sines_two_apart:
  fixes x :: real
  shows "1 / 10 ^ 8 \<le> \<bar>sin x\<bar> \<or> 1 / 10 ^ 8 \<le> \<bar>sin (x + 2)\<bar>"
proof (rule ccontr)
  assume "\<not> (1 / 10 ^ 8 \<le> \<bar>sin x\<bar> \<or> 1 / 10 ^ 8 \<le> \<bar>sin (x + 2)\<bar>)"
  then have a: "\<bar>sin x\<bar> < 1 / 10 ^ 8" and b: "\<bar>sin (x + 2)\<bar> < 1 / 10 ^ 8" by simp_all
  have "\<bar>sin x * cos 2\<bar> \<le> \<bar>sin x\<bar> * 1"
    unfolding abs_mult by (intro mult_left_mono abs_cos_le_one) simp
  then have sc: "\<bar>sin x * cos 2\<bar> < 1 / 10 ^ 8" using a by simp
  have "cos x * sin 2 = sin (x + 2) - sin x * cos 2" by (simp add: sin_add)
  then have "\<bar>cos x * sin 2\<bar> \<le> \<bar>sin (x + 2)\<bar> + \<bar>sin x * cos 2\<bar>" by (simp only: abs_triangle_ineq4)
  then have cs: "\<bar>cos x * sin 2\<bar> < 2 / 10 ^ 8" using b sc by simp
  have "\<bar>cos x\<bar> * (1 / 2) \<le> \<bar>cos x\<bar> * sin 2" using sin_2_ge_half by (intro mult_left_mono) simp_all
  also have "\<dots> = \<bar>cos x * sin 2\<bar>" using sin_2_ge_half by (simp add: abs_mult)
  finally have c: "\<bar>cos x\<bar> < 4 / 10 ^ 8" using cs by simp
  have "\<bar>sin x\<bar>\<^sup>2 \<le> (1 / 10 ^ 8)\<^sup>2" using a by (intro power_mono) simp_all
  moreover have "\<bar>cos x\<bar>\<^sup>2 \<le> (4 / 10 ^ 8)\<^sup>2" using c by (intro power_mono) simp_all
  ultimately have "(sin x)\<^sup>2 + (cos x)\<^sup>2 \<le> (1 / 10 ^ 8)\<^sup>2 + (4 / 10 ^ 8)\<^sup>2"
    by (simp only: power2_abs add_mono)
  then have "(1::real) \<le> (1 / 10 ^ 8)\<^sup>2 + (4 / 10 ^ 8)\<^sup>2"
    by (simp only: sin_cos_squared_add)
  then show False by (simp add: power2_eq_square)
qed

subsection \<open>One Newton step in real numbers\<close>

text \<open>
  \<open>x'\<close> is the previous value, \<open>\<delta>\<close> the step the pass computes from it and
  \<open>x\<close> the value returned; \<open>\<epsilon>\<close> is the eccentricity and \<open>\<mu>\<close> the mean
  anomaly in radians.
\<close>

lemma residual_eval_error:
  assumes e: "0 \<le> \<epsilon>" "\<epsilon> \<le> 1" and y: "\<bar>y\<bar> \<le> 2 ^ 21 + 1"
  shows "\<bar>fl (y - fl (\<epsilon> * fl (sin y))) - (y - \<epsilon> * sin y)\<bar> \<le> 1 / 2 ^ 32 + 1 / 2 ^ 52"
proof -
  define s where "s = fl (sin y)"
  define t where "t = fl (\<epsilon> * s)"
  have s1: "\<bar>s\<bar> \<le> 1" unfolding s_def by (intro fl_abs_le_1 abs_sin_le_one)
  have "\<bar>sin y\<bar> < 2 ^ 1" by (rule le_less_trans[OF abs_sin_le_one]) simp
  from fl_error_up[OF this] have se: "\<bar>s - sin y\<bar> \<le> 1 / 2 ^ 53" by (simp add: s_def)
  have es1: "\<bar>\<epsilon> * s\<bar> \<le> 1" using abs_scale_le[OF e, of s] s1 by linarith
  then have "\<bar>\<epsilon> * s\<bar> < 2 ^ 1" by simp
  from fl_error_up[OF this] have te: "\<bar>t - \<epsilon> * s\<bar> \<le> 1 / 2 ^ 53" by (simp add: t_def)
  have t1: "\<bar>t\<bar> \<le> 1" unfolding t_def using es1 by (rule fl_abs_le_1)
  have "\<bar>\<epsilon> * (s - sin y)\<bar> \<le> \<bar>s - sin y\<bar>" by (rule abs_scale_le[OF e])
  then have es: "\<bar>\<epsilon> * (s - sin y)\<bar> \<le> 1 / 2 ^ 53" using se by (rule order_trans)
  have "\<bar>(t - \<epsilon> * s) + \<epsilon> * (s - sin y)\<bar> \<le> 1 / 2 ^ 53 + 1 / 2 ^ 53"
    by (rule abs_add_le[OF te es])
  then have tt: "\<bar>t - \<epsilon> * sin y\<bar> \<le> 1 / 2 ^ 52" by (simp add: algebra_simps)
  have "\<bar>y\<bar> + \<bar>t\<bar> \<le> 2 ^ 21 + 1 + 1" using y t1 by (rule add_mono)
  then have "\<bar>y - t\<bar> < 2 ^ 22" using abs_triangle_ineq4[of y t] by simp
  from fl_error_up[OF this] have ae: "\<bar>fl (y - t) - (y - t)\<bar> \<le> 1 / 2 ^ 32" by simp
  have "\<bar>(fl (y - t) - (y - t)) - (t - \<epsilon> * sin y)\<bar> \<le> 1 / 2 ^ 32 + 1 / 2 ^ 52"
    by (rule abs_diff_le[OF ae tt])
  moreover have "(fl (y - t) - (y - t)) - (t - \<epsilon> * sin y) = fl (y - t) - (y - \<epsilon> * sin y)"
    by simp
  ultimately show ?thesis unfolding t_def s_def by simp
qed

lemma denominator_bounds:
  assumes e: "0 \<le> \<epsilon>" "\<epsilon> \<le> 1"
  shows "0 \<le> fl (1 - fl (\<epsilon> * fl (cos y)))"
    and "fl (1 - fl (\<epsilon> * fl (cos y))) \<le> 2"
    and "\<bar>fl (1 - fl (\<epsilon> * fl (cos y))) - (1 - \<epsilon> * cos y)\<bar> \<le> 1 / 2 ^ 51"
proof -
  define c where "c = fl (cos y)"
  define p where "p = fl (\<epsilon> * c)"
  have c1: "\<bar>c\<bar> \<le> 1" unfolding c_def by (intro fl_abs_le_1 abs_cos_le_one)
  have "\<bar>cos y\<bar> < 2 ^ 1" by (rule le_less_trans[OF abs_cos_le_one]) simp
  from fl_error_up[OF this] have ce: "\<bar>c - cos y\<bar> \<le> 1 / 2 ^ 53" by (simp add: c_def)
  have ec1: "\<bar>\<epsilon> * c\<bar> \<le> 1" using abs_scale_le[OF e, of c] c1 by linarith
  then have "\<bar>\<epsilon> * c\<bar> < 2 ^ 1" by simp
  from fl_error_up[OF this] have pe: "\<bar>p - \<epsilon> * c\<bar> \<le> 1 / 2 ^ 53" by (simp add: p_def)
  have p1: "\<bar>p\<bar> \<le> 1" unfolding p_def using ec1 by (rule fl_abs_le_1)
  have "\<bar>\<epsilon> * (c - cos y)\<bar> \<le> \<bar>c - cos y\<bar>" by (rule abs_scale_le[OF e])
  then have ec: "\<bar>\<epsilon> * (c - cos y)\<bar> \<le> 1 / 2 ^ 53" using ce by (rule order_trans)
  have "\<bar>(p - \<epsilon> * c) + \<epsilon> * (c - cos y)\<bar> \<le> 1 / 2 ^ 53 + 1 / 2 ^ 53"
    by (rule abs_add_le[OF pe ec])
  then have pp: "\<bar>p - \<epsilon> * cos y\<bar> \<le> 1 / 2 ^ 52" by (simp add: algebra_simps)
  have nn: "0 \<le> 1 - p" and le2: "1 - p \<le> 2" using p1 by simp_all
  show "0 \<le> fl (1 - fl (\<epsilon> * fl (cos y)))"
    using fl_nonneg[OF nn] by (simp add: p_def c_def)
  have "fl (1 - p) \<le> fl 2" using le2 by (rule fl_mono)
  then show "fl (1 - fl (\<epsilon> * fl (cos y))) \<le> 2" by (simp add: p_def c_def)
  have "\<bar>1 - p\<bar> < 2 ^ 2" using p1 by simp
  from fl_error_up[OF this] have de: "\<bar>fl (1 - p) - (1 - p)\<bar> \<le> 1 / 2 ^ 52" by simp
  have "\<bar>(fl (1 - p) - (1 - p)) - (p - \<epsilon> * cos y)\<bar> \<le> 1 / 2 ^ 52 + 1 / 2 ^ 52"
    by (rule abs_diff_le[OF de pp])
  moreover have "(fl (1 - p) - (1 - p)) - (p - \<epsilon> * cos y) = fl (1 - p) - (1 - \<epsilon> * cos y)"
    by simp
  ultimately show "\<bar>fl (1 - fl (\<epsilon> * fl (cos y))) - (1 - \<epsilon> * cos y)\<bar> \<le> 1 / 2 ^ 51"
    unfolding p_def c_def by simp
qed

lemma newton_step_residual:
  assumes e: "0 \<le> \<epsilon>" "\<epsilon> \<le> 1" and x: "\<bar>x'\<bar> < 2 ^ 21"
    and \<delta>: "\<delta> = fl (fl (fl (x' - fl (\<epsilon> * fl (sin x'))) - \<mu>) / fl (1 - fl (\<epsilon> * fl (cos x'))))"
    and d0: "fl (1 - fl (\<epsilon> * fl (cos x'))) \<noteq> 0"
    and small: "\<bar>\<delta>\<bar> < 7737125245533627 / 2 ^ 86"
  shows "\<bar>(x' - \<delta>) - \<epsilon> * sin (x' - \<delta>) - \<mu>\<bar> \<le> 1 / 2 ^ 32 + 1 / 2 ^ 51"
proof -
  define a where "a = fl (x' - fl (\<epsilon> * fl (sin x')))"
  define \<nu> where "\<nu> = fl (a - \<mu>)"
  define d where "d = fl (1 - fl (\<epsilon> * fl (cos x')))"
  define D where "D = 1 - \<epsilon> * cos x'"
  define q where "q = \<nu> / d"
  define tol :: real where "tol = 7737125245533627 / 2 ^ 86"
  define \<rho> where "\<rho> = sin (x' - \<delta>) - sin x' + \<delta> * cos x'"
  have \<delta>q: "\<delta> = fl q" by (simp add: \<delta> q_def \<nu>_def a_def d_def)
  have dpos: "0 < d" and d2: "d \<le> 2" and dD: "\<bar>d - D\<bar> \<le> 1 / 2 ^ 51"
    using denominator_bounds[OF e, of x'] d0 by (simp_all add: d_def D_def)
  have tolrep: "fl tol = tol" unfolding tol_def by (rule tolerance_representable)
  have small': "\<bar>fl q\<bar> < tol" using small \<delta>q by (simp add: tol_def)
  have qle: "\<bar>q\<bar> \<le> tol" using fl_bounded_arg[OF tolrep small'] .
  have tol33: "tol < 1 / 2 ^ 33" by (simp add: tol_def)
  have tol0: "0 \<le> tol" by (simp add: tol_def)
  have "\<bar>q\<bar> < 1 / 2 ^ 33" using qle tol33 by (rule le_less_trans)
  from fl_error_down[OF this] have \<delta>e: "\<bar>\<delta> - q\<bar> \<le> 1 / 2 ^ 87" by (simp add: \<delta>q)
  have \<nu>q: "\<nu> = q * d" using dpos by (simp add: q_def)
  have "\<bar>\<nu>\<bar> = \<bar>q\<bar> * d" using dpos by (simp add: \<nu>q abs_mult)
  also have "\<dots> \<le> tol * 2" using qle d2 dpos tol0 by (intro mult_mono) simp_all
  also have "\<dots> < 1 / 2 ^ 31" by (simp add: tol_def)
  finally have "\<bar>fl (a - \<mu>)\<bar> < 1 / 2 ^ 31" by (simp add: \<nu>_def)
  from fl_small_result[OF this] have \<nu>e: "\<bar>(a - \<mu>) - \<nu>\<bar> \<le> 1 / 2 ^ 84"
    by (simp add: \<nu>_def abs_minus_commute)
  have "\<bar>x'\<bar> \<le> 2 ^ 21 + 1" using x by simp
  from residual_eval_error[OF e this]
  have ae: "\<bar>(x' - \<epsilon> * sin x') - a\<bar> \<le> 1 / 2 ^ 32 + 1 / 2 ^ 52"
    by (simp add: a_def abs_minus_commute)
  have "\<nu> - \<delta> * d = (q - \<delta>) * d" by (simp add: \<nu>q algebra_simps)
  then have "\<bar>\<nu> - \<delta> * d\<bar> = \<bar>\<delta> - q\<bar> * d"
    using dpos by (simp add: abs_mult abs_minus_commute)
  also have "\<dots> \<le> 1 / 2 ^ 87 * 2" using \<delta>e d2 dpos by (intro mult_mono) simp_all
  finally have \<delta>d: "\<bar>\<nu> - \<delta> * d\<bar> \<le> 1 / 2 ^ 86" by simp
  have "\<bar>\<delta> * (d - D)\<bar> = \<bar>\<delta>\<bar> * \<bar>d - D\<bar>" by (simp add: abs_mult)
  also have "\<dots> \<le> tol * (1 / 2 ^ 51)"
    using small dD tol0 by (intro mult_mono) (simp_all add: tol_def)
  also have "\<dots> \<le> 1 / 2 ^ 84" by (simp add: tol_def)
  finally have \<delta>D: "\<bar>\<delta> * (d - D)\<bar> \<le> 1 / 2 ^ 84" .
  have "\<bar>\<rho>\<bar> \<le> \<delta>\<^sup>2" unfolding \<rho>_def by (rule sin_step)
  also have "\<delta>\<^sup>2 = \<bar>\<delta>\<bar>\<^sup>2" by simp
  also have "\<dots> \<le> tol\<^sup>2" using small by (intro power_mono) (simp_all add: tol_def)
  also have "\<dots> \<le> 1 / 2 ^ 66" by (simp add: tol_def power2_eq_square)
  finally have r: "\<bar>\<rho>\<bar> \<le> 1 / 2 ^ 66" .
  have "\<bar>\<epsilon> * \<rho>\<bar> \<le> \<bar>\<rho>\<bar>" by (rule abs_scale_le[OF e])
  then have \<epsilon>\<rho>: "\<bar>\<epsilon> * \<rho>\<bar> \<le> 1 / 2 ^ 66" using r by (rule order_trans)
  have id: "(x' - \<delta>) - \<epsilon> * sin (x' - \<delta>) - \<mu>
      = ((x' - \<epsilon> * sin x') - a) + ((a - \<mu>) - \<nu>) + (\<nu> - \<delta> * d) + \<delta> * (d - D) - \<epsilon> * \<rho>"
    by (simp add: D_def \<rho>_def algebra_simps)
  note s = abs_diff_le[OF abs_add_le[OF abs_add_le[OF abs_add_le[OF ae \<nu>e] \<delta>d] \<delta>D] \<epsilon>\<rho>]
  show ?thesis unfolding id by (rule order_trans[OF s]) simp
qed

lemma converged_residual_real:
  assumes e: "0 \<le> \<epsilon>" "\<epsilon> \<le> 1" and x': "\<bar>x'\<bar> < 2 ^ 21"
    and \<delta>: "\<delta> = fl (fl (fl (x' - fl (\<epsilon> * fl (sin x'))) - \<mu>) / fl (1 - fl (\<epsilon> * fl (cos x'))))"
    and d0: "fl (1 - fl (\<epsilon> * fl (cos x'))) \<noteq> 0"
    and small: "\<bar>\<delta>\<bar> < 7737125245533627 / 2 ^ 86"
    and x: "x = fl (x' - \<delta>)"
  shows "\<bar>x - \<epsilon> * sin x - \<mu>\<bar> \<le> 1 / 2 ^ 31 + 1 / 2 ^ 32 + 1 / 2 ^ 51"
    and "\<bar>fl (fl (x - fl (\<epsilon> * fl (sin x))) - \<mu>)\<bar> \<le> 1 / 2 ^ 30 + 1 / 2 ^ 50"
    and "\<bar>x\<bar> \<le> 2 ^ 21 + 1"
proof -
  define w where "w = x' - \<delta>"
  have Rw: "\<bar>w - \<epsilon> * sin w - \<mu>\<bar> \<le> 1 / 2 ^ 32 + 1 / 2 ^ 51"
    unfolding w_def by (rule newton_step_residual[OF e x' \<delta> d0 small])
  have "\<bar>\<delta>\<bar> < 1" by (rule less_trans[OF small]) simp
  then have "\<bar>x'\<bar> + \<bar>\<delta>\<bar> < 2 ^ 21 + 1" using x' by (rule add_strict_mono[rotated])
  then have w1: "\<bar>w\<bar> < 2 ^ 21 + 1" unfolding w_def using abs_triangle_ineq4[of x' \<delta>] by simp
  then have "\<bar>w\<bar> < 2 ^ 22" by simp
  from fl_error_up[OF this] have xw: "\<bar>x - w\<bar> \<le> 1 / 2 ^ 32" by (simp add: x w_def)
  show xb: "\<bar>x\<bar> \<le> 2 ^ 21 + 1"
  proof -
    have "fl w \<le> fl (2 ^ 21 + 1)" using w1 by (intro fl_mono) simp
    moreover have "fl (- (2 ^ 21 + 1)) \<le> fl w" using w1 by (intro fl_mono) simp
    moreover have "fl (2 ^ 21 + 1) = 2 ^ 21 + 1" by (simp add: fl_numeral)
    ultimately show ?thesis by (simp add: x w_def fl_minus abs_le_iff)
  qed
  have "\<bar>\<epsilon> * (sin x - sin w)\<bar> \<le> \<bar>sin x - sin w\<bar>" by (rule abs_scale_le[OF e])
  also have "\<dots> \<le> \<bar>x - w\<bar>" by (rule sin_lipschitz)
  finally have sw: "\<bar>\<epsilon> * (sin x - sin w)\<bar> \<le> 1 / 2 ^ 32" using xw by (rule order_trans)
  have id: "x - \<epsilon> * sin x - \<mu> = (w - \<epsilon> * sin w - \<mu>) + (x - w) - \<epsilon> * (sin x - sin w)"
    by (simp add: algebra_simps)
  note s = abs_diff_le[OF abs_add_le[OF Rw xw] sw]
  show R: "\<bar>x - \<epsilon> * sin x - \<mu>\<bar> \<le> 1 / 2 ^ 31 + 1 / 2 ^ 32 + 1 / 2 ^ 51"
    unfolding id by (rule order_trans[OF s]) simp
  define a where "a = fl (x - fl (\<epsilon> * fl (sin x)))"
  from residual_eval_error[OF e xb]
  have ae: "\<bar>a - (x - \<epsilon> * sin x)\<bar> \<le> 1 / 2 ^ 32 + 1 / 2 ^ 52" by (simp add: a_def)
  have id2: "a - \<mu> = (a - (x - \<epsilon> * sin x)) + (x - \<epsilon> * sin x - \<mu>)" by simp
  have "\<bar>(a - (x - \<epsilon> * sin x)) + (x - \<epsilon> * sin x - \<mu>)\<bar>
          \<le> 1 / 2 ^ 32 + 1 / 2 ^ 52 + (1 / 2 ^ 31 + 1 / 2 ^ 32 + 1 / 2 ^ 51)"
    by (rule abs_add_le[OF ae R])
  then have am: "\<bar>a - \<mu>\<bar> \<le> 1 / 2 ^ 30 + 1 / 2 ^ 51 + 1 / 2 ^ 52" by simp
  have "\<bar>a - \<mu>\<bar> < 1 / 2 ^ 29" by (rule le_less_trans[OF am]) simp
  from fl_error_down[OF this] have fe: "\<bar>fl (a - \<mu>) - (a - \<mu>)\<bar> \<le> 1 / 2 ^ 83" by simp
  have id3: "fl (a - \<mu>) = (fl (a - \<mu>) - (a - \<mu>)) + (a - \<mu>)" by simp
  have "\<bar>fl (a - \<mu>)\<bar> \<le> 1 / 2 ^ 83 + (1 / 2 ^ 30 + 1 / 2 ^ 51 + 1 / 2 ^ 52)"
    by (subst id3) (rule abs_add_le[OF fe am])
  then show "\<bar>fl (fl (x - fl (\<epsilon> * fl (sin x))) - \<mu>)\<bar> \<le> 1 / 2 ^ 30 + 1 / 2 ^ 50"
    unfolding a_def by simp
qed

lemma step_numerator_small:
  assumes "0 \<le> d" and "d \<le> 2" and "d \<noteq> 0"
    and "\<bar>fl (\<nu> / d)\<bar> < 7737125245533627 / 2 ^ 86"
  shows "\<bar>\<nu>\<bar> \<le> 2 * (7737125245533627 / 2 ^ 86)"
proof -
  define tol :: real where "tol = 7737125245533627 / 2 ^ 86"
  have tolrep: "fl tol = tol" unfolding tol_def by (rule tolerance_representable)
  have "\<bar>fl (\<nu> / d)\<bar> < tol" using assms(4) by (simp add: tol_def)
  from fl_bounded_arg[OF tolrep this] have q: "\<bar>\<nu> / d\<bar> \<le> tol" .
  have tol0: "0 \<le> tol" by (simp add: tol_def)
  have "\<bar>\<nu>\<bar> = \<bar>\<nu> / d\<bar> * d" using assms(1,3) by (simp add: abs_divide)
  also have "\<dots> \<le> tol * 2" using q assms(1,2) tol0 by (intro mult_mono) simp_all
  finally show ?thesis by (simp add: tol_def)
qed

subsection \<open>The step as the solver computes it\<close>

lemma newton_iterate_Suc:
  "newton_iterate M e E (Suc k)
     = jssub (newton_iterate M e E k) (newton_dE M e (newton_iterate M e E k))"
  by (induction k arbitrary: E) simp_all

lemma newton_iterate_representable:
  "newton_iterate M e E k = Finite y \<Longrightarrow> (\<And>x0. E = Finite x0 \<Longrightarrow> fl x0 = x0) \<Longrightarrow> fl y = y"
proof (induction k arbitrary: E)
  case 0
  then show ?case by simp
next
  case (Suc k)
  have "\<And>x0. jssub E (newton_dE M e E) = Finite x0 \<Longrightarrow> fl x0 = x0"
    by (auto dest!: jssub_Finite_cases)
  with Suc.IH[of "jssub E (newton_dE M e E)"] Suc.prems(1) show ?case by simp
qed

lemma Math_PI_representable:
  assumes "Math_PI = Finite p"
  shows "fl p = p"
proof -
  have "(2::real) powi (- 48) = 1 / 2 ^ 48" by (simp add: power_int_minus field_simps)
  then have "fl (884279719003555 / 2 ^ 48) = 884279719003555 / 2 ^ 48"
    using fl_exact[of 884279719003555 "- 48"] by simp
  moreover have "p = 884279719003555 / 2 ^ 48" using assms unfolding Math_PI_def by simp
  ultimately show ?thesis by (simp only:)
qed

lemma lit_1e9_value: "lit (1 / 10 ^ 9) = Finite (4835703278458517 / 2 ^ 82)"
  by (simp add: fl_eval js_eval)

lemma round_esin:
  assumes "0 \<le> \<epsilon>" and "\<epsilon> \<le> 1"
  shows "round_double (\<epsilon> * fl (sin y)) = Finite (fl (\<epsilon> * fl (sin y)))"
    and "\<bar>fl (\<epsilon> * fl (sin y))\<bar> \<le> 1"
proof -
  have "\<bar>fl (sin y)\<bar> \<le> 1" by (intro fl_abs_le_1 abs_sin_le_one)
  then have b: "\<bar>\<epsilon> * fl (sin y)\<bar> \<le> 1" using abs_scale_le[OF assms, of "fl (sin y)"] by linarith
  then have "\<bar>\<epsilon> * fl (sin y)\<bar> \<le> 2 ^ 64" by simp
  then show "round_double (\<epsilon> * fl (sin y)) = Finite (fl (\<epsilon> * fl (sin y)))"
    by (rule round_double_small)
  show "\<bar>fl (\<epsilon> * fl (sin y))\<bar> \<le> 1" using b by (rule fl_abs_le_1)
qed

lemma denominator_eval:
  assumes "0 \<le> \<epsilon>" and "\<epsilon> \<le> 1"
  shows "newton_denominator (Finite \<epsilon>) (Finite y) = Finite (fl (1 - fl (\<epsilon> * fl (cos y))))"
proof -
  have "\<bar>fl (cos y)\<bar> \<le> 1" by (intro fl_abs_le_1 abs_cos_le_one)
  then have b: "\<bar>\<epsilon> * fl (cos y)\<bar> \<le> 1" using abs_scale_le[OF assms, of "fl (cos y)"] by linarith
  then have "\<bar>\<epsilon> * fl (cos y)\<bar> \<le> 2 ^ 64" by simp
  then have m: "round_double (\<epsilon> * fl (cos y)) = Finite (fl (\<epsilon> * fl (cos y)))"
    by (rule round_double_small)
  have "\<bar>fl (\<epsilon> * fl (cos y))\<bar> \<le> 1" using b by (rule fl_abs_le_1)
  then have "\<bar>1 - fl (\<epsilon> * fl (cos y))\<bar> \<le> 2 ^ 64" by simp
  then have "round_double (1 - fl (\<epsilon> * fl (cos y))) = Finite (fl (1 - fl (\<epsilon> * fl (cos y))))"
    by (rule round_double_small)
  then show ?thesis by (simp add: newton_denominator_def m jssub_def)
qed

lemma solver_step:
  assumes e: "0 \<le> \<epsilon>" "\<epsilon> \<le> 1" and rep: "fl x' = x'"
    and dE: "newton_dE (Finite \<mu>) (Finite \<epsilon>) (Finite x') = Finite \<delta>"
    and guard: "jsgt (Math_abs (newton_denominator (Finite \<epsilon>) (Finite x'))) Number_EPSILON"
    and small: "\<bar>\<delta>\<bar> < 7737125245533627 / 2 ^ 86"
    and x: "jssub (Finite x') (Finite \<delta>) = Finite x"
  shows "jslt (Math_abs (jssub (jssub (Finite x) (jsmul (Finite \<epsilon>) (Math_sin (Finite x))))
                 (Finite \<mu>))) (lit (1 / 10 ^ 9))"
    and "\<bar>x\<bar> < 2 ^ 21 \<Longrightarrow> \<bar>x - \<epsilon> * sin x - \<mu>\<bar> < 1 / 10 ^ 9"
proof -
  define t where "t = fl (\<epsilon> * fl (sin x'))"
  define d where "d = fl (1 - fl (\<epsilon> * fl (cos x')))"
  have den: "newton_denominator (Finite \<epsilon>) (Finite x') = Finite d"
    unfolding d_def by (rule denominator_eval[OF e])
  have d0: "d \<noteq> 0" using guard by (auto simp: den jsgt_def Number_EPSILON_def)
  have dpos: "0 \<le> d" and d2: "d \<le> 2"
    using denominator_bounds(1,2)[OF e, of x'] by (simp_all add: d_def)
  have "jsdiv (jssub (jssub (Finite x') (Finite t)) (Finite \<mu>)) (Finite d) = Finite \<delta>"
    using dE by (simp add: newton_dE_def den round_esin(1)[OF e] t_def)
  from jsdiv_Finite_cases[OF this d0] obtain \<nu>
    where N: "jssub (jssub (Finite x') (Finite t)) (Finite \<mu>) = Finite \<nu>"
      and \<delta>\<nu>: "\<delta> = fl (\<nu> / d)" by blast
  from jssub_Finite_cases[OF N] obtain a
    where A: "jssub (Finite x') (Finite t) = Finite a" and \<nu>a: "\<nu> = fl (a - \<mu>)" by auto
  from jssub_Finite_cases[OF A] have a: "a = fl (x' - t)" by auto
  have \<delta>: "\<delta> = fl (fl (fl (x' - fl (\<epsilon> * fl (sin x'))) - \<mu>) / fl (1 - fl (\<epsilon> * fl (cos x'))))"
    by (simp add: \<delta>\<nu> \<nu>a a t_def d_def)
  have d0': "fl (1 - fl (\<epsilon> * fl (cos x'))) \<noteq> 0" using d0 by (simp add: d_def)
  from jssub_Finite_cases[OF x] have xfl: "x = fl (x' - \<delta>)" by auto
  have v9: "lit (1 / 10 ^ 9) = Finite (4835703278458517 / 2 ^ 82)" by (rule lit_1e9_value)
  have both: "jslt (Math_abs (jssub (jssub (Finite x) (jsmul (Finite \<epsilon>) (Math_sin (Finite x))))
                 (Finite \<mu>))) (lit (1 / 10 ^ 9))
            \<and> (\<bar>x\<bar> < 2 ^ 21 \<longrightarrow> \<bar>x - \<epsilon> * sin x - \<mu>\<bar> < 1 / 10 ^ 9)"
  proof (cases "\<bar>x'\<bar> < 2 ^ 21")
    case True
    note r = converged_residual_real[OF e True \<delta> d0' small xfl]
    define t2 where "t2 = fl (\<epsilon> * fl (sin x))"
    have t2b: "\<bar>t2\<bar> \<le> 1" unfolding t2_def by (rule round_esin(2)[OF e])
    have "\<bar>x\<bar> + \<bar>t2\<bar> \<le> 2 ^ 21 + 1 + 1" using r(3) t2b by (rule add_mono)
    then have "\<bar>x - t2\<bar> \<le> 2 ^ 64" using abs_triangle_ineq4[of x t2] by simp
    then have s1: "jssub (Finite x) (Finite t2) = Finite (fl (x - t2))"
      by (simp add: jssub_def round_double_small)
    have "\<bar>fl (fl (x - t2) - \<mu>)\<bar> \<le> 1 / 2 ^ 30 + 1 / 2 ^ 50" using r(2) by (simp add: t2_def)
    then have small2: "\<bar>fl (fl (x - t2) - \<mu>)\<bar> \<le> 1" by simp
    then have "\<bar>fl (fl (x - t2) - \<mu>)\<bar> \<le> MAX_VALUE" using MAX_VALUE_ge_1 by linarith
    then have s2: "jssub (Finite (fl (x - t2))) (Finite \<mu>) = Finite (fl (fl (x - t2) - \<mu>))"
      by (simp add: jssub_def round_double_bounded)
    have lt: "\<bar>fl (fl (x - t2) - \<mu>)\<bar> < 4835703278458517 / 2 ^ 82"
      by (rule le_less_trans[OF \<open>\<bar>fl (fl (x - t2) - \<mu>)\<bar> \<le> 1 / 2 ^ 30 + 1 / 2 ^ 50\<close>]) simp
    have ev: "jssub (jssub (Finite x) (jsmul (Finite \<epsilon>) (Math_sin (Finite x)))) (Finite \<mu>)
                = Finite (fl (fl (x - t2) - \<mu>))"
      using s1 s2 by (simp add: round_esin(1)[OF e] t2_def)
    have c1: "jslt (Math_abs (jssub (jssub (Finite x) (jsmul (Finite \<epsilon>) (Math_sin (Finite x))))
                 (Finite \<mu>))) (lit (1 / 10 ^ 9))"
      unfolding ev v9 using lt by simp
    have "\<bar>x - \<epsilon> * sin x - \<mu>\<bar> < 1 / 10 ^ 9"
      by (rule le_less_trans[OF r(1)]) simp
    with c1 show ?thesis by simp
  next
    case False
    then have big: "2 powi 21 \<le> \<bar>x'\<bar>" by simp
    have "\<bar>\<delta>\<bar> < 2 powi (21 - 54)"
      by (rule less_trans[OF small]) (simp add: power_int_minus field_simps)
    from fl_absorb[OF rep big _ this] have "fl (x' - \<delta>) = x'" by simp
    then have xx: "x = x'" using xfl by simp
    have "\<bar>\<nu>\<bar> \<le> 2 * (7737125245533627 / 2 ^ 86)"
      using step_numerator_small[OF dpos d2 d0] small by (simp add: \<delta>\<nu>)
    then have lt: "\<bar>\<nu>\<bar> < 4835703278458517 / 2 ^ 82" by simp
    have ev: "jssub (jssub (Finite x) (jsmul (Finite \<epsilon>) (Math_sin (Finite x)))) (Finite \<mu>)
                = Finite \<nu>"
      using N by (simp add: xx round_esin(1)[OF e] t_def)
    have c1: "jslt (Math_abs (jssub (jssub (Finite x) (jsmul (Finite \<epsilon>) (Math_sin (Finite x))))
                 (Finite \<mu>))) (lit (1 / 10 ^ 9))"
      unfolding ev v9 using lt by simp
    have "\<not> \<bar>x\<bar> < 2 ^ 21" using False xx by simp
    with c1 show ?thesis by simp
  qed
  from both show "jslt (Math_abs (jssub (jssub (Finite x) (jsmul (Finite \<epsilon>) (Math_sin (Finite x))))
                 (Finite \<mu>))) (lit (1 / 10 ^ 9))" by simp
  from both show "\<bar>x\<bar> < 2 ^ 21 \<Longrightarrow> \<bar>x - \<epsilon> * sin x - \<mu>\<bar> < 1 / 10 ^ 9" by simp
qed

lemma eccentricity_bounds:
  assumes "assertBounds ecc (Finite 0) (jssub (Finite 1) Number_EPSILON) name = None"
  shows "\<exists>\<epsilon>. ecc = Finite \<epsilon> \<and> 0 \<le> \<epsilon> \<and> \<epsilon> \<le> 1"
proof -
  have "\<bar>1 - 1 / 2 ^ 52\<bar> \<le> (2::real) ^ 64" by simp
  then have hi: "jssub (Finite 1) Number_EPSILON = Finite (fl (1 - 1 / 2 ^ 52))"
    by (simp add: jssub_def Number_EPSILON_def round_double_small)
  have "fl (1 - 1 / 2 ^ 52) \<le> fl 1" by (rule fl_mono) simp
  then have le: "fl (1 - 1 / 2 ^ 52) \<le> 1" by simp
  from assms obtain \<epsilon> where c: "ecc = Finite \<epsilon>"
    by (cases ecc) (auto simp: assertBounds_def invariant_def split: if_splits)
  from assms have "0 \<le> \<epsilon>" and "\<epsilon> \<le> fl (1 - 1 / 2 ^ 52)"
    unfolding c hi by (auto simp: assertBounds_def invariant_def jsge_def split: if_splits)
  with le c show ?thesis by auto
qed

lemma solver_step_finite:
  assumes "jslt (Math_abs dE) KEPLER_TOLERANCE"
  shows "\<exists>\<delta>. dE = Finite \<delta> \<and> \<bar>\<delta>\<bar> < 7737125245533627 / 2 ^ 86"
  using assms by (cases dE) (simp_all add: KEPLER_TOLERANCE_value)

lemma solve_half_at_zero:
  "solveKeplerEquation (Finite 0) (Finite (1 / 2)) KEPLER_TOLERANCE MAX_KEPLER_ITERATIONS
     = Inr (Finite 0)"
proof -
  have h: "fl (1 / 2) = 1 / 2" by (simp add: fl_eval)
  have den: "newton_denominator (Finite (1 / 2)) (Finite 0) = Finite (1 / 2)"
    by (simp add: newton_denominator_def jssub_def round_double_small h)
  have dE: "newton_dE (Finite 0) (Finite (1 / 2)) (Finite 0) = Finite 0"
    by (simp add: newton_dE_def den jssub_def)
  have loop: "kepler_loop (iterations MAX_KEPLER_ITERATIONS) (Finite 0) (Finite (1 / 2))
                KEPLER_TOLERANCE (Finite 0) = Inr (Finite 0, True)"
    by (simp add: MAX_KEPLER_ITERATIONS_def kepler_loop_numeral den dE jssub_def
          KEPLER_TOLERANCE_value Number_EPSILON_def invariant_def assertFinite_def jsgt_def)
  have start: "\<not> jsgt (Finite (1 / 2)) (lit (4 / 5))"
    by (simp add: fl_eval js_eval)
  have pre: "checks
        [assertFinite (Finite 0) ''Mean anomaly for Kepler equation'',
         assertFinite (Finite (1 / 2)) ''Eccentricity for Kepler equation'',
         assertBounds (Finite (1 / 2)) (Finite 0) (jssub (Finite 1) Number_EPSILON) ''Eccentricity'',
         assertPositive KEPLER_TOLERANCE ''Kepler tolerance'',
         assertPositive MAX_KEPLER_ITERATIONS ''Max Kepler iterations''] = None"
    by (simp add: assertFinite_def assertBounds_def assertPositive_def invariant_def
          KEPLER_TOLERANCE_value MAX_KEPLER_ITERATIONS_def Number_EPSILON_def fl_eval js_eval)
  show ?thesis
    unfolding solveKeplerEquation_def pre
    by (simp add: zero_to_radians start loop assertFinite_def invariant_def Let_def)
qed

text \<open>
  Where the doubles are \<open>2\<close> apart, the term \<open>e sin E\<close> of an eccentricity
  \<open>1 / 4\<close> is absorbed: the first step is \<open>0\<close> and the solver returns the mean
  anomaly in radians.
\<close>

lemma fl_quarter_bound:
  assumes "\<bar>s\<bar> \<le> 1"
  shows "\<bar>fl (1 / 4 * s)\<bar> \<le> 1 / 4"
proof -
  have q: "fl (1 / 4) = 1 / 4" by (simp add: fl_eval)
  have "fl (1 / 4 * s) \<le> fl (1 / 4)" using assms by (intro fl_mono) simp
  moreover have "fl (- (1 / 4)) \<le> fl (1 / 4 * s)" using assms by (intro fl_mono) simp
  ultimately show ?thesis by (simp add: fl_minus q abs_le_iff)
qed

lemma solve_huge:
  assumes M: "jsmul (Finite m) DEG_TO_RAD = Finite \<mu>" and big: "2 ^ 53 \<le> \<bar>\<mu>\<bar>"
  shows "solveKeplerEquation (Finite m) (Finite (1 / 4)) KEPLER_TOLERANCE MAX_KEPLER_ITERATIONS
           = Inr (Finite \<mu>)"
proof -
  have rep: "fl \<mu> = \<mu>" using M by (rule jsmul_representable)
  have "round_double (m * (5030569068109113 / 2 ^ 58)) = Finite \<mu>"
    using M by (simp add: DEG_TO_RAD_value)
  then have \<mu>max: "\<bar>\<mu>\<bar> \<le> MAX_VALUE"
    by (auto simp: round_double_def Let_def split: if_splits)
  have rr: "round_double \<mu> = Finite \<mu>"
    using round_double_bounded[of \<mu>] \<mu>max by (simp add: rep)
  have e: "(0::real) \<le> 1 / 4" "(1::real) / 4 \<le> 1" by simp_all
  define t where "t = fl (1 / 4 * fl (sin \<mu>))"
  define d where "d = fl (1 - fl (1 / 4 * fl (cos \<mu>)))"
  have tb: "\<bar>t\<bar> \<le> 1 / 4"
    unfolding t_def by (intro fl_quarter_bound fl_abs_le_1 abs_sin_le_one)
  have pb: "\<bar>fl (1 / 4 * fl (cos \<mu>))\<bar> \<le> 1 / 4"
    by (intro fl_quarter_bound fl_abs_le_1 abs_cos_le_one)
  have "fl (3 / 4) \<le> d" unfolding d_def using pb by (intro fl_mono) simp
  moreover have "fl (3 / 4) = 3 / 4" by (simp add: fl_eval)
  ultimately have dlo: "3 / 4 \<le> d" by simp
  have den: "newton_denominator (Finite (1 / 4)) (Finite \<mu>) = Finite d"
    unfolding d_def by (rule denominator_eval[OF e])
  have b53: "2 powi 53 \<le> \<bar>\<mu>\<bar>" using big by simp
  have "\<bar>t\<bar> < 2 powi (53 - 54)" using tb by (simp add: power_int_minus)
  from fl_absorb[OF rep b53 _ this] have ab: "fl (\<mu> - t) = \<mu>" by simp
  have sub: "jssub (Finite \<mu>) (Finite t) = Finite \<mu>"
    using round_double_bounded[of "\<mu> - t"] \<mu>max by (simp add: jssub_def ab)
  have m: "jsmul (Finite (1 / 4)) (Math_sin (Finite \<mu>)) = Finite t"
    unfolding t_def Math_sin.simps round_double_sin jsmul.simps by (rule round_esin(1)[OF e])
  have "jsdiv (jssub (Finite \<mu>) (Finite \<mu>)) (Finite d) = Finite 0"
    using dlo by (simp add: jssub_def)
  then have dE: "newton_dE (Finite \<mu>) (Finite (1 / 4)) (Finite \<mu>) = Finite 0"
    unfolding newton_dE_def den m sub .
  have step: "jssub (Finite \<mu>) (Finite 0) = Finite \<mu>" by (simp add: jssub_def rr)
  have loop: "kepler_loop (iterations MAX_KEPLER_ITERATIONS) (Finite \<mu>) (Finite (1 / 4))
                KEPLER_TOLERANCE (Finite \<mu>) = Inr (Finite \<mu>, True)"
    using dlo
    by (simp add: MAX_KEPLER_ITERATIONS_def kepler_loop_numeral den dE step
          KEPLER_TOLERANCE_value Number_EPSILON_def invariant_def assertFinite_def jsgt_def)
  have start: "\<not> jsgt (Finite (1 / 4)) (lit (4 / 5))"
    by (simp add: fl_eval js_eval)
  have pre: "checks
        [assertFinite (Finite m) ''Mean anomaly for Kepler equation'',
         assertFinite (Finite (1 / 4)) ''Eccentricity for Kepler equation'',
         assertBounds (Finite (1 / 4)) (Finite 0) (jssub (Finite 1) Number_EPSILON) ''Eccentricity'',
         assertPositive KEPLER_TOLERANCE ''Kepler tolerance'',
         assertPositive MAX_KEPLER_ITERATIONS ''Max Kepler iterations''] = None"
    by (simp add: assertFinite_def assertBounds_def assertPositive_def invariant_def
          KEPLER_TOLERANCE_value MAX_KEPLER_ITERATIONS_def Number_EPSILON_def fl_eval js_eval)
  show ?thesis
    unfolding solveKeplerEquation_def pre
    by (simp add: M start loop assertFinite_def invariant_def Let_def)
qed

lemma huge_anomaly_radians:
  "jsmul (Finite (2 ^ 59)) DEG_TO_RAD = Finite 10061138136218226"
  "jsmul (Finite (2 ^ 59 + 128)) DEG_TO_RAD = Finite 10061138136218228"
  by (simp_all add: DEG_TO_RAD_value fl_eval js_eval cong: let_weak_cong)

text \<open>
  Claim C1. Whenever \<open>solveKeplerEquation(M, e)\<close>, called with the default tolerance
  \<open>1e-10\<close> and any iteration cap, returns a value \<open>E\<close>, the residual
  \<open>|E - e sin E - M_rad|\<close> evaluated in the arithmetic of the program (every operation
  rounded to a double, \<open>M_rad\<close> the double \<open>M * (Math.PI / 180)\<close> of the source)
  is below \<open>1e-9\<close>; and when \<open>|E| < 2 ^ 21\<close> radians the residual in real numbers,
  with the real sine, is below \<open>1e-9\<close> too. The eccentricities are those the solver
  accepts, \<open>0 \<le> e \<le> 1 - Number.EPSILON\<close>, among them all of
  \<open>0 \<le> e < 0.999999\<close>. For larger \<open>|E|\<close> the real residual is not bounded by
  \<open>1e-9\<close>: the doubles are too far apart there.
\<close>

theorem kepler_residual_below_1e9:
  "solveKeplerEquation meanAnomaly_deg ecc KEPLER_TOLERANCE maxIterations = Inr E \<longrightarrow>
     jslt (Math_abs (jssub (jssub E (jsmul ecc (Math_sin E))) (jsmul meanAnomaly_deg DEG_TO_RAD)))
       (lit (1 / 10 ^ 9))
   \<and> (\<forall>x \<epsilon> \<mu>. E = Finite x \<and> ecc = Finite \<epsilon> \<and> jsmul meanAnomaly_deg DEG_TO_RAD = Finite \<mu>
          \<and> \<bar>x\<bar> < 2 ^ 21 \<longrightarrow> \<bar>x - \<epsilon> * sin x - \<mu>\<bar> < 1 / 10 ^ 9)"
proof
  assume r: "solveKeplerEquation meanAnomaly_deg ecc KEPLER_TOLERANCE maxIterations = Inr E"
  let ?M = "jsmul meanAnomaly_deg DEG_TO_RAD"
  let ?E0 = "if jsgt ecc (lit 0.8) then Math_PI else ?M"
  from r have pre: "checks
        [assertFinite meanAnomaly_deg ''Mean anomaly for Kepler equation'',
         assertFinite ecc ''Eccentricity for Kepler equation'',
         assertBounds ecc (Finite 0) (jssub (Finite 1) Number_EPSILON) ''Eccentricity'',
         assertPositive KEPLER_TOLERANCE ''Kepler tolerance'',
         assertPositive maxIterations ''Max Kepler iterations''] = None"
    by (auto simp: solveKeplerEquation_def split: option.splits)
  then have "assertBounds ecc (Finite 0) (jssub (Finite 1) Number_EPSILON) ''Eccentricity'' = None"
    by (simp add: checks_eq_None_iff)
  from eccentricity_bounds[OF this] obtain \<epsilon> where ecc: "ecc = Finite \<epsilon>" and e: "0 \<le> \<epsilon>" "\<epsilon> \<le> 1"
    by blast
  from r pre have Mfin: "assertFinite ?M ''Mean anomaly in radians'' = None"
    by (auto simp: solveKeplerEquation_def Let_def split: option.splits)
  then obtain \<mu> where M: "?M = Finite \<mu>"
    by (cases ?M) (simp_all add: assertFinite_None_iff)
  from r obtain c where loop: "kepler_loop (iterations maxIterations) ?M ecc KEPLER_TOLERANCE ?E0 = Inr (E, c)"
    and chk: "checks [invariant c ''Kepler equation must converge'',
                      assertFinite E ''Final eccentric anomaly''] = None"
    by (auto simp: solveKeplerEquation_def Let_def split: option.splits sum.splits prod.splits)
  from chk have "c" and Efin: "assertFinite E ''Final eccentric anomaly'' = None"
    by (auto simp: checks_eq_None_iff invariant_def split: if_splits)
  then obtain x where E: "E = Finite x"
    by (cases E) (simp_all add: assertFinite_None_iff)
  from loop \<open>c\<close> have "kepler_loop (iterations maxIterations) ?M ecc KEPLER_TOLERANCE ?E0 = Inr (E, True)"
    by simp
  from kepler_loop_converged[OF this] obtain k where
    Ek: "E = newton_iterate ?M ecc ?E0 (Suc k)"
    and conv: "jslt (Math_abs (newton_dE ?M ecc (newton_iterate ?M ecc ?E0 k))) KEPLER_TOLERANCE"
    and guards: "\<forall>j\<le>k. jsgt (Math_abs (newton_denominator ecc (newton_iterate ?M ecc ?E0 j))) Number_EPSILON"
    by blast
  define E' where "E' = newton_iterate ?M ecc ?E0 k"
  from solver_step_finite[OF conv] obtain \<delta>
    where dE: "newton_dE ?M ecc E' = Finite \<delta>" and small: "\<bar>\<delta>\<bar> < 7737125245533627 / 2 ^ 86"
    unfolding E'_def by blast
  have "jssub E' (Finite \<delta>) = Finite x"
    using Ek E dE unfolding newton_iterate_Suc E'_def by simp
  from jssub_Finite_cases[OF this] obtain x' where E'x: "E' = Finite x'" by blast
  have step: "jssub (Finite x') (Finite \<delta>) = Finite x"
    using \<open>jssub E' (Finite \<delta>) = Finite x\<close> E'x by simp
  have start: "\<And>x0. ?E0 = Finite x0 \<Longrightarrow> fl x0 = x0"
    by (auto dest: Math_PI_representable jsmul_representable split: if_splits)
  have rep: "fl x' = x'"
    using newton_iterate_representable[of ?M ecc ?E0 k x'] start E'x unfolding E'_def by blast
  have guard: "jsgt (Math_abs (newton_denominator (Finite \<epsilon>) (Finite x'))) Number_EPSILON"
    using guards E'x unfolding E'_def ecc by auto
  have dE': "newton_dE (Finite \<mu>) (Finite \<epsilon>) (Finite x') = Finite \<delta>"
    using dE by (simp add: M ecc E'x)
  note res = solver_step[OF e rep dE' guard small step]
  show "jslt (Math_abs (jssub (jssub E (jsmul ecc (Math_sin E))) ?M)) (lit (1 / 10 ^ 9))
   \<and> (\<forall>x \<epsilon> \<mu>. E = Finite x \<and> ecc = Finite \<epsilon> \<and> ?M = Finite \<mu>
          \<and> \<bar>x\<bar> < 2 ^ 21 \<longrightarrow> \<bar>x - \<epsilon> * sin x - \<mu>\<bar> < 1 / 10 ^ 9)"
    unfolding E ecc M using res by blast
qed

theorem kepler_residual_below_1e9_witness:
  "solveKeplerEquation (Finite 0) (Finite (1 / 2)) KEPLER_TOLERANCE MAX_KEPLER_ITERATIONS
     = Inr (Finite 0)
   \<and> jslt (Math_abs (jssub (jssub (Finite 0) (jsmul (Finite (1 / 2)) (Math_sin (Finite 0))))
             (jsmul (Finite 0) DEG_TO_RAD))) (lit (1 / 10 ^ 9))
   \<and> \<bar>0 - 1 / 2 * sin 0 - 0\<bar> < (1 / 10 ^ 9 :: real)"
  using kepler_residual_below_1e9
          [of "Finite 0" "Finite (1 / 2)" MAX_KEPLER_ITERATIONS "Finite 0"]
        solve_half_at_zero
  by (simp add: zero_to_radians)

text \<open>
  For the mean anomalies \<open>2 ^ 59\<close> and \<open>2 ^ 59 + 128\<close> degrees and the
  eccentricity \<open>1 / 4\<close> the solver returns \<open>M_rad\<close> itself, so the residual in
  real numbers is \<open>|sin E| / 4\<close>. The two values of \<open>E\<close> are \<open>2\<close> apart, and
  the sines of two numbers \<open>2\<close> apart are not both small: at least one of the two
  residuals is \<open>1e-9\<close> or more.
\<close>

theorem exact_residual_exceeds_bound_counterexample:
  "solveKeplerEquation (Finite (2 ^ 59)) (Finite (1 / 4)) KEPLER_TOLERANCE MAX_KEPLER_ITERATIONS
     = Inr (Finite 10061138136218226)
   \<and> jsmul (Finite (2 ^ 59)) DEG_TO_RAD = Finite 10061138136218226
   \<and> solveKeplerEquation (Finite (2 ^ 59 + 128)) (Finite (1 / 4)) KEPLER_TOLERANCE
       MAX_KEPLER_ITERATIONS = Inr (Finite 10061138136218228)
   \<and> jsmul (Finite (2 ^ 59 + 128)) DEG_TO_RAD = Finite 10061138136218228
   \<and> (1 / 10 ^ 9 \<le> \<bar>10061138136218226 - 1 / 4 * sin 10061138136218226 - 10061138136218226 :: real\<bar>
      \<or> 1 / 10 ^ 9 \<le> \<bar>10061138136218228 - 1 / 4 * sin 10061138136218228 - 10061138136218228 :: real\<bar>)"
proof -
  have s1: "solveKeplerEquation (Finite (2 ^ 59)) (Finite (1 / 4)) KEPLER_TOLERANCE
              MAX_KEPLER_ITERATIONS = Inr (Finite 10061138136218226)"
    by (rule solve_huge[OF huge_anomaly_radians(1)]) simp
  have s2: "solveKeplerEquation (Finite (2 ^ 59 + 128)) (Finite (1 / 4)) KEPLER_TOLERANCE
              MAX_KEPLER_ITERATIONS = Inr (Finite 10061138136218228)"
    by (rule solve_huge[OF huge_anomaly_radians(2)]) simp
  have "1 / 10 ^ 8 \<le> \<bar>sin (10061138136218226::real)\<bar>
      \<or> 1 / 10 ^ 8 \<le> \<bar>sin (10061138136218226 + 2 :: real)\<bar>" by (rule sines_two_apart)
  then have "1 / 10 ^ 8 \<le> \<bar>sin (10061138136218226::real)\<bar>
      \<or> 1 / 10 ^ 8 \<le> \<bar>sin (10061138136218228 :: real)\<bar>" by simp
  then have r: "1 / 10 ^ 9 \<le> \<bar>10061138136218226 - 1 / 4 * sin 10061138136218226 - 10061138136218226 :: real\<bar>
      \<or> 1 / 10 ^ 9 \<le> \<bar>10061138136218228 - 1 / 4 * sin 10061138136218228 - 10061138136218228 :: real\<bar>"
    by (auto simp: abs_mult)
  from s1 s2 huge_anomaly_radians r show ?thesis by (simp only: simp_thms)
qed

section \<open>Properties of the body hierarchy\<close>









lemma parents_before_nth:
  "parents_before k ps \<Longrightarrow> i < length ps \<Longrightarrow> ps ! i = Some p \<Longrightarrow> p < k + i"
proof (induction k ps arbitrary: i rule: parents_before.induct)
  case (1 k)
  then show ?case by simp
next
  case (2 k ps)
  then show ?case by (cases i) auto
next
  case (3 k q ps)
  then show ?case by (cases i) auto
qed

lemma assembled_parents_before: "parents_before 0 assembled_parents"
  by (simp add: assembled_parents_def)

lemma assembled_system_parents_first:
  assumes "\<forall>k < length assembled_parents. parentBody (h k) = assembled_parents ! k"
  shows "parents_first h [0..<length assembled_parents]"
  unfolding parents_first_def
proof (intro conjI allI impI)
  show "distinct [0..<length assembled_parents]" by simp
next
  fix k p
  assume k: "k < length [0..<length assembled_parents]"
    and p: "parentBody (h ([0..<length assembled_parents] ! k)) = Some p"
  from k have k': "k < length assembled_parents" by simp
  with p assms have "assembled_parents ! k = Some p" by simp
  from parents_before_nth[OF assembled_parents_before k' this] have "p < k" by simp
  then show "p \<notin> set (drop k [0..<length assembled_parents])" by (simp add: drop_upt)
qed







end
